(* ===== verification/Xit_Prelude.thy ===== *)
theory Xit_Prelude
  imports Main
    "HOL-Library.Mapping"
    "HOL-Library.AList_Mapping"
    "HOL-Library.List_Lexorder"
    "HOL-Library.Char_ord"
    "HOL-Library.Product_Lexorder"
    "HOL-Library.Sublist"
    "HOL-Library.Multiset"
begin

text \<open>
  Shared vocabulary of the model of \<^verbatim>\<open>src/registry/xit.py\<close>: Python's errors
  as values, Python 2's three-way \<^verbatim>\<open>cmp\<close>, the list operations the code
  performs with a user-defined equality (\<^verbatim>\<open>x in xs\<close>, \<^verbatim>\<open>xs.remove(x)\<close>),
  the sorted iteration over a dictionary (\<^verbatim>\<open>sorted(d.iteritems())\<close>), and the
  loop that prints rows until the first exception. Python \<^verbatim>\<open>str\<close> is
  \<^typ>\<open>string\<close>, ordered bytewise and lexicographically (\<open>List_Lexorder\<close>,
  \<open>Char_ord\<close>), as Python 2 compares byte strings; a \<^verbatim>\<open>dict\<close> is a
  \<^typ>\<open>('k, 'v) mapping\<close>.
\<close>

named_theorems xit_simps "simplification rules of the xit model"

section \<open>Errors\<close>

text \<open>
  Every exception the code raises or lets escape, and every \<^verbatim>\<open>sys.exit(1)\<close>
  after a \<^verbatim>\<open>logging.error\<close>, is one constructor; the arguments are the data
  the logged message names.
\<close>

datatype xit_error =
    ValueError
  | AttributeError
  | IndexError
  | NotImplementedError
  | CalledProcessError
  | ExitInvalidTestName string string
  | ExitInvalidStatus
  | ExitRegistryNotFound string
  | ExitParseFailed
  | ExitFindRegistry string
  | KeyError
  | IOError

section \<open>Python 2 \<^verbatim>\<open>cmp\<close>\<close>

definition py_cmp :: "'a::linorder \<Rightarrow> 'a \<Rightarrow> int" where
  "py_cmp a b = (if a < b then -1 else if a = b then 0 else 1)"

lemma py_cmp_eq_0 [xit_simps]: "py_cmp a b = 0 \<longleftrightarrow> a = b"
  by (simp add: py_cmp_def)

lemma py_cmp_gt_0 [xit_simps]: "0 < py_cmp a b \<longleftrightarrow> b < a"
  by (auto simp: py_cmp_def)

lemma py_cmp_lt_0 [xit_simps]: "py_cmp a b < 0 \<longleftrightarrow> a < b"
  by (auto simp: py_cmp_def)

section \<open>Lists with a user-defined equality\<close>

text \<open>
  The annotation classes define \<^verbatim>\<open>__eq__\<close> (or \<^verbatim>\<open>__cmp__\<close>) on a key
  of their fields, so \<^verbatim>\<open>x in xs\<close> and \<^verbatim>\<open>xs.remove(x)\<close> compare keys.
  \<^verbatim>\<open>remove\<close> deletes the first element equal to \<open>x\<close> and raises
  \<^verbatim>\<open>ValueError\<close> (here \<open>None\<close>) when there is none.
\<close>

definition py_contains :: "('a \<Rightarrow> 'k) \<Rightarrow> 'a \<Rightarrow> 'a list \<Rightarrow> bool" where
  "py_contains key x xs = list_ex (\<lambda>e. key e = key x) xs"

fun py_list_remove :: "('a \<Rightarrow> 'k) \<Rightarrow> 'a \<Rightarrow> 'a list \<Rightarrow> 'a list option" where
  "py_list_remove key x [] = None"
| "py_list_remove key x (e # es) =
     (if key e = key x then Some es else map_option (Cons e) (py_list_remove key x es))"

text \<open>\<^verbatim>\<open>if not x in xs: xs.append(x)\<close>\<close>

definition append_unique :: "('a \<Rightarrow> 'k) \<Rightarrow> 'a \<Rightarrow> 'a list \<Rightarrow> 'a list" where
  "append_unique key x xs = (if py_contains key x xs then xs else xs @ [x])"

text \<open>\<^verbatim>\<open>try: xs.remove(x) except ValueError: pass\<close>\<close>

definition remove_quiet :: "('a \<Rightarrow> 'k) \<Rightarrow> 'a \<Rightarrow> 'a list \<Rightarrow> 'a list" where
  "remove_quiet key x xs = (case py_list_remove key x xs of None \<Rightarrow> xs | Some ys \<Rightarrow> ys)"

lemma py_contains_iff [xit_simps]: "py_contains key x xs \<longleftrightarrow> key x \<in> key ` set xs"
  by (auto simp: py_contains_def list_ex_iff image_iff) metis

lemma py_list_remove_None_iff: "py_list_remove key x xs = None \<longleftrightarrow> key x \<notin> key ` set xs"
  by (induction xs) (auto simp: image_iff)

lemma py_list_remove_Some_split:
  "py_list_remove key x xs = Some ys \<Longrightarrow>
     \<exists>as e bs. xs = as @ e # bs \<and> ys = as @ bs \<and> key e = key x \<and> key x \<notin> key ` set as"
proof (induction xs arbitrary: ys)
  case Nil
  then show ?case by simp
next
  case (Cons e es)
  show ?case
  proof (cases "key e = key x")
    case True
    with Cons.prems show ?thesis by (intro exI[of _ "[]"]) auto
  next
    case False
    with Cons.prems obtain ys' where ys': "py_list_remove key x es = Some ys'" and
      ys: "ys = e # ys'" by auto
    from Cons.IH[OF ys'] obtain as e' bs where
      "es = as @ e' # bs" "ys' = as @ bs" "key e' = key x" "key x \<notin> key ` set as"
      by blast
    with False ys show ?thesis by (intro exI[of _ "e # as"]) auto
  qed
qed

lemma distinct_key_remove_Some:
  assumes "distinct (map key xs)" and "py_list_remove key x xs = Some ys"
  shows "distinct (map key ys) \<and> key ` set ys = key ` set xs - {key x}"
proof -
  from py_list_remove_Some_split[OF assms(2)] obtain as e bs where
    split: "xs = as @ e # bs" "ys = as @ bs" "key e = key x" by blast
  from assms(1) split(1) have "key e \<notin> key ` set as" "key e \<notin> key ` set bs"
    by auto
  with assms(1) split show ?thesis by (auto simp: image_iff)
qed

lemma append_unique_keys [xit_simps]:
  "key ` set (append_unique key x xs) = insert (key x) (key ` set xs)"
  by (auto simp: append_unique_def py_contains_iff)

lemma append_unique_distinct:
  "distinct (map key xs) \<Longrightarrow> distinct (map key (append_unique key x xs))"
  by (auto simp: append_unique_def py_contains_iff)

lemma append_unique_idem:
  "append_unique key x (append_unique key x xs) = append_unique key x xs"
  by (auto simp: append_unique_def py_contains_iff)

lemma remove_quiet_absent:
  "key x \<notin> key ` set xs \<Longrightarrow> remove_quiet key x xs = xs"
  using py_list_remove_None_iff[of key x xs] by (simp add: remove_quiet_def)

lemma remove_quiet_distinct:
  assumes "distinct (map key xs)"
  shows "distinct (map key (remove_quiet key x xs)) \<and>
    key ` set (remove_quiet key x xs) = key ` set xs - {key x}"
proof (cases "py_list_remove key x xs")
  case None
  then show ?thesis
    using assms py_list_remove_None_iff[of key x xs] by (auto simp: remove_quiet_def)
next
  case (Some ys)
  then show ?thesis
    using assms distinct_key_remove_Some[of key xs x ys] by (simp add: remove_quiet_def)
qed

lemma py_list_remove_append_new:
  "key x \<notin> key ` set xs \<Longrightarrow> py_list_remove key x (xs @ [x]) = Some xs"
  by (induction xs) auto

lemma remove_quiet_append_unique:
  "key x \<notin> key ` set xs \<Longrightarrow> remove_quiet key x (append_unique key x xs) = xs"
  by (simp add: remove_quiet_def append_unique_def py_contains_iff py_list_remove_append_new)

text \<open>Python's \<^verbatim>\<open>sorted\<close> is stable, as \<open>sort_key\<close> is; on keys that are
  distinct it orders strictly.\<close>

lemma sort_key_strict:
  assumes "distinct (map k xs)"
  shows "sorted_wrt (<) (map k (sort_key k xs))"
proof -
  have "mset (map k (sort_key k xs)) = mset (map k xs)"
    by (simp add: mset_sort)
  then have "distinct (map k (sort_key k xs))"
    using assms mset_eq_imp_distinct_iff by blast
  then show ?thesis
    by (simp add: strict_sorted_iff sorted_sort_key)
qed

section \<open>Dictionaries\<close>

lemma lookup_empty_fun [xit_simps]: "Mapping.lookup Mapping.empty = Map.empty"
  by (rule ext) (simp add: lookup_empty)

lemma lookup_update_fun [xit_simps]:
  "Mapping.lookup (Mapping.update k v m) = (Mapping.lookup m)(k \<mapsto> v)"
  by (rule ext) (simp add: lookup_update')

text \<open>A Python dictionary has finitely many keys; the executable form of that
  statement for a mapping.\<close>

definition mapping_finite :: "('k::linorder, 'v) mapping \<Rightarrow> bool" where
  "mapping_finite m \<longleftrightarrow> Mapping.keys m = set (Mapping.ordered_keys m)"

lemma mapping_finite_iff [xit_simps]: "mapping_finite m \<longleftrightarrow> finite (Mapping.keys m)"
  by (metis List.finite_set mapping_finite_def set_ordered_keys)

text \<open>\<^verbatim>\<open>sorted(d.iteritems())\<close>: the pairs in ascending key order (keys are unique).\<close>

definition sorted_items :: "('k::linorder, 'v) mapping \<Rightarrow> ('k \<times> 'v) list" where
  "sorted_items m = map (\<lambda>k. (k, the (Mapping.lookup m k))) (Mapping.ordered_keys m)"

lemma map_fst_sorted_items [xit_simps]: "map fst (sorted_items m) = Mapping.ordered_keys m"
  by (simp add: sorted_items_def comp_def)

lemma sorted_items_mem [xit_simps]:
  "finite (Mapping.keys m) \<Longrightarrow> (k, v) \<in> set (sorted_items m) \<longleftrightarrow> Mapping.lookup m k = Some v"
  by (auto simp: sorted_items_def ordered_keys_def keys_dom_lookup)

lemma sorted_items_keys:
  "finite (Mapping.keys m) \<Longrightarrow> fst ` set (sorted_items m) = Mapping.keys m"
  by (metis map_fst_sorted_items set_map set_ordered_keys)

lemma sorted_items_strict:
  "sorted_wrt (<) (map fst (sorted_items m))"
  by (simp add: ordered_keys_def sorted_items_def comp_def strict_sorted_iff)

text \<open>Iterating a two-level dictionary in sorted order yields strictly ascending
  key pairs.\<close>

lemma sorted_wrt_concat_pairs:
  fixes xs :: "('k::linorder \<times> 'v) list" and f :: "'v \<Rightarrow> 'j::linorder list"
  assumes "sorted_wrt (<) (map fst xs)" and "\<And>k v. (k, v) \<in> set xs \<Longrightarrow> sorted_wrt (<) (f v)"
  shows "sorted_wrt (<) (concat (map (\<lambda>(k, v). map (Pair k) (f v)) xs))"
  using assms
proof (induction xs)
  case Nil
  then show ?case by simp
next
  case (Cons x xs)
  obtain k v where x: "x = (k, v)" by fastforce
  from Cons.prems(2)[of k v] x have "sorted_wrt (<) (f v)" by simp
  then have head: "sorted_wrt (<) (map (Pair k) (f v))"
    by (simp add: sorted_wrt_map less_prod_def)
  from Cons.prems(1) x have "\<forall>y\<in>set xs. k < fst y" by auto
  then have cross: "\<forall>p\<in>set (map (Pair k) (f v)).
      \<forall>q\<in>set (concat (map (\<lambda>(k, v). map (Pair k) (f v)) xs)). p < q"
    by (auto simp: less_prod_def)
  have "sorted_wrt (<) (concat (map (\<lambda>(k, v). map (Pair k) (f v)) xs))"
    using Cons.prems by (intro Cons.IH) auto
  with cross head x show ?case
    by (simp add: sorted_wrt_append)
qed

section \<open>Printing loops\<close>

text \<open>
  A \<^verbatim>\<open>for\<close> loop that prints one row per element stops at the first exception:
  the rows printed so far stay on standard output, and the exception ends the command.
\<close>

fun print_rows :: "('a \<Rightarrow> xit_error + 'r) \<Rightarrow> 'a list \<Rightarrow> 'r list \<times> xit_error option" where
  "print_rows f [] = ([], None)"
| "print_rows f (x # xs) =
     (case f x of
        Inl e \<Rightarrow> ([], Some e)
      | Inr r \<Rightarrow> (case print_rows f xs of (rs, err) \<Rightarrow> (r # rs, err)))"

text \<open>Code that raises is a computation in \<open>xit_error + 'a\<close>: \<open>err_bind\<close> runs the
  rest of the code only when the first part did not raise, and \<open>fold_err\<close> is a loop
  that stops at the first exception of its body.\<close>

definition err_bind :: "'e + 'a \<Rightarrow> ('a \<Rightarrow> 'e + 'b) \<Rightarrow> 'e + 'b" where
  "err_bind m f = (case m of Inl e \<Rightarrow> Inl e | Inr a \<Rightarrow> f a)"

fun fold_err :: "('a \<Rightarrow> 's \<Rightarrow> 'e + 's) \<Rightarrow> 'a list \<Rightarrow> 's \<Rightarrow> 'e + 's" where
  "fold_err f [] s = Inr s"
| "fold_err f (x # xs) s = err_bind (f x s) (fold_err f xs)"

lemma print_rows_all_ok:
  "(\<forall>x\<in>set xs. f x = Inr (g x)) \<Longrightarrow> print_rows f xs = (map g xs, None)"
  by (induction xs) auto

lemma print_rows_error_iff:
  "snd (print_rows f xs) = None \<longleftrightarrow> (\<forall>x\<in>set xs. \<exists>r. f x = Inr r)"
  by (induction xs) (auto split: sum.splits prod.splits)

lemma print_rows_first_error:
  "(\<forall>x\<in>set as. f x = Inr (g x)) \<Longrightarrow> f e = Inl err \<Longrightarrow>
     print_rows f (as @ e # bs) = (map g as, Some err)"
  by (induction as) auto

section \<open>Further list lemmas\<close>

lemma find_key_distinct:
  "distinct (map f xs) \<Longrightarrow> x \<in> set xs \<Longrightarrow> find (\<lambda>x'. f x' = f x) xs = Some x"
  by (induction xs) (auto simp: image_iff)

lemma find_key_absent:
  "k \<notin> f ` set xs \<Longrightarrow> find (\<lambda>x'. f x' = k) xs = None"
  by (auto simp: find_None_iff)

lemma map_filter_drop_None:
  "(\<forall>x\<in>set xs. \<not> P x \<longrightarrow> f x = None) \<Longrightarrow> List.map_filter f (filter P xs) = List.map_filter f xs"
  by (induction xs) (auto simp: map_filter_simps split: option.splits)

lemma map_filter_map_Some:
  "(\<forall>x\<in>set xs. f (h x) \<noteq> None) \<Longrightarrow> List.map_filter f (map h xs) = map (\<lambda>x. the (f (h x))) xs"
  by (induction xs) (auto simp: map_filter_simps split: option.splits)

lemma print_rows_map_cong:
  "(\<forall>x\<in>set xs. f (h x) = g x) \<Longrightarrow> print_rows f (map h xs) = print_rows g xs"
  by (induction xs) (auto split: sum.splits)

lemma print_rows_single_error:
  "(\<forall>x\<in>set xs. \<forall>e. f x = Inl e \<longrightarrow> e = E) \<Longrightarrow>
     snd (print_rows f xs) = (if \<forall>x\<in>set xs. \<exists>r. f x = Inr r then None else Some E)"
  by (induction xs) (auto split: sum.splits prod.splits, metis sum.exhaust)

lemma find_append:
  "find P (xs @ ys) = (case find P xs of None \<Rightarrow> find P ys | Some x \<Rightarrow> Some x)"
  by (induction xs) auto

lemma update_lookup_same: "Mapping.lookup m k = Some v \<Longrightarrow> Mapping.update k v m = m"
  by (rule mapping_eqI) (auto simp: lookup_update')


lemma err_bind_simps [simp]:
  "err_bind (Inl e) f = Inl e" "err_bind (Inr a) f = f a"
  by (simp_all add: err_bind_def)

lemma err_bind_Inr_iff: "err_bind m f = Inr b \<longleftrightarrow> (\<exists>a. m = Inr a \<and> f a = Inr b)"
  by (cases m) simp_all

lemma fold_err_all_ok:
  "(\<And>x s. x \<in> set xs \<Longrightarrow> f x s = Inr (g x s)) \<Longrightarrow> fold_err f xs s = Inr (fold g xs s)"
  by (induction xs arbitrary: s) simp_all

lemma fold_err_append:
  "fold_err f (xs @ ys) s = err_bind (fold_err f xs s) (fold_err f ys)"
  by (induction xs arbitrary: s) (simp_all add: err_bind_def split: sum.splits)

lemma fold_append_unique_distinct:
  "distinct (map key (acc @ xs)) \<Longrightarrow> fold (append_unique key) xs acc = acc @ xs"
  by (induction xs arbitrary: acc) (auto simp: append_unique_def py_contains_iff)


lemma find_unique:
  "x \<in> set xs \<Longrightarrow> P x \<Longrightarrow> (\<forall>y\<in>set xs. P y \<longrightarrow> y = x) \<Longrightarrow> find P xs = Some x"
proof (induction xs)
  case (Cons a xs)
  show ?case
  proof (cases "P a")
    case True
    with Cons.prems(3) have "a = x" by (meson list.set_intros(1))
    with True show ?thesis by simp
  next
    case False
    with Cons.prems(1,2) have x: "x \<in> set xs" by auto
    have "\<forall>y\<in>set xs. P y \<longrightarrow> y = x"
      using Cons.prems(3) by (meson list.set_intros(2))
    with False Cons.IH[OF x Cons.prems(2)] show ?thesis by simp
  qed
qed simp

lemma find_map: "find P (map f xs) = map_option f (find (P \<circ> f) xs)"
  by (induction xs) auto

lemma find_rev_distinct:
  assumes "distinct (map k xs)"
  shows "find (\<lambda>x. k x = a) (rev xs) = find (\<lambda>x. k x = a) xs"
proof (cases "\<exists>x\<in>set xs. k x = a")
  case True
  then obtain x where x: "x \<in> set xs" "k x = a" by blast
  have inj: "inj_on k (set xs)"
    using assms by (simp add: distinct_map)
  have u: "\<forall>y\<in>set xs. k y = a \<longrightarrow> y = x"
  proof (intro ballI impI)
    fix y assume "y \<in> set xs" "k y = a"
    with x show "y = x" by (intro inj_onD[OF inj]) simp_all
  qed
  have "find (\<lambda>x. k x = a) xs = Some x"
    using x(1) x(2) u by (rule find_unique)
  moreover have "find (\<lambda>x. k x = a) (rev xs) = Some x"
  proof (rule find_unique)
    show "x \<in> set (rev xs)" using x(1) by (simp only: set_rev)
    show "k x = a" by (rule x(2))
    show "\<forall>y\<in>set (rev xs). k y = a \<longrightarrow> y = x" using u by (simp only: set_rev)
  qed
  ultimately show ?thesis by simp
next
  case False
  then have "find (\<lambda>x. k x = a) xs = None" "find (\<lambda>x. k x = a) (rev xs) = None"
    by (auto simp: find_None_iff)
  then show ?thesis by simp
qed

lemma lookup_fold_update:
  "Mapping.lookup (fold (\<lambda>(k, v). Mapping.update k v) ps m) k =
     (case map_of (rev ps) k of Some v \<Rightarrow> Some v | None \<Rightarrow> Mapping.lookup m k)"
  by (induction ps arbitrary: m) (auto simp: lookup_update' map_add_def split: option.splits)


lemma map_of_map_keys: "map_of (map (\<lambda>k. (k, f k)) ks) x = (if x \<in> set ks then Some (f x) else None)"
  by (induction ks) auto

lemma mem_ordered_keys: "k \<in> set (Mapping.ordered_keys m) \<Longrightarrow> k \<in> Mapping.keys m"
  by (cases "finite (Mapping.keys m)")
    (simp_all add: set_ordered_keys ordered_keys_def sorted_list_of_set.fold_insort_key.infinite)

lemma map_of_sorted_items:
  "map_of (sorted_items m) k = (if k \<in> set (Mapping.ordered_keys m) then Mapping.lookup m k else None)"
proof -
  have "k \<in> set (Mapping.ordered_keys m) \<Longrightarrow> Some (the (Mapping.lookup m k)) = Mapping.lookup m k"
    by (auto dest!: mem_ordered_keys simp: keys_dom_lookup)
  then show ?thesis
    by (simp add: sorted_items_def map_of_map_keys)
qed

lemma map_of_rev_distinct: "distinct (map fst xs) \<Longrightarrow> map_of (rev xs) = map_of xs"
  by (induction xs) (auto simp: map_of_append fun_eq_iff map_add_def image_iff split: option.splits
      dest: map_of_SomeD)

lemma distinct_sorted_items: "distinct (map fst (sorted_items m))"
  using sorted_items_strict[of m] by (simp add: strict_sorted_iff)

lemma fold_err_map: "fold_err f (map h xs) s = fold_err (\<lambda>x. f (h x)) xs s"
  by (induction xs arbitrary: s) (simp_all add: err_bind_def split: sum.splits)

lemma fold_err_preserves:
  "fold_err f xs s = Inr s' \<Longrightarrow> P s \<Longrightarrow> (\<And>x s1 s2. f x s1 = Inr s2 \<Longrightarrow> P s1 \<Longrightarrow> P s2) \<Longrightarrow> P s'"
  by (induction xs arbitrary: s) (auto simp: err_bind_Inr_iff)

lemma fold_err_isl:
  "x \<in> set xs \<Longrightarrow> (\<And>s. isl (f x s)) \<Longrightarrow> isl (fold_err f xs s)"
proof (induction xs arbitrary: s)
  case Nil then show ?case by simp
next
  case (Cons y ys)
  show ?case
  proof (cases "f y s")
    case (Inl e) then show ?thesis by simp
  next
    case (Inr s1)
    have "x = y \<or> x \<in> set ys" using Cons.prems(1) by simp
    then show ?thesis
    proof
      assume "x = y" then show ?thesis using Cons.prems(2)[of s] Inr by simp
    next
      assume "x \<in> set ys" then show ?thesis using Cons.IH[OF _ Cons.prems(2)] Inr by simp
    qed
  qed
qed

lemma isl_err_bind: "isl m \<Longrightarrow> isl (err_bind m f)"
  by (cases m) simp_all

lemma isl_err_bind_all: "(\<And>a. isl (f a)) \<Longrightarrow> isl (err_bind m f)"
  by (cases m) simp_all


lemma set_append_unique: "set (append_unique key x xs) \<subseteq> insert x (set xs)"
  by (auto simp: append_unique_def)

lemma set_py_list_remove: "py_list_remove key x xs = Some ys \<Longrightarrow> set ys \<subseteq> set xs"
  by (induction xs arbitrary: ys) (auto split: if_splits)

lemma set_remove_quiet: "set (remove_quiet key x xs) \<subseteq> set xs"
  by (auto simp: remove_quiet_def dest: set_py_list_remove split: option.splits)

end
