(* ===== verification/Annotations.thy ===== *)
theory Annotations
  imports Xit_Prelude
begin

text \<open>
  The annotations a registry test case carries (\<^verbatim>\<open>src/registry/xit.py\<close>,
  classes \<^verbatim>\<open>XITBug\<close>, \<^verbatim>\<open>XITFix\<close> with \<^verbatim>\<open>XITFixGit\<close> and
  \<^verbatim>\<open>XITFixRPM\<close>, \<^verbatim>\<open>XITInfo\<close> with \<^verbatim>\<open>XITInfoText\<close> and
  \<^verbatim>\<open>XITInfoURL\<close>). Each class's \<^verbatim>\<open>__eq__\<close>/\<^verbatim>\<open>__cmp__\<close> compares a
  key of its fields; the key functions below are those comparisons, and the factories
  \<^verbatim>\<open>createFromType\<close> return \<open>Inl ValueError\<close> on an unknown type tag.
  A fix's extra XML attributes (\<^verbatim>\<open>extra_args\<close>, a dict) are carried but take no
  part in its equality.
\<close>

section \<open>Bugs\<close>

record xit_bug =
  bug_type :: string
  bug_url :: string

definition bug_default_type :: string where
  "bug_default_type = ''bugzilla''"

definition XITBug :: "string \<Rightarrow> string \<Rightarrow> xit_bug" where
  "XITBug t u = \<lparr>bug_type = t, bug_url = u\<rparr>"

text \<open>\<^verbatim>\<open>XITBug.__eq__\<close> and \<^verbatim>\<open>__cmp__\<close>: \<^verbatim>\<open>type\<close>, then \<^verbatim>\<open>url\<close>.\<close>

definition bug_key :: "xit_bug \<Rightarrow> string \<times> string" where
  "bug_key b = (bug_type b, bug_url b)"

definition bug_str :: "xit_bug \<Rightarrow> string" where
  "bug_str b = bug_url b"

section \<open>Fixes\<close>

type_synonym extra_args = "(string, string) mapping"

datatype xit_fix =
    XITFixGit string extra_args
  | XITFixRPM string extra_args

primrec fix_type :: "xit_fix \<Rightarrow> string" where
  "fix_type (XITFixGit _ _) = ''git''"
| "fix_type (XITFixRPM _ _) = ''rpm''"

primrec fix_text :: "xit_fix \<Rightarrow> string" where
  "fix_text (XITFixGit t _) = t"
| "fix_text (XITFixRPM t _) = t"

primrec fix_extra_args :: "xit_fix \<Rightarrow> extra_args" where
  "fix_extra_args (XITFixGit _ a) = a"
| "fix_extra_args (XITFixRPM _ a) = a"

text \<open>\<^verbatim>\<open>XITFix.__eq__\<close> and \<^verbatim>\<open>__cmp__\<close>: \<^verbatim>\<open>type\<close>, then \<^verbatim>\<open>text\<close>.\<close>

definition fix_key :: "xit_fix \<Rightarrow> string \<times> string" where
  "fix_key f = (fix_type f, fix_text f)"

definition fix_createFromType :: "string \<Rightarrow> string \<Rightarrow> extra_args \<Rightarrow> xit_error + xit_fix" where
  "fix_createFromType t text ea =
     (if t = ''git'' then Inr (XITFixGit text ea)
      else if t = ''rpm'' then Inr (XITFixRPM text ea)
      else Inl ValueError)"

text \<open>
  \<^verbatim>\<open>__str__\<close>: \<^verbatim>\<open>XITFixGit\<close> returns its \<^verbatim>\<open>sha1\<close> property;
  \<^verbatim>\<open>XITFixRPM.__str__\<close> also reads \<^verbatim>\<open>self.sha1\<close>, which that class does not
  have, and raises \<^verbatim>\<open>AttributeError\<close>.
\<close>

primrec fix_str :: "xit_fix \<Rightarrow> xit_error + string" where
  "fix_str (XITFixGit t _) = Inr t"
| "fix_str (XITFixRPM _ _) = Inl AttributeError"

section \<open>Information notes\<close>

datatype xit_info =
    XITInfoText string
  | XITInfoURL string

primrec info_type :: "xit_info \<Rightarrow> string" where
  "info_type (XITInfoText _) = ''text''"
| "info_type (XITInfoURL _) = ''url''"

primrec info_text :: "xit_info \<Rightarrow> string" where
  "info_text (XITInfoText t) = t"
| "info_text (XITInfoURL u) = u"

text \<open>\<^verbatim>\<open>XITInfo.__cmp__\<close> (also its \<^verbatim>\<open>==\<close>): \<^verbatim>\<open>type\<close>, then \<^verbatim>\<open>text\<close>.\<close>

definition info_key :: "xit_info \<Rightarrow> string \<times> string" where
  "info_key i = (info_type i, info_text i)"

definition info_createFromType :: "string \<Rightarrow> string \<Rightarrow> xit_error + xit_info" where
  "info_createFromType t text =
     (if t = ''text'' then Inr (XITInfoText text)
      else if t = ''url'' then Inr (XITInfoURL text)
      else Inl ValueError)"

definition info_str :: "xit_info \<Rightarrow> string" where
  "info_str i = info_text i"

section \<open>Lemmas\<close>

lemma bug_key_inj [xit_simps]: "bug_key a = bug_key b \<longleftrightarrow> a = b"
  by (cases a, cases b) (auto simp: bug_key_def)

lemma info_key_inj [xit_simps]: "info_key a = info_key b \<longleftrightarrow> a = b"
  by (cases a; cases b) (auto simp: info_key_def)

lemma fix_key_simps [xit_simps]:
  "fix_key (XITFixGit t a) = (''git'', t)"
  "fix_key (XITFixRPM t a) = (''rpm'', t)"
  by (simp_all add: fix_key_def)

lemma fix_createFromType_Inr:
  "fix_createFromType t text ea = Inr f \<longleftrightarrow>
     (t = ''git'' \<or> t = ''rpm'') \<and> fix_type f = t \<and> fix_text f = text \<and> fix_extra_args f = ea"
  by (cases f) (auto simp: fix_createFromType_def)

lemma info_createFromType_Inr:
  "info_createFromType t text = Inr i \<longleftrightarrow>
     (t = ''text'' \<or> t = ''url'') \<and> info_type i = t \<and> info_text i = text"
  by (cases i) (auto simp: info_createFromType_def)

end
