(* ===== verification/TestCase.thy ===== *)
theory TestCase
  imports Annotations
begin

text \<open>
  Test cases (\<^verbatim>\<open>src/registry/xit.py\<close>): the common parent
  \<^verbatim>\<open>XITTestCase\<close> (suite, name, status) as the record \<open>xit_test_case\<close>;
  the registry's \<^verbatim>\<open>XITTest\<close> and the run's \<^verbatim>\<open>JUnitTestResult\<close> as its
  extensions, so that the code shared by both (ordering, \<^verbatim>\<open>verify_one_result\<close>)
  is stated once over \<open>'a xit_test_case_scheme\<close>. The annotation lists of an
  \<^verbatim>\<open>XITTest\<close> are kept in insertion order, as the Python lists are; the
  getters sort them.
\<close>

section \<open>\<^verbatim>\<open>str2bool\<close> and \<^verbatim>\<open>XITTestCase\<close>\<close>

text \<open>The argument of \<^verbatim>\<open>str2bool\<close> is a Python \<^verbatim>\<open>bool\<close> or \<^verbatim>\<open>str\<close>.\<close>

datatype status_arg = StatusBool bool | StatusStr string

fun str2bool :: "status_arg \<Rightarrow> xit_error + bool" where
  "str2bool (StatusBool b) = Inr b"
| "str2bool (StatusStr v) =
     (if v \<in> set [''True'', ''true'', ''1''] then Inr True
      else if v \<in> set [''False'', ''false'', ''0''] then Inr False
      else Inl ValueError)"

text \<open>\<^verbatim>\<open>str(b).lower()\<close> for a Python \<^verbatim>\<open>bool\<close>.\<close>

definition bool_lower :: "bool \<Rightarrow> string" where
  "bool_lower b = (if b then ''true'' else ''false'')"

record xit_test_case =
  suite :: string
  name :: string
  status :: bool

text \<open>\<^verbatim>\<open>XITTestCase.__cmp__\<close>: \<^verbatim>\<open>None\<close> is smaller than every test case;
  otherwise suite, then name.\<close>

definition tc_cmp :: "'a xit_test_case_scheme \<Rightarrow> 'b xit_test_case_scheme option \<Rightarrow> int" where
  "tc_cmp a ob =
     (case ob of
        None \<Rightarrow> 1
      | Some b \<Rightarrow> (let rc = py_cmp (suite a) (suite b) in
                   if rc = 0 then py_cmp (name a) (name b) else rc))"

definition tc_key :: "'a xit_test_case_scheme \<Rightarrow> string \<times> string" where
  "tc_key t = (suite t, name t)"

section \<open>\<^verbatim>\<open>XITTest\<close>\<close>

record xit_test = xit_test_case +
  test_bugs :: "xit_bug list"
  test_info :: "xit_info list"
  test_fixes :: "xit_fix list"

definition XITTest :: "string \<Rightarrow> string \<Rightarrow> status_arg \<Rightarrow> xit_error + xit_test" where
  "XITTest s n success =
     (case str2bool success of
        Inl e \<Rightarrow> Inl e
      | Inr b \<Rightarrow> Inr \<lparr>suite = s, name = n, status = b, test_bugs = [], test_info = [], test_fixes = []\<rparr>)"

definition addBug :: "xit_bug \<Rightarrow> xit_test \<Rightarrow> xit_test" where
  "addBug b t = t\<lparr>test_bugs := append_unique bug_key b (test_bugs t)\<rparr>"

definition removeBug :: "xit_bug \<Rightarrow> xit_test \<Rightarrow> xit_test" where
  "removeBug b t = t\<lparr>test_bugs := remove_quiet bug_key b (test_bugs t)\<rparr>"

definition addInfo :: "xit_info \<Rightarrow> xit_test \<Rightarrow> xit_test" where
  "addInfo i t = t\<lparr>test_info := append_unique info_key i (test_info t)\<rparr>"

definition removeInfo :: "xit_info \<Rightarrow> xit_test \<Rightarrow> xit_test" where
  "removeInfo i t = t\<lparr>test_info := remove_quiet info_key i (test_info t)\<rparr>"

definition addFix :: "xit_fix \<Rightarrow> xit_test \<Rightarrow> xit_test" where
  "addFix f t = t\<lparr>test_fixes := append_unique fix_key f (test_fixes t)\<rparr>"

definition removeFix :: "xit_fix \<Rightarrow> xit_test \<Rightarrow> xit_test" where
  "removeFix f t = t\<lparr>test_fixes := remove_quiet fix_key f (test_fixes t)\<rparr>"

definition getBugs :: "xit_test \<Rightarrow> xit_bug list" where
  "getBugs t = sort_key bug_key (test_bugs t)"

definition getInfo :: "xit_test \<Rightarrow> xit_info list" where
  "getInfo t = sort_key info_key (test_info t)"

definition getFixes :: "xit_test \<Rightarrow> xit_fix list" where
  "getFixes t = sort_key fix_key (test_fixes t)"

subsection \<open>\<^verbatim>\<open>XITTest.__str__\<close>\<close>

fun show_nat :: "nat \<Rightarrow> string" where
  "show_nat n =
     (if n < 10 then [char_of (48 + n)] else show_nat (n div 10) @ [char_of (48 + n mod 10)])"

definition nl :: string where
  "nl = [CHR 0x0A]"

text \<open>The numbered lines \<^verbatim>\<open>str(i) + ": " + str(x) + "\n"\<close>; \<open>f\<close> is the
  element's \<^verbatim>\<open>__str__\<close>, which may raise.\<close>

fun render_indexed :: "('a \<Rightarrow> xit_error + string) \<Rightarrow> nat \<Rightarrow> 'a list \<Rightarrow> xit_error + string" where
  "render_indexed f i [] = Inr []"
| "render_indexed f i (x # xs) =
     (case f x of
        Inl e \<Rightarrow> Inl e
      | Inr s \<Rightarrow> (case render_indexed f (Suc i) xs of
                   Inl e \<Rightarrow> Inl e
                 | Inr r \<Rightarrow> Inr (show_nat i @ '': '' @ s @ nl @ r)))"

definition render_section :: "string \<Rightarrow> ('a \<Rightarrow> xit_error + string) \<Rightarrow> 'a list \<Rightarrow> xit_error + string" where
  "render_section title f xs =
     (if xs = [] then Inr []
      else (case render_indexed f 0 xs of Inl e \<Rightarrow> Inl e | Inr r \<Rightarrow> Inr (title @ nl @ r)))"

definition test_str :: "xit_test \<Rightarrow> xit_error + string" where
  "test_str t =
     (let head = suite t @ '' '' @ name t @ '':'' @ [CHR 0x09] @ ''Expected result: '' @
                 (if status t then ''Success'' else ''Failure'') @ nl
      in case render_section ''Extra info:'' (\<lambda>i. Inr (info_str i)) (test_info t) of
           Inl e \<Rightarrow> Inl e
         | Inr s1 \<Rightarrow> (case render_section ''Known bugs: '' (\<lambda>b. Inr (bug_str b)) (test_bugs t) of
             Inl e \<Rightarrow> Inl e
           | Inr s2 \<Rightarrow> (case render_section ''Known fixes: '' fix_str (test_fixes t) of
               Inl e \<Rightarrow> Inl e
             | Inr s3 \<Rightarrow> Inr (head @ s1 @ s2 @ s3))))"

subsection \<open>Well-formedness\<close>

text \<open>No annotation list holds two elements the code considers equal: what
  \<^verbatim>\<open>addBug\<close>, \<^verbatim>\<open>addInfo\<close> and \<^verbatim>\<open>addFix\<close> are written to keep.\<close>

definition test_wf :: "xit_test \<Rightarrow> bool" where
  "test_wf t \<longleftrightarrow>
     distinct (map bug_key (test_bugs t)) \<and> distinct (map info_key (test_info t)) \<and>
     distinct (map fix_key (test_fixes t))"

section \<open>\<^verbatim>\<open>JUnitTestResult\<close>\<close>

text \<open>A \<^verbatim>\<open>JUnitTestFailure\<close> is represented by its message.\<close>

record junit_result = xit_test_case +
  failures :: "string list"

definition JUnitTestResult :: "string \<Rightarrow> string \<Rightarrow> junit_result" where
  "JUnitTestResult s n = \<lparr>suite = s, name = n, status = True, failures = []\<rparr>"

definition addFailure :: "string \<Rightarrow> junit_result \<Rightarrow> junit_result" where
  "addFailure msg r = r\<lparr>failures := failures r @ [msg], status := False\<rparr>"

text \<open>One \<^verbatim>\<open>testcase\<close> element of a JUnit file: the result is created, then
  each \<^verbatim>\<open>failure\<close> child is added in document order.\<close>

definition junit_case :: "string \<Rightarrow> string \<Rightarrow> string list \<Rightarrow> junit_result" where
  "junit_case s n msgs = fold addFailure msgs (JUnitTestResult s n)"

section \<open>Properties\<close>

subsection \<open>Annotation lists\<close>

text \<open>C33: adding an annotation a second time changes nothing (de-duplication by
  the class's equality), for bugs, information notes and fixes alike.\<close>

theorem annotation_add_idem:
  "addBug b (addBug b t) = addBug b t \<and> addInfo i (addInfo i t) = addInfo i t \<and>
   addFix f (addFix f t) = addFix f t"
  by (simp add: addBug_def addInfo_def addFix_def append_unique_idem)

lemma test_wf_addBug: "test_wf t \<Longrightarrow> test_wf (addBug b t)"
  by (simp add: test_wf_def addBug_def append_unique_distinct)

lemma test_wf_removeBug: "test_wf t \<Longrightarrow> test_wf (removeBug b t)"
  by (simp add: test_wf_def removeBug_def remove_quiet_distinct)

lemma test_wf_addInfo: "test_wf t \<Longrightarrow> test_wf (addInfo i t)"
  by (simp add: test_wf_def addInfo_def append_unique_distinct)

lemma test_wf_removeInfo: "test_wf t \<Longrightarrow> test_wf (removeInfo i t)"
  by (simp add: test_wf_def removeInfo_def remove_quiet_distinct)

lemma test_wf_addFix: "test_wf t \<Longrightarrow> test_wf (addFix f t)"
  by (simp add: test_wf_def addFix_def append_unique_distinct)

lemma test_wf_removeFix: "test_wf t \<Longrightarrow> test_wf (removeFix f t)"
  by (simp add: test_wf_def removeFix_def remove_quiet_distinct)

lemma test_wf_status: "test_wf (t\<lparr>status := b\<rparr>) \<longleftrightarrow> test_wf t"
  by (simp add: test_wf_def)

lemmas test_wf_ops = test_wf_addBug test_wf_removeBug test_wf_addInfo test_wf_removeInfo
  test_wf_addFix test_wf_removeFix test_wf_status

text \<open>C32: every add and remove operation on a test case keeps its annotation lists
  free of duplicates.\<close>

theorem test_wf_annotation_ops:
  assumes "test_wf t"
  shows "test_wf (addBug b t) \<and> test_wf (removeBug b t) \<and> test_wf (addInfo i t) \<and>
    test_wf (removeInfo i t) \<and> test_wf (addFix f t) \<and> test_wf (removeFix f t)"
  using assms by (simp add: test_wf_ops)

theorem test_wf_annotation_ops_witness:
  "test_wf \<lparr>suite = ''S'', name = ''a'', status = True, test_bugs = [], test_info = [], test_fixes = []\<rparr> \<and>
   test_wf (addBug (XITBug ''bugzilla'' ''http://bugs/1'')
     \<lparr>suite = ''S'', name = ''a'', status = True, test_bugs = [], test_info = [], test_fixes = []\<rparr>)"
  using test_wf_annotation_ops[of "\<lparr>suite = ''S'', name = ''a'', status = True, test_bugs = [],
      test_info = [], test_fixes = []\<rparr>" "XITBug ''bugzilla'' ''http://bugs/1''"]
  by (simp add: test_wf_def)

text \<open>C34: removing an annotation that was just added (and was not there before)
  gives back the test case unchanged.\<close>

theorem annotation_remove_add:
  assumes "bug_key b \<notin> bug_key ` set (test_bugs t)"
    and "info_key i \<notin> info_key ` set (test_info t)"
    and "fix_key f \<notin> fix_key ` set (test_fixes t)"
  shows "removeBug b (addBug b t) = t \<and> removeInfo i (addInfo i t) = t \<and>
    removeFix f (addFix f t) = t"
  using assms
  by (simp add: addBug_def removeBug_def addInfo_def removeInfo_def addFix_def removeFix_def
      remove_quiet_append_unique)

theorem annotation_remove_add_witness:
  "removeBug (XITBug ''bugzilla'' ''http://bugs/1'') (addBug (XITBug ''bugzilla'' ''http://bugs/1'')
     \<lparr>suite = ''S'', name = ''a'', status = True, test_bugs = [], test_info = [], test_fixes = []\<rparr>) =
   \<lparr>suite = ''S'', name = ''a'', status = True, test_bugs = [], test_info = [], test_fixes = []\<rparr>"
  using annotation_remove_add[of "XITBug ''bugzilla'' ''http://bugs/1''"
      "\<lparr>suite = ''S'', name = ''a'', status = True, test_bugs = [], test_info = [], test_fixes = []\<rparr>"
      "XITInfoText ''x''" "XITFixGit ''abc'' Mapping.empty"]
  by simp

text \<open>C36: a fix's equality ignores its extra attributes, so recording the same
  commit again with another repository keeps the first record.\<close>

theorem addFix_same_commit_other_repo:
  "addFix (XITFixGit sha r2) (addFix (XITFixGit sha r1) t) = addFix (XITFixGit sha r1) t"
  by (simp add: addFix_def append_unique_def py_contains_iff xit_simps)

text \<open>C35: the getters return each annotation list as a permutation of the stored
  one, strictly ascending by the class's comparison.\<close>

theorem getters_sorted:
  assumes "test_wf t"
  shows "sorted_wrt (<) (map bug_key (getBugs t)) \<and> mset (getBugs t) = mset (test_bugs t) \<and>
    sorted_wrt (<) (map info_key (getInfo t)) \<and> mset (getInfo t) = mset (test_info t) \<and>
    sorted_wrt (<) (map fix_key (getFixes t)) \<and> mset (getFixes t) = mset (test_fixes t)"
  using assms
  by (simp add: test_wf_def getBugs_def getInfo_def getFixes_def sort_key_strict mset_sort)

theorem getters_sorted_witness:
  "test_wf \<lparr>suite = ''S'', name = ''a'', status = True,
      test_bugs = [XITBug ''bugzilla'' ''http://bugs/2'', XITBug ''bugzilla'' ''http://bugs/1''],
      test_info = [], test_fixes = []\<rparr> \<and>
   getBugs \<lparr>suite = ''S'', name = ''a'', status = True,
      test_bugs = [XITBug ''bugzilla'' ''http://bugs/2'', XITBug ''bugzilla'' ''http://bugs/1''],
      test_info = [], test_fixes = []\<rparr> =
     [XITBug ''bugzilla'' ''http://bugs/1'', XITBug ''bugzilla'' ''http://bugs/2'']"
proof -
  have h: "test_wf \<lparr>suite = ''S'', name = ''a'', status = True,
      test_bugs = [XITBug ''bugzilla'' ''http://bugs/2'', XITBug ''bugzilla'' ''http://bugs/1''],
      test_info = [], test_fixes = []\<rparr>"
    by (simp add: test_wf_def bug_key_def XITBug_def)
  have "sorted_wrt (<) (map bug_key (getBugs \<lparr>suite = ''S'', name = ''a'', status = True,
      test_bugs = [XITBug ''bugzilla'' ''http://bugs/2'', XITBug ''bugzilla'' ''http://bugs/1''],
      test_info = [], test_fixes = []\<rparr>))"
    using getters_sorted[OF h] by simp
  with h show ?thesis
    by (simp add: getBugs_def bug_key_def XITBug_def)
qed

subsection \<open>Printing a test case\<close>

lemma render_indexed_fix_str:
  "render_indexed fix_str i fs = Inl e \<longleftrightarrow> e = AttributeError \<and> (\<exists>f\<in>set fs. fix_type f = ''rpm'')"
proof (induction fix_str i fs rule: render_indexed.induct)
  case (2 i x xs)
  then show ?case by (cases x) (auto split: sum.splits)
qed simp

lemma render_indexed_fix_str_Inr:
  "render_indexed fix_str i fs = Inr r \<Longrightarrow> f \<in> set fs \<Longrightarrow> fix_type f \<noteq> ''rpm''"
  using render_indexed_fix_str[of i fs AttributeError] by auto

lemma render_indexed_pure:
  "render_indexed (\<lambda>x. Inr (g x)) i xs \<noteq> Inl e"
  by (induction "\<lambda>x. Inr (g x) :: xit_error + string" i xs rule: render_indexed.induct)
    (auto split: sum.splits)

text \<open>C37: printing a test case (\<^verbatim>\<open>XITTest.__str__\<close>, used by the
  \<^verbatim>\<open>info\<close> command) fails, with \<^verbatim>\<open>AttributeError\<close>, exactly when the test
  carries an rpm fix.\<close>

theorem test_str_error_iff:
  "test_str t = Inl e \<longleftrightarrow> e = AttributeError \<and> (\<exists>f\<in>set (test_fixes t). fix_type f = ''rpm'')"
  by (auto simp: test_str_def Let_def render_section_def render_indexed_fix_str render_indexed_pure
      dest: render_indexed_fix_str_Inr split: sum.splits if_splits)

theorem test_str_error_iff_witness:
  "XITFixRPM ''xorg-x11-server-1.23-4.fc18.rpm'' Mapping.empty \<in>
     set [XITFixRPM ''xorg-x11-server-1.23-4.fc18.rpm'' Mapping.empty] \<and>
   test_str \<lparr>suite = ''S'', name = ''a'', status = True, test_bugs = [], test_info = [],
      test_fixes = [XITFixRPM ''xorg-x11-server-1.23-4.fc18.rpm'' Mapping.empty]\<rparr> = Inl AttributeError"
  using test_str_error_iff[of "\<lparr>suite = ''S'', name = ''a'', status = True, test_bugs = [], test_info = [],
      test_fixes = [XITFixRPM ''xorg-x11-server-1.23-4.fc18.rpm'' Mapping.empty]\<rparr>" AttributeError]
  by simp

subsection \<open>Statuses and results\<close>

text \<open>the status text the registry writes (\<^verbatim>\<open>str(status).lower()\<close>)
  is read back by \<^verbatim>\<open>str2bool\<close> as the same status.\<close>

theorem str2bool_bool_lower: "str2bool (StatusStr (bool_lower b)) = Inr b"
  by (simp add: bool_lower_def)

text \<open>C38: a JUnit result is a success exactly when its test case has no
  \<^verbatim>\<open>failure\<close> element, and it keeps every failure message in order.\<close>

theorem junit_case_status:
  "(status (junit_case s n msgs) \<longleftrightarrow> msgs = []) \<and> failures (junit_case s n msgs) = msgs"
proof -
  have "\<And>r. status (fold addFailure msgs r) = (status r \<and> msgs = [])"
    by (induction msgs) (auto simp: addFailure_def)
  moreover have "\<And>r. failures (fold addFailure msgs r) = failures r @ msgs"
    by (induction msgs) (auto simp: addFailure_def)
  ultimately show ?thesis
    by (simp add: junit_case_def JUnitTestResult_def)
qed

text \<open>\<^verbatim>\<open>XITTestCase.__cmp__\<close> against a test case is the
  lexicographic comparison of (suite, name).\<close>

theorem tc_cmp_key: "tc_cmp a (Some b) = py_cmp (tc_key a) (tc_key b)"
  by (auto simp: tc_cmp_def tc_key_def py_cmp_def Let_def less_prod_def)

end
