(* ===== verification/Registry.thy ===== *)
theory Registry
  imports TestCase
begin

text \<open>
  The registry (\<^verbatim>\<open>src/registry/xit.py\<close>, classes \<^verbatim>\<open>XITTestRegistry\<close> and
  \<^verbatim>\<open>XITModuleVersion\<close>). The Python object holds a name, a date, a list of module
  versions and a two-level dictionary \<^verbatim>\<open>tests[suite][name]\<close>; here the dictionaries
  are mappings, the date is the \<open>(year, month, day)\<close> that the registry file stores, and
  every method that mutates the object returns the updated record.
  The invariant \<open>reg_wf\<close> says what \<^verbatim>\<open>addTest\<close> keeps: finitely many keys,
  each test stored under its own suite and name, and annotation lists without duplicates.
\<close>

section \<open>Module versions\<close>

record xit_module_version =
  mv_module :: string
  mv_version :: string
  mv_type :: string

definition XITModuleVersion :: "string \<Rightarrow> string \<Rightarrow> string \<Rightarrow> xit_module_version" where
  "XITModuleVersion m v t = \<lparr>mv_module = m, mv_version = v, mv_type = t\<rparr>"

text \<open>\<^verbatim>\<open>XITModuleVersion.__cmp__\<close>: module, then type, then version.\<close>

definition mv_cmp :: "xit_module_version \<Rightarrow> xit_module_version \<Rightarrow> int" where
  "mv_cmp a b =
     (let rc = py_cmp (mv_module a) (mv_module b) in
      if rc = 0 then
        (let rc = py_cmp (mv_type a) (mv_type b) in
         if rc = 0 then py_cmp (mv_version a) (mv_version b) else rc)
      else rc)"

definition mv_key :: "xit_module_version \<Rightarrow> string \<times> string \<times> string" where
  "mv_key m = (mv_module m, mv_type m, mv_version m)"

text \<open>
  \<^verbatim>\<open>compareSystemVersion\<close> starts \<^verbatim>\<open>rpm -q\<close> and tests
  \<^verbatim>\<open>p.returncode != 0\<close> without waiting for the process: \<^verbatim>\<open>returncode\<close> is
  still \<^verbatim>\<open>None\<close>, so the test succeeds and the method raises
  \<^verbatim>\<open>CalledProcessError\<close> whatever the package manager would answer.
\<close>

definition compareSystemVersion :: "xit_module_version \<Rightarrow> xit_error + (bool \<times> string)" where
  "compareSystemVersion m =
     (if mv_type m \<noteq> ''rpm'' then Inl NotImplementedError else Inl CalledProcessError)"

text \<open>
  \<^verbatim>\<open>getSystemVersion\<close> waits for \<^verbatim>\<open>rpm -q module\<close>; the package manager is
  the parameter \<open>rpm_q\<close>, which gives the exit code and the first line of output
  (already stripped).
\<close>

definition getSystemVersion ::
  "(string \<Rightarrow> int \<times> string) \<Rightarrow> string \<Rightarrow> string \<Rightarrow> xit_error + xit_module_version" where
  "getSystemVersion rpm_q m t =
     (if t \<noteq> ''rpm'' then Inl NotImplementedError
      else (case rpm_q m of (rc, out) \<Rightarrow>
              if rc \<noteq> 0 then Inl CalledProcessError else Inr (XITModuleVersion m out t)))"

section \<open>The registry\<close>

type_synonym xit_date = "nat \<times> nat \<times> nat"
type_synonym suite_map = "(string, xit_test) mapping"
type_synonym test_map = "(string, suite_map) mapping"

record xit_registry =
  reg_name :: string
  reg_date :: xit_date
  reg_tests :: test_map
  reg_moduleversions :: "xit_module_version list"

text \<open>The body shared by \<^verbatim>\<open>_from_list\<close> and \<^verbatim>\<open>addTest\<close>: create the
  suite's dictionary if it is missing, then store the test under its name.\<close>

definition add_to_tests :: "xit_test \<Rightarrow> test_map \<Rightarrow> test_map" where
  "add_to_tests t l =
     (let d = (case Mapping.lookup l (suite t) of None \<Rightarrow> Mapping.empty | Some d \<Rightarrow> d)
      in Mapping.update (suite t) (Mapping.update (name t) t d) l)"

definition from_list :: "xit_test list \<Rightarrow> test_map" where
  "from_list xs = fold add_to_tests xs Mapping.empty"

text \<open>\<^verbatim>\<open>XITTestRegistry.__init__\<close>; \<open>now\<close> is \<^verbatim>\<open>time.localtime()\<close>.\<close>

definition XITTestRegistry :: "string \<Rightarrow> xit_test list \<Rightarrow> xit_date \<Rightarrow> xit_registry" where
  "XITTestRegistry n tcs now =
     \<lparr>reg_name = n, reg_date = now, reg_tests = from_list tcs, reg_moduleversions = []\<rparr>"

definition getTest :: "xit_registry \<Rightarrow> string \<Rightarrow> string \<Rightarrow> xit_test option" where
  "getTest r s n =
     (case Mapping.lookup (reg_tests r) s of None \<Rightarrow> None | Some d \<Rightarrow> Mapping.lookup d n)"

definition addTest :: "xit_test \<Rightarrow> xit_registry \<Rightarrow> xit_registry" where
  "addTest t r = r\<lparr>reg_tests := add_to_tests t (reg_tests r)\<rparr>"

definition listTestNames :: "xit_registry \<Rightarrow> (string \<times> string \<times> bool) list" where
  "listTestNames r =
     concat (map (\<lambda>(sn, d). map (\<lambda>(tn, t). (sn, tn, status t)) (sorted_items d))
                 (sorted_items (reg_tests r)))"

section \<open>Well-formedness\<close>

definition suite_wf :: "string \<Rightarrow> suite_map \<Rightarrow> bool" where
  "suite_wf s d \<longleftrightarrow> mapping_finite d \<and>
     (\<forall>n\<in>Mapping.keys d. case Mapping.lookup d n of
        None \<Rightarrow> False
      | Some t \<Rightarrow> suite t = s \<and> name t = n \<and> test_wf t)"

definition reg_wf :: "xit_registry \<Rightarrow> bool" where
  "reg_wf r \<longleftrightarrow> mapping_finite (reg_tests r) \<and>
     (\<forall>s\<in>Mapping.keys (reg_tests r). case Mapping.lookup (reg_tests r) s of
        None \<Rightarrow> False
      | Some d \<Rightarrow> suite_wf s d)"

text \<open>The registry's tests in ascending (suite, name) order: the abstraction under which
  the comparisons are related to the specification's join.\<close>

definition reg_test_list :: "xit_registry \<Rightarrow> xit_test list" where
  "reg_test_list r = concat (map (\<lambda>(s, d). map snd (sorted_items d)) (sorted_items (reg_tests r)))"

section \<open>Properties\<close>

lemma lookup2_add_to_tests:
  "(case Mapping.lookup (add_to_tests t l) s of None \<Rightarrow> None | Some d \<Rightarrow> Mapping.lookup d n) =
   (if s = suite t \<and> n = name t then Some t
    else (case Mapping.lookup l s of None \<Rightarrow> None | Some d \<Rightarrow> Mapping.lookup d n))"
  by (auto simp: add_to_tests_def Let_def lookup_update' lookup_empty split: option.splits)

lemma getTest_addTest:
  "getTest (addTest t r) s n = (if s = suite t \<and> n = name t then Some t else getTest r s n)"
  by (simp add: getTest_def addTest_def lookup2_add_to_tests)

lemma addTest_meta [simp]:
  "reg_name (addTest t r) = reg_name r" "reg_date (addTest t r) = reg_date r"
  "reg_moduleversions (addTest t r) = reg_moduleversions r"
  by (simp_all add: addTest_def)

lemma fold_addTest_meta [simp]:
  "reg_name (fold addTest xs r) = reg_name r" "reg_date (fold addTest xs r) = reg_date r"
  "reg_moduleversions (fold addTest xs r) = reg_moduleversions r"
  by (induction xs arbitrary: r) simp_all

lemma reg_wf_getTest:
  "reg_wf r \<Longrightarrow> getTest r s n = Some t \<Longrightarrow> suite t = s \<and> name t = n \<and> test_wf t"
  by (fastforce simp: reg_wf_def suite_wf_def getTest_def keys_dom_lookup split: option.splits)

lemma keys_add_to_tests:
  "Mapping.keys (add_to_tests t l) = insert (suite t) (Mapping.keys l)"
  by (simp add: add_to_tests_def Let_def)

lemma reg_wf_addTest:
  assumes "reg_wf r" and "test_wf t"
  shows "reg_wf (addTest t r)"
proof -
  let ?l = "reg_tests r"
  let ?d = "case Mapping.lookup ?l (suite t) of None \<Rightarrow> Mapping.empty | Some d \<Rightarrow> d"
  have d: "suite_wf (suite t) ?d"
    using assms(1) by (auto simp: reg_wf_def suite_wf_def keys_dom_lookup xit_simps split: option.splits)
  then have "suite_wf (suite t) (Mapping.update (name t) t ?d)"
    using assms(2) by (auto simp: suite_wf_def keys_dom_lookup xit_simps split: option.splits)
  with assms(1) show ?thesis
    by (auto simp: reg_wf_def addTest_def add_to_tests_def Let_def xit_simps keys_dom_lookup)
qed

lemma mv_cmp_key: "mv_cmp a b = py_cmp (mv_key a) (mv_key b)"
  by (auto simp: mv_cmp_def mv_key_def py_cmp_def Let_def less_prod_def)

lemma reg_wf_suites:
  assumes "reg_wf r" and "Mapping.lookup (reg_tests r) s = Some d"
  shows "suite_wf s d"
proof -
  from assms(2) have "s \<in> Mapping.keys (reg_tests r)"
    by (simp add: keys_dom_lookup domI)
  with assms show ?thesis
    by (fastforce simp: reg_wf_def)
qed

lemma suite_wf_finite: "suite_wf s d \<Longrightarrow> finite (Mapping.keys d)"
  by (simp add: suite_wf_def xit_simps)

lemma mem_listTestNames:
  assumes "reg_wf r"
  shows "(s, n, b) \<in> set (listTestNames r) \<longleftrightarrow> (\<exists>t. getTest r s n = Some t \<and> status t = b)"
proof -
  have fin: "finite (Mapping.keys (reg_tests r))"
    using assms by (simp add: reg_wf_def xit_simps)
  have fin_d: "finite (Mapping.keys d)" if "Mapping.lookup (reg_tests r) s = Some d" for d
    using assms that by (blast dest: reg_wf_suites suite_wf_finite)
  have "(s, n, b) \<in> set (listTestNames r) \<longleftrightarrow>
        (\<exists>d t. (s, d) \<in> set (sorted_items (reg_tests r)) \<and> (n, t) \<in> set (sorted_items d) \<and> b = status t)"
    by (force simp: listTestNames_def)
  also have "\<dots> \<longleftrightarrow> (\<exists>d t. Mapping.lookup (reg_tests r) s = Some d \<and> Mapping.lookup d n = Some t \<and> b = status t)"
    using fin fin_d by (metis sorted_items_mem)
  also have "\<dots> \<longleftrightarrow> (\<exists>t. getTest r s n = Some t \<and> status t = b)"
    by (auto simp: getTest_def split: option.splits)
  finally show ?thesis .
qed

lemma sorted_listTestNames:
  "sorted_wrt (<) (map (\<lambda>(s, n, b). (s, n)) (listTestNames r))"
proof -
  have "map (\<lambda>(s, n, b). (s, n)) (listTestNames r) =
        concat (map (\<lambda>(k, d). map (Pair k) (Mapping.ordered_keys d)) (sorted_items (reg_tests r)))"
    by (simp add: listTestNames_def map_concat comp_def case_prod_beta sorted_items_def)
  moreover have "sorted_wrt (<) (Mapping.ordered_keys d)" for d :: suite_map
    by (simp add: ordered_keys_def strict_sorted_iff)
  ultimately show ?thesis
    using sorted_items_strict[of "reg_tests r"] sorted_wrt_concat_pairs by metis
qed

lemma suite_wf_lookup:
  assumes "suite_wf s d" and "Mapping.lookup d n = Some t"
  shows "suite t = s \<and> name t = n \<and> test_wf t"
proof -
  from assms(2) have "n \<in> Mapping.keys d" by (simp add: keys_dom_lookup domI)
  with assms show ?thesis by (fastforce simp: suite_wf_def)
qed

lemma reg_test_list_listTestNames:
  assumes "reg_wf r"
  shows "map (\<lambda>t. (suite t, name t, status t)) (reg_test_list r) = listTestNames r"
proof -
  have "map (\<lambda>t. (suite t, name t, status t)) (map snd (sorted_items d)) =
        map (\<lambda>(tn, t). (sn, tn, status t)) (sorted_items d)"
    if "Mapping.lookup (reg_tests r) sn = Some d" for sn d
  proof -
    from assms that have wf: "suite_wf sn d" by (rule reg_wf_suites)
    have "\<forall>p\<in>set (sorted_items d). suite (snd p) = sn \<and> name (snd p) = fst p"
      using wf suite_wf_finite[OF wf] by (auto simp: sorted_items_mem dest: suite_wf_lookup[OF wf])
    then show ?thesis by (auto simp: comp_def intro!: map_cong)
  qed
  moreover have "\<forall>p\<in>set (sorted_items (reg_tests r)). Mapping.lookup (reg_tests r) (fst p) = Some (snd p)"
    using assms by (auto simp: reg_wf_def sorted_items_mem xit_simps)
  ultimately show ?thesis
    by (auto simp: reg_test_list_def listTestNames_def map_concat comp_def intro!: arg_cong[where f = concat] map_cong)
qed

lemma map_tc_key_reg_test_list:
  "reg_wf r \<Longrightarrow> map tc_key (reg_test_list r) = map (\<lambda>(s, n, b). (s, n)) (listTestNames r)"
  by (simp flip: reg_test_list_listTestNames add: comp_def tc_key_def)

lemma sorted_reg_test_list:
  "reg_wf r \<Longrightarrow> sorted_wrt (<) (map tc_key (reg_test_list r))"
  by (simp add: map_tc_key_reg_test_list sorted_listTestNames)

lemma mem_reg_test_list:
  assumes "reg_wf r"
  shows "t \<in> set (reg_test_list r) \<longleftrightarrow> getTest r (suite t) (name t) = Some t"
proof -
  have fin: "finite (Mapping.keys (reg_tests r))"
    using assms by (simp add: reg_wf_def xit_simps)
  have "t \<in> set (reg_test_list r) \<longleftrightarrow>
        (\<exists>s d n. (s, d) \<in> set (sorted_items (reg_tests r)) \<and> (n, t) \<in> set (sorted_items d))"
    by (force simp: reg_test_list_def)
  also have "\<dots> \<longleftrightarrow> (\<exists>s d n. Mapping.lookup (reg_tests r) s = Some d \<and> Mapping.lookup d n = Some t)"
    using fin assms by (metis reg_wf_suites sorted_items_mem suite_wf_finite)
  also have "\<dots> \<longleftrightarrow> getTest r (suite t) (name t) = Some t"
  proof
    assume "\<exists>s d n. Mapping.lookup (reg_tests r) s = Some d \<and> Mapping.lookup d n = Some t"
    then obtain s d n where sd: "Mapping.lookup (reg_tests r) s = Some d" and
      dn: "Mapping.lookup d n = Some t" by blast
    from suite_wf_lookup[OF reg_wf_suites[OF assms sd] dn] have "suite t = s" "name t = n"
      by auto
    with sd dn show "getTest r (suite t) (name t) = Some t"
      by (simp add: getTest_def)
  next
    assume "getTest r (suite t) (name t) = Some t"
    then show "\<exists>s d n. Mapping.lookup (reg_tests r) s = Some d \<and> Mapping.lookup d n = Some t"
      by (auto simp: getTest_def split: option.splits)
  qed
  finally show ?thesis .
qed

lemma find_reg_test_list:
  assumes "reg_wf r"
  shows "find (\<lambda>t. tc_key t = (s, n)) (reg_test_list r) = getTest r s n"
proof (cases "getTest r s n")
  case None
  have "(s, n) \<notin> tc_key ` set (reg_test_list r)"
  proof
    assume "(s, n) \<in> tc_key ` set (reg_test_list r)"
    then obtain t where "t \<in> set (reg_test_list r)" "suite t = s" "name t = n"
      by (auto simp: tc_key_def)
    with assms None show False by (simp add: mem_reg_test_list)
  qed
  with None show ?thesis by (simp add: find_key_absent)
next
  case (Some t)
  with assms have "suite t = s" "name t = n" by (auto dest: reg_wf_getTest)
  with assms Some have "t \<in> set (reg_test_list r)" by (simp add: mem_reg_test_list)
  moreover have "distinct (map tc_key (reg_test_list r))"
    using sorted_reg_test_list[OF assms] by (simp add: strict_sorted_iff)
  ultimately show ?thesis
    using Some find_key_distinct[of tc_key "reg_test_list r" t] \<open>suite t = s\<close> \<open>name t = n\<close>
    by (simp add: tc_key_def)
qed

lemma sort_listTestNames: "sort (listTestNames r) = listTestNames r"
proof -
  have "sorted_wrt (<) (listTestNames r)"
    using sorted_listTestNames[of r] unfolding sorted_wrt_map
    by (rule sorted_wrt_mono_rel[rotated]) (auto simp: less_prod_def)
  then show ?thesis
    by (simp add: strict_sorted_iff sorted_sort_id)
qed


lemma fold_addTest:
  "fold addTest xs r = r\<lparr>reg_tests := fold add_to_tests xs (reg_tests r)\<rparr>"
  by (induction xs arbitrary: r) (simp_all add: addTest_def)

lemma XITTestRegistry_fold:
  "XITTestRegistry nm tcs now = fold addTest tcs (XITTestRegistry nm [] now)"
  by (simp add: fold_addTest XITTestRegistry_def from_list_def)

lemma getTest_fold_addTest:
  "getTest (fold addTest xs r) s n =
     (case find (\<lambda>t. suite t = s \<and> name t = n) (rev xs) of Some t \<Rightarrow> Some t | None \<Rightarrow> getTest r s n)"
  by (induction xs arbitrary: r) (auto simp: getTest_addTest find_append split: option.splits)

lemma getTest_empty: "getTest (XITTestRegistry nm [] now) s n = None"
  by (simp add: getTest_def XITTestRegistry_def from_list_def)

lemma reg_wf_empty: "reg_wf (XITTestRegistry nm [] now)"
  by (simp add: reg_wf_def XITTestRegistry_def from_list_def xit_simps)

lemma reg_wf_fold_addTest:
  "reg_wf r \<Longrightarrow> list_all test_wf xs \<Longrightarrow> reg_wf (fold addTest xs r)"
  by (induction xs arbitrary: r) (simp_all add: reg_wf_addTest)

lemma reg_wf_XITTestRegistry:
  "list_all test_wf tcs \<Longrightarrow> reg_wf (XITTestRegistry nm tcs now)"
  by (metis XITTestRegistry_fold reg_wf_empty reg_wf_fold_addTest)

text \<open>C25: a registry built from a list of test cases holds, for each (suite, name), the
  last test case of the list with that key: a later duplicate overwrites an earlier one.\<close>

theorem XITTestRegistry_last_wins:
  "getTest (XITTestRegistry nm tcs now) s n = find (\<lambda>t. suite t = s \<and> name t = n) (rev tcs)"
  by (subst XITTestRegistry_fold) (simp add: getTest_fold_addTest getTest_empty split: option.splits)

text \<open>C24: \<^verbatim>\<open>addTest\<close> is an upsert: adding a test case with the key of an
  earlier one replaces it, and the registry's other tests are unchanged.\<close>

theorem addTest_upsert:
  "tc_key t2 = tc_key t1 \<Longrightarrow>
     getTest (addTest t2 (addTest t1 r)) s n = (if (s, n) = tc_key t1 then Some t2 else getTest r s n)"
  by (simp add: getTest_addTest tc_key_def)

theorem addTest_upsert_witness:
  "getTest (addTest \<lparr>suite = ''S'', name = ''a'', status = False, test_bugs = [], test_info = [], test_fixes = []\<rparr>
     (addTest \<lparr>suite = ''S'', name = ''a'', status = True, test_bugs = [], test_info = [], test_fixes = []\<rparr>
       (XITTestRegistry ''r'' [] (2013, 1, 1)))) ''S'' ''a'' =
   Some \<lparr>suite = ''S'', name = ''a'', status = False, test_bugs = [], test_info = [], test_fixes = []\<rparr>"
  using addTest_upsert[of "\<lparr>suite = ''S'', name = ''a'', status = False, test_bugs = [], test_info = [], test_fixes = []\<rparr>"
      "\<lparr>suite = ''S'', name = ''a'', status = True, test_bugs = [], test_info = [], test_fixes = []\<rparr>"
      "XITTestRegistry ''r'' [] (2013, 1, 1)" "''S''" "''a''"]
  by (simp add: tc_key_def)

text \<open>C23: \<^verbatim>\<open>listTestNames\<close> of a well-formed registry lists every stored test
  exactly once, as (suite, name, status), in strictly ascending (suite, name) order.\<close>

theorem listTestNames_sorted_complete:
  assumes "reg_wf r"
  shows "sorted_wrt (<) (map (\<lambda>(s, n, b). (s, n)) (listTestNames r)) \<and>
    (\<forall>s n b. (s, n, b) \<in> set (listTestNames r) \<longleftrightarrow> (\<exists>t. getTest r s n = Some t \<and> status t = b))"
  using assms by (simp add: sorted_listTestNames mem_listTestNames)

theorem listTestNames_sorted_complete_witness:
  "reg_wf (XITTestRegistry ''r''
     [\<lparr>suite = ''S'', name = ''b'', status = True, test_bugs = [], test_info = [], test_fixes = []\<rparr>,
      \<lparr>suite = ''S'', name = ''a'', status = False, test_bugs = [], test_info = [], test_fixes = []\<rparr>] (2013, 1, 1)) \<and>
   (''S'', ''a'', False) \<in> set (listTestNames (XITTestRegistry ''r''
     [\<lparr>suite = ''S'', name = ''b'', status = True, test_bugs = [], test_info = [], test_fixes = []\<rparr>,
      \<lparr>suite = ''S'', name = ''a'', status = False, test_bugs = [], test_info = [], test_fixes = []\<rparr>] (2013, 1, 1)))"
proof -
  have wf: "reg_wf (XITTestRegistry ''r''
     [\<lparr>suite = ''S'', name = ''b'', status = True, test_bugs = [], test_info = [], test_fixes = []\<rparr>,
      \<lparr>suite = ''S'', name = ''a'', status = False, test_bugs = [], test_info = [], test_fixes = []\<rparr>] (2013, 1, 1))"
    by code_simp
  show ?thesis
    using listTestNames_sorted_complete[OF wf] wf
    by (simp add: XITTestRegistry_def from_list_def getTest_def add_to_tests_def xit_simps)
qed

lemma reg_wf_moduleversions [simp]: "reg_wf (r\<lparr>reg_moduleversions := x\<rparr>) = reg_wf r"
  by (simp add: reg_wf_def)

lemma getTest_moduleversions [simp]: "getTest (r\<lparr>reg_moduleversions := x\<rparr>) s n = getTest r s n"
  by (simp add: getTest_def)

lemma XITTestRegistry_sel [simp]:
  "reg_name (XITTestRegistry n tcs now) = n" "reg_date (XITTestRegistry n tcs now) = now"
  "reg_moduleversions (XITTestRegistry n tcs now) = []"
  by (simp_all add: XITTestRegistry_def)

lemma reg_wf_date [simp]: "reg_wf (r\<lparr>reg_date := x\<rparr>) = reg_wf r"
  by (simp add: reg_wf_def)

lemma getTest_date [simp]: "getTest (r\<lparr>reg_date := x\<rparr>) s n = getTest r s n"
  by (simp add: getTest_def)

end
