(* ===== verification/Comparison.thy ===== *)
theory Comparison
  imports Xit_Prelude
begin

text \<open>
  The comparison contract of the specification: two sequences, each sorted by a key,
  are aligned by a merge-join that emits one event per key of their union, in
  ascending key order, classified as agreeing, disagreeing, left only or right only.
  The code of \<^verbatim>\<open>src/registry/xit.py\<close> has no such function of its own: its
  three comparisons (\<^verbatim>\<open>verify_results\<close>, \<^verbatim>\<open>compare_registry\<close>,
  \<^verbatim>\<open>compare_meta\<close>) are each related to \<open>merge_join\<close> in theory
  \<open>Verify\<close>. This theory holds the contract and the lemmas that the refinements use.
\<close>

datatype ('k, 'a, 'b) cmp_event =
    BothAgree 'k 'a 'b
  | BothDisagree 'k 'a 'b
  | OnlyLeft 'k 'a
  | OnlyRight 'k 'b

primrec event_key :: "('k, 'a, 'b) cmp_event \<Rightarrow> 'k" where
  "event_key (BothAgree k _ _) = k"
| "event_key (BothDisagree k _ _) = k"
| "event_key (OnlyLeft k _) = k"
| "event_key (OnlyRight k _) = k"

primrec only_left :: "('k, 'a, 'b) cmp_event \<Rightarrow> bool" where
  "only_left (BothAgree _ _ _) = False"
| "only_left (BothDisagree _ _ _) = False"
| "only_left (OnlyLeft _ _) = True"
| "only_left (OnlyRight _ _) = False"

primrec only_right :: "('k, 'a, 'b) cmp_event \<Rightarrow> bool" where
  "only_right (BothAgree _ _ _) = False"
| "only_right (BothDisagree _ _ _) = False"
| "only_right (OnlyLeft _ _) = False"
| "only_right (OnlyRight _ _) = True"

fun merge_join ::
  "('a \<Rightarrow> 'k::linorder) \<Rightarrow> ('b \<Rightarrow> 'k) \<Rightarrow> ('a \<Rightarrow> 'b \<Rightarrow> bool) \<Rightarrow> 'a list \<Rightarrow> 'b list \<Rightarrow>
     ('k, 'a, 'b) cmp_event list" where
  "merge_join kl kr ag [] ys = map (\<lambda>y. OnlyRight (kr y) y) ys"
| "merge_join kl kr ag (x # xs) [] = map (\<lambda>x. OnlyLeft (kl x) x) (x # xs)"
| "merge_join kl kr ag (x # xs) (y # ys) =
     (if kl x = kr y then
        (if ag x y then BothAgree (kl x) x y else BothDisagree (kl x) x y) # merge_join kl kr ag xs ys
      else if kl x < kr y then OnlyLeft (kl x) x # merge_join kl kr ag xs (y # ys)
      else OnlyRight (kr y) y # merge_join kl kr ag (x # xs) ys)"

text \<open>The event for a key present on both sides.\<close>

definition both_event :: "('a \<Rightarrow> 'b \<Rightarrow> bool) \<Rightarrow> 'k \<Rightarrow> 'a \<Rightarrow> 'b \<Rightarrow> ('k, 'a, 'b) cmp_event" where
  "both_event ag k x y = (if ag x y then BothAgree k x y else BothDisagree k x y)"

section \<open>The contract\<close>

lemma merge_join_keys:
  "set (map event_key (merge_join kl kr ag xs ys)) = kl ` set xs \<union> kr ` set ys"
  by (induction kl kr ag xs ys rule: merge_join.induct) auto

lemma merge_join_key_mem:
  "e \<in> set (merge_join kl kr ag xs ys) \<Longrightarrow> event_key e \<in> kl ` set xs \<union> kr ` set ys"
  using merge_join_keys[of kl kr ag xs ys] by (metis image_eqI set_map)

lemma merge_join_sorted:
  "sorted_wrt (<) (map kl xs) \<Longrightarrow> sorted_wrt (<) (map kr ys) \<Longrightarrow>
     sorted_wrt (<) (map event_key (merge_join kl kr ag xs ys))"
proof (induction kl kr ag xs ys rule: merge_join.induct)
  case (1 kl kr ag ys)
  then show ?case by (simp add: sorted_wrt_map)
next
  case (2 kl kr ag x xs)
  then show ?case by (simp add: sorted_wrt_map)
next
  case (3 kl kr ag x xs y ys)
  have lx: "\<forall>x'\<in>set xs. kl x < kl x'" and ly: "\<forall>y'\<in>set ys. kr y < kr y'"
    using "3.prems" by auto
  show ?case
  proof (cases "kl x = kr y")
    case True
    with "3.IH"(1) "3.prems" lx ly show ?thesis
      by (auto dest!: merge_join_key_mem intro: less_trans)
  next
    case neq: False
    show ?thesis
    proof (cases "kl x < kr y")
      case True
      with ly have "\<forall>y'\<in>set ys. kl x < kr y'"
        using less_trans by blast
      with True neq "3.IH"(2) "3.prems" lx show ?thesis
        by (auto dest!: merge_join_key_mem)
    next
      case False
      with neq have "kr y < kl x" by simp
      with lx have "\<forall>x'\<in>set xs. kr y < kl x'"
        using less_trans by blast
      with neq False "3.IH"(3) "3.prems" ly show ?thesis
        by (auto dest!: merge_join_key_mem)
    qed
  qed
qed

lemma merge_join_length:
  assumes "sorted_wrt (<) (map kl xs)" and "sorted_wrt (<) (map kr ys)"
  shows "length (merge_join kl kr ag xs ys) = card (kl ` set xs \<union> kr ` set ys)"
proof -
  have "distinct (map event_key (merge_join kl kr ag xs ys))"
    using merge_join_sorted[OF assms] by (simp add: strict_sorted_iff)
  then show ?thesis
    using merge_join_keys[of kl kr ag xs ys] distinct_card by fastforce
qed

section \<open>One side of the join\<close>

text \<open>
  Restricted to the events that mention a right element, the join is a lookup of each
  right element among the left ones; symmetrically for the left side.
\<close>

lemma merge_join_right_side:
  "sorted_wrt (<) (map kl xs) \<Longrightarrow> sorted_wrt (<) (map kr ys) \<Longrightarrow>
     filter (\<lambda>e. \<not> only_left e) (merge_join kl kr ag xs ys) =
     map (\<lambda>y. case find (\<lambda>x. kl x = kr y) xs of
                None \<Rightarrow> OnlyRight (kr y) y
              | Some x \<Rightarrow> both_event ag (kr y) x y) ys"
proof (induction kl kr ag xs ys rule: merge_join.induct)
  case (1 kl kr ag ys)
  then show ?case by (induction ys) auto
next
  case (2 kl kr ag x xs)
  then show ?case by simp
next
  case (3 kl kr ag x xs y ys)
  let ?look = "\<lambda>zs y'. case find (\<lambda>x'. kl x' = kr y') zs of
                None \<Rightarrow> OnlyRight (kr y') y' | Some x' \<Rightarrow> both_event ag (kr y') x' y'"
  have skip: "map (?look (x # xs)) zs = map (?look xs) zs"
    if "\<forall>y'\<in>set zs. kl x \<noteq> kr y'" for zs
    using that by (intro map_cong) auto
  have lx: "\<forall>x'\<in>set xs. kl x < kl x'" and ly: "\<forall>y'\<in>set ys. kr y < kr y'"
    using "3.prems" by auto
  show ?case
  proof (cases "kl x = kr y")
    case True
    with ly have "\<forall>y'\<in>set ys. kl x \<noteq> kr y'" by auto
    with True "3.IH"(1) "3.prems" skip[of ys] show ?thesis
      by (simp add: both_event_def)
  next
    case neq: False
    show ?thesis
    proof (cases "kl x < kr y")
      case True
      with ly have "\<forall>y'\<in>set (y # ys). kl x \<noteq> kr y'"
        using less_trans less_imp_neq by fastforce
      with neq True "3.IH"(2) "3.prems" skip[of "y # ys"] show ?thesis
        by simp
    next
      case False
      with neq lx have "find (\<lambda>x'. kl x' = kr y) (x # xs) = None"
        by (auto simp: find_None_iff dest: less_trans)
      with neq False "3.IH"(3) "3.prems" show ?thesis
        by simp
    qed
  qed
qed

lemma merge_join_left_side:
  "sorted_wrt (<) (map kl xs) \<Longrightarrow> sorted_wrt (<) (map kr ys) \<Longrightarrow>
     filter (\<lambda>e. \<not> only_right e) (merge_join kl kr ag xs ys) =
     map (\<lambda>x. case find (\<lambda>y. kr y = kl x) ys of
                None \<Rightarrow> OnlyLeft (kl x) x
              | Some y \<Rightarrow> both_event ag (kl x) x y) xs"
proof (induction kl kr ag xs ys rule: merge_join.induct)
  case (1 kl kr ag ys)
  then show ?case by (induction ys) auto
next
  case (2 kl kr ag x xs)
  then show ?case by (induction xs) auto
next
  case (3 kl kr ag x xs y ys)
  let ?look = "\<lambda>zs x'. case find (\<lambda>y'. kr y' = kl x') zs of
                None \<Rightarrow> OnlyLeft (kl x') x' | Some y' \<Rightarrow> both_event ag (kl x') x' y'"
  have skip: "map (?look (y # ys)) zs = map (?look ys) zs"
    if "\<forall>x'\<in>set zs. kr y \<noteq> kl x'" for zs
    using that by (intro map_cong) auto
  have lx: "\<forall>x'\<in>set xs. kl x < kl x'" and ly: "\<forall>y'\<in>set ys. kr y < kr y'"
    using "3.prems" by auto
  show ?case
  proof (cases "kl x = kr y")
    case True
    with lx have "\<forall>x'\<in>set xs. kr y \<noteq> kl x'" by auto
    with True "3.IH"(1) "3.prems" skip[of xs] show ?thesis
      by (simp add: both_event_def)
  next
    case neq: False
    show ?thesis
    proof (cases "kl x < kr y")
      case True
      with neq ly have "find (\<lambda>y'. kr y' = kl x) (y # ys) = None"
        by (auto simp: find_None_iff dest: less_trans)
      with neq True "3.IH"(2) "3.prems" show ?thesis
        by simp
    next
      case False
      with neq have "kr y < kl x" by simp
      with lx have "\<forall>x'\<in>set (x # xs). kr y \<noteq> kl x'"
        using less_trans less_imp_neq by fastforce
      with neq False "3.IH"(3) "3.prems" skip[of "x # xs"] show ?thesis
        by simp
    qed
  qed
qed

end
