(* ===== verification/Verify.thy ===== *)
theory Verify
  imports Registry Comparison
begin

text \<open>
  The three comparisons of the command-line tool (\<^verbatim>\<open>src/registry/xit.py\<close>,
  class \<^verbatim>\<open>XITTestRegistryCLI\<close>): \<^verbatim>\<open>verify_results\<close> (a JUnit run against a
  registry), \<^verbatim>\<open>compare_registry\<close> (two registries' tests) and
  \<^verbatim>\<open>compare_meta\<close> (two registries' module versions). Their output is modelled as
  the rows they print, each row the values that the format string lays out (column widths
  and the constant table headers are not modelled), plus the exception that ends the
  command, if any. Each comparison is then related to the specification's
  \<open>merge_join\<close>.
\<close>

section \<open>Output rows\<close>

datatype term_color = DEFAULT | RED | GREEN | BLUE

record verify_row =
  row_code :: string
  row_color :: term_color
  row_suite :: string
  row_name :: string
  row_result :: string
  row_expected :: string

record mv_row =
  mvr_name :: string
  mvr_v1 :: string
  mvr_v2 :: string
  mvr_red :: bool

text \<open>\<^verbatim>\<open>print_modversions\<close>: red when colours are asked for and the two
  versions differ.\<close>

definition print_modversions :: "string \<Rightarrow> string \<Rightarrow> string \<Rightarrow> bool \<Rightarrow> mv_row" where
  "print_modversions n v1 v2 use_colors =
     \<lparr>mvr_name = n, mvr_v1 = v1, mvr_v2 = v2, mvr_red = (use_colors \<and> v1 \<noteq> v2)\<rparr>"

section \<open>\<^verbatim>\<open>verify_one_result\<close>\<close>

text \<open>
  The row for one test: \<open>test\<close> is the registry's entry (or \<^verbatim>\<open>None\<close>),
  \<open>result\<close> the other side, which \<^verbatim>\<open>compare_registry\<close> may pass as
  \<^verbatim>\<open>None\<close>; reading \<^verbatim>\<open>result.status\<close> or \<^verbatim>\<open>result.suite\<close> then raises
  \<^verbatim>\<open>AttributeError\<close>.
\<close>

definition verify_one_result ::
  "'a xit_test_case_scheme option \<Rightarrow> 'b xit_test_case_scheme option \<Rightarrow> xit_error + verify_row" where
  "verify_one_result test result =
     (case test of
        Some t \<Rightarrow>
          (case result of
             None \<Rightarrow> Inl AttributeError
           | Some r \<Rightarrow>
               (if bool_lower (status t) \<noteq> bool_lower (status r) then
                  Inr \<lparr>row_code = ''XX'', row_color = (if status r = True then GREEN else RED),
                       row_suite = suite r, row_name = name r,
                       row_result = bool_lower (status r), row_expected = bool_lower (status t)\<rparr>
                else
                  Inr \<lparr>row_code = (if status t then ''++'' else ''--''), row_color = DEFAULT,
                       row_suite = suite r, row_name = name r,
                       row_result = bool_lower (status r), row_expected = bool_lower (status t)\<rparr>))
      | None \<Rightarrow>
          (case result of
             None \<Rightarrow> Inl AttributeError
           | Some r \<Rightarrow>
               Inr \<lparr>row_code = ''??'', row_color = BLUE, row_suite = suite r, row_name = name r,
                    row_result = bool_lower (status r), row_expected = ''''\<rparr>))"

section \<open>\<^verbatim>\<open>compare_meta\<close>\<close>

text \<open>
  The \<^verbatim>\<open>while True\<close> loop over the two iterators of sorted module versions.
  The state is the two current elements and what is left in each iterator. The loop
  ends when a \<^verbatim>\<open>next()\<close> raises \<^verbatim>\<open>StopIteration\<close>; the result is the rows
  printed and what is left in the two iterators for the draining loops. An element
  already taken into \<^verbatim>\<open>r1_modversion\<close> or \<^verbatim>\<open>r2_modversion\<close> when the other
  iterator runs out is in neither.
\<close>

definition cons_row :: "'r \<Rightarrow> 'r list \<times> 'x \<times> 'y \<Rightarrow> 'r list \<times> 'x \<times> 'y" where
  "cons_row row st = (case st of (rows, a, b) \<Rightarrow> (row # rows, a, b))"

function meta_loop ::
  "xit_module_version \<Rightarrow> xit_module_version \<Rightarrow> xit_module_version list \<Rightarrow> xit_module_version list \<Rightarrow>
     mv_row list \<times> xit_module_version list \<times> xit_module_version list" where
  "meta_loop r1 r2 it1 it2 =
     (let rc = mv_cmp r1 r2 in
      if rc = 0 then
        (let row = print_modversions (mv_module r1) (mv_version r1) (mv_version r2) True in
         case it1 of
           [] \<Rightarrow> ([row], [], it2)
         | r1' # it1' \<Rightarrow>
             (case it2 of
                [] \<Rightarrow> ([row], it1', [])
              | r2' # it2' \<Rightarrow> cons_row row (meta_loop r1' r2' it1' it2')))
      else if 0 < rc then
        (let row = print_modversions (mv_module r2) ''???'' (mv_version r2) True in
         case it2 of
           [] \<Rightarrow> ([row], it1, [])
         | r2' # it2' \<Rightarrow> cons_row row (meta_loop r1 r2' it1 it2'))
      else
        (let row = print_modversions (mv_module r1) (mv_version r1) ''???'' True in
         case it1 of
           [] \<Rightarrow> ([row], [], it2)
         | r1' # it1' \<Rightarrow> cons_row row (meta_loop r1' r2 it1' it2)))"
  by pat_completeness auto
termination
  by (relation "measure (\<lambda>(r1, r2, it1, it2). length it1 + length it2)") auto

definition drain_left :: "xit_module_version list \<Rightarrow> mv_row list" where
  "drain_left ms = map (\<lambda>m. print_modversions (mv_module m) (mv_version m) ''???'' True) ms"

definition drain_right :: "xit_module_version list \<Rightarrow> mv_row list" where
  "drain_right ms = map (\<lambda>m. print_modversions (mv_module m) ''???'' (mv_version m) True) ms"

text \<open>The rows of the two \<^verbatim>\<open>try\<close> blocks and the two draining loops, given the
  two sorted lists.\<close>

definition compare_mv_lists :: "xit_module_version list \<Rightarrow> xit_module_version list \<Rightarrow> mv_row list" where
  "compare_mv_lists s1 s2 =
     (case s1 of
        [] \<Rightarrow> drain_right s2
      | r1 # it1 \<Rightarrow>
          (case s2 of
             [] \<Rightarrow> drain_left it1
           | r2 # it2 \<Rightarrow>
               (case meta_loop r1 r2 it1 it2 of
                  (rows, rest1, rest2) \<Rightarrow> rows @ drain_left rest1 @ drain_right rest2)))"

definition compare_meta :: "xit_registry \<Rightarrow> xit_registry \<Rightarrow> mv_row list" where
  "compare_meta reg1 reg2 =
     print_modversions ''Module name'' (reg_name reg1) (reg_name reg2) False #
     print_modversions ''-----------'' ''----------'' ''----------'' False #
     compare_mv_lists (sort_key mv_key (reg_moduleversions reg1))
                      (sort_key mv_key (reg_moduleversions reg2))"

section \<open>\<^verbatim>\<open>verify_results\<close> and \<^verbatim>\<open>compare_registry\<close>\<close>

fun check_rpms :: "xit_module_version list \<Rightarrow> mv_row list \<times> xit_error option" where
  "check_rpms [] = ([], None)"
| "check_rpms (m # ms) =
     (if mv_type m \<noteq> ''rpm'' then check_rpms ms
      else (case compareSystemVersion m of
              Inl e \<Rightarrow> ([], Some e)
            | Inr (rc, v) \<Rightarrow>
                (case check_rpms ms of
                   (rows, err) \<Rightarrow> (print_modversions (mv_module m) (mv_version m) v True # rows, err))))"

definition check_installed_rpms :: "xit_registry \<Rightarrow> mv_row list \<times> xit_error option" where
  "check_installed_rpms reg =
     (case check_rpms (reg_moduleversions reg) of
        (rows, err) \<Rightarrow>
          (print_modversions ''Module name'' (reg_name reg) ''System-installed'' False #
           print_modversions ''-----------'' ''-------------'' ''----------------'' False # rows, err))"

definition verify_results ::
  "bool \<Rightarrow> xit_registry \<Rightarrow> junit_result list \<Rightarrow> mv_row list \<times> verify_row list \<times> xit_error option" where
  "verify_results check_all registry results =
     (if results = [] then ([], [], Some ValueError)
      else (case (if check_all then check_installed_rpms registry else ([], None)) of
              (meta, Some e) \<Rightarrow> (meta, [], Some e)
            | (meta, None) \<Rightarrow>
                (case print_rows (\<lambda>r. verify_one_result (getTest registry (suite r) (name r)) (Some r))
                                 (sort_key tc_key results) of
                   (rows, err) \<Rightarrow> (meta, rows, err))))"

definition compare_registry ::
  "xit_registry \<Rightarrow> xit_registry \<Rightarrow> mv_row list \<times> verify_row list \<times> xit_error option" where
  "compare_registry reg1 reg2 =
     (let meta = compare_meta reg1 reg2 in
      if listTestNames reg1 = [] then (meta, [], Some ValueError)
      else (case print_rows (\<lambda>(s, t, st). verify_one_result (getTest reg1 s t) (getTest reg2 s t))
                            (sort (listTestNames reg1)) of
              (rows, err) \<Rightarrow> (meta, rows, err)))"

definition status_agree :: "'a xit_test_case_scheme \<Rightarrow> 'b xit_test_case_scheme \<Rightarrow> bool" where
  "status_agree t r \<longleftrightarrow> status t = status r"

primrec event_row ::
  "('k, 'a xit_test_case_scheme, 'b xit_test_case_scheme) cmp_event \<Rightarrow> verify_row option" where
  "event_row (BothAgree k t r) =
     Some \<lparr>row_code = (if status t then ''++'' else ''--''), row_color = DEFAULT,
           row_suite = suite r, row_name = name r,
           row_result = bool_lower (status r), row_expected = bool_lower (status t)\<rparr>"
| "event_row (BothDisagree k t r) =
     Some \<lparr>row_code = ''XX'', row_color = (if status r then GREEN else RED),
           row_suite = suite r, row_name = name r,
           row_result = bool_lower (status r), row_expected = bool_lower (status t)\<rparr>"
| "event_row (OnlyLeft k t) = None"
| "event_row (OnlyRight k r) =
     Some \<lparr>row_code = ''??'', row_color = BLUE, row_suite = suite r, row_name = name r,
           row_result = bool_lower (status r), row_expected = ''''\<rparr>"

definition event_outcome ::
  "('k, 'a xit_test_case_scheme, 'b xit_test_case_scheme) cmp_event \<Rightarrow> xit_error + verify_row" where
  "event_outcome e = (case event_row e of None \<Rightarrow> Inl AttributeError | Some row \<Rightarrow> Inr row)"

section \<open>The specification's module comparison\<close>

text \<open>The row the specification's join would print for each event, with the code's
  own rendering and the code's key (module, type, version).\<close>

primrec render_mv_event ::
  "(string \<times> string \<times> string, xit_module_version, xit_module_version) cmp_event \<Rightarrow> mv_row" where
  "render_mv_event (BothAgree k a b) = print_modversions (mv_module a) (mv_version a) (mv_version b) True"
| "render_mv_event (BothDisagree k a b) = print_modversions (mv_module a) (mv_version a) (mv_version b) True"
| "render_mv_event (OnlyLeft k a) = print_modversions (mv_module a) (mv_version a) ''???'' True"
| "render_mv_event (OnlyRight k b) = print_modversions (mv_module b) ''???'' (mv_version b) True"

definition spec_mv_rows :: "xit_module_version list \<Rightarrow> xit_module_version list \<Rightarrow> mv_row list" where
  "spec_mv_rows s1 s2 =
     map render_mv_event (merge_join mv_key mv_key (\<lambda>a b. mv_version a = mv_version b) s1 s2)"

text \<open>When the code's iterator loop loses an element, for two lists sorted by key: the
  first list is not empty, and either the second is empty (its \<^verbatim>\<open>next()\<close> raises
  while the first's head is held), or the first's largest key sorts after the second's
  (the second runs out while an element of the first is held), or it sorts before it and
  has no counterpart in the second (the first runs out while an element of the second is
  held).\<close>

definition meta_loses :: "xit_module_version list \<Rightarrow> xit_module_version list \<Rightarrow> bool" where
  "meta_loses s1 s2 \<longleftrightarrow>
     s1 \<noteq> [] \<and>
     (s2 = [] \<or> mv_key (last s2) < mv_key (last s1) \<or>
      (mv_key (last s1) < mv_key (last s2) \<and> mv_key (last s1) \<notin> mv_key ` set s2))"

declare meta_loop.simps [simp del]

section \<open>Module comparison\<close>

lemma spec_mv_rows_simps:
  "spec_mv_rows [] ys = drain_right ys"
  "spec_mv_rows (x # xs) [] = drain_left (x # xs)"
  "spec_mv_rows (x # xs) (y # ys) =
     (if mv_key x = mv_key y then
        print_modversions (mv_module x) (mv_version x) (mv_version y) True # spec_mv_rows xs ys
      else if mv_key x < mv_key y then
        print_modversions (mv_module x) (mv_version x) ''???'' True # spec_mv_rows xs (y # ys)
      else print_modversions (mv_module y) ''???'' (mv_version y) True # spec_mv_rows (x # xs) ys)"
  by (simp_all add: spec_mv_rows_def drain_left_def drain_right_def comp_def)

lemma mv_cmp_cases:
  "(mv_cmp a b = 0 \<longleftrightarrow> mv_key a = mv_key b) \<and> (0 < mv_cmp a b \<longleftrightarrow> mv_key b < mv_key a)"
  by (simp add: mv_cmp_key xit_simps)

lemma meta_loop_subseq:
  "meta_loop r1 r2 it1 it2 = (rows, a, b) \<Longrightarrow>
     subseq (rows @ drain_left a @ drain_right b) (spec_mv_rows (r1 # it1) (r2 # it2)) \<and>
     length (spec_mv_rows (r1 # it1) (r2 # it2)) \<le> Suc (length (rows @ drain_left a @ drain_right b))"
proof (induction r1 r2 it1 it2 arbitrary: rows a b rule: meta_loop.induct)
  case (1 r1 r2 it1 it2)
  note eq = "1.prems"[unfolded meta_loop.simps[of r1 r2 it1 it2]]
  show ?case
  proof (cases "mv_key r1 = mv_key r2")
    case True
    then have rc: "mv_cmp r1 r2 = 0" by (simp add: mv_cmp_cases)
    show ?thesis
    proof (cases it1)
      case Nil
      with eq rc True show ?thesis
        by (cases it2) (auto simp: spec_mv_rows_simps drain_left_def drain_right_def)
    next
      case (Cons r1' it1')
      show ?thesis
      proof (cases it2)
        case Nil
        with eq rc True Cons show ?thesis
          by (auto simp: spec_mv_rows_simps drain_left_def drain_right_def subseq_Cons2 intro: list_emb_Cons)
      next
        case Cons2: (Cons r2' it2')
        obtain rows' where rec: "meta_loop r1' r2' it1' it2' = (rows', a, b)" and
          rows: "rows = print_modversions (mv_module r1) (mv_version r1) (mv_version r2) True # rows'"
          using eq rc Cons Cons2 by (auto simp: cons_row_def split: prod.splits)
        from "1.IH"(1)[OF refl rc refl Cons Cons2 rec] True Cons Cons2 rows show ?thesis
          by (simp add: spec_mv_rows_simps subseq_Cons2)
      qed
    qed
  next
    case neq: False
    show ?thesis
    proof (cases "mv_key r2 < mv_key r1")
      case True
      then have rc: "mv_cmp r1 r2 \<noteq> 0" "0 < mv_cmp r1 r2" by (simp_all add: mv_cmp_cases)
      have nlt: "\<not> mv_key r1 < mv_key r2" using True by simp
      show ?thesis
      proof (cases it2)
        case Nil
        with eq rc neq nlt show ?thesis
          by (auto simp: spec_mv_rows_simps drain_left_def drain_right_def intro: list_emb_Cons)
      next
        case (Cons r2' it2')
        obtain rows' where rec: "meta_loop r1 r2' it1 it2' = (rows', a, b)" and
          rows: "rows = print_modversions (mv_module r2) ''???'' (mv_version r2) True # rows'"
          using eq rc Cons by (auto simp: cons_row_def split: prod.splits)
        from "1.IH"(2)[OF refl rc refl Cons rec] neq nlt Cons rows show ?thesis
          by (simp add: spec_mv_rows_simps subseq_Cons2)
      qed
    next
      case False
      with neq have lt: "mv_key r1 < mv_key r2" by simp
      then have rc: "mv_cmp r1 r2 \<noteq> 0" "\<not> 0 < mv_cmp r1 r2"
        using neq by (simp_all add: mv_cmp_cases)
      show ?thesis
      proof (cases it1)
        case Nil
        with eq rc neq lt show ?thesis
          by (cases it2) (auto simp: spec_mv_rows_simps drain_left_def drain_right_def intro: list_emb_Cons)
      next
        case (Cons r1' it1')
        obtain rows' where rec: "meta_loop r1' r2 it1' it2 = (rows', a, b)" and
          rows: "rows = print_modversions (mv_module r1) (mv_version r1) ''???'' True # rows'"
          using eq rc Cons by (auto simp: cons_row_def split: prod.splits)
        from "1.IH"(3)[OF refl rc refl Cons rec] neq lt Cons rows show ?thesis
          by (simp add: spec_mv_rows_simps subseq_Cons2)
      qed
    qed
  qed
qed

lemma compare_mv_lists_subseq:
  "subseq (compare_mv_lists s1 s2) (spec_mv_rows s1 s2) \<and>
   length (spec_mv_rows s1 s2) \<le> Suc (length (compare_mv_lists s1 s2))"
proof (cases s1)
  case Nil
  then show ?thesis by (simp add: compare_mv_lists_def spec_mv_rows_simps)
next
  case (Cons r1 it1)
  show ?thesis
  proof (cases s2)
    case Nil
    with Cons show ?thesis
      by (simp add: compare_mv_lists_def spec_mv_rows_simps drain_left_def list_emb_Cons)
  next
    case Cons2: (Cons r2 it2)
    obtain rows a b where "meta_loop r1 r2 it1 it2 = (rows, a, b)"
      by (cases "meta_loop r1 r2 it1 it2") auto
    with Cons Cons2 meta_loop_subseq[of r1 r2 it1 it2 rows a b] show ?thesis
      by (simp add: compare_mv_lists_def)
  qed
qed

lemma meta_loop_same_last:
  "meta_loop r1 r2 it1 it2 = (rows, a, b) \<Longrightarrow>
   sorted_wrt (<) (map mv_key (r1 # it1)) \<Longrightarrow> sorted_wrt (<) (map mv_key (r2 # it2)) \<Longrightarrow>
   mv_key (last (r1 # it1)) = mv_key (last (r2 # it2)) \<Longrightarrow>
   rows @ drain_left a @ drain_right b = spec_mv_rows (r1 # it1) (r2 # it2)"
proof (induction r1 r2 it1 it2 arbitrary: rows a b rule: meta_loop.induct)
  case (1 r1 r2 it1 it2)
  note eq = "1.prems"(1)[unfolded meta_loop.simps[of r1 r2 it1 it2]]
  have le1: "\<forall>x\<in>set (r1 # it1). mv_key x \<le> mv_key (last (r1 # it1))"
    using "1.prems"(2) by (induction it1 arbitrary: r1) (auto simp: less_imp_le)
  have le2: "\<forall>x\<in>set (r2 # it2). mv_key x \<le> mv_key (last (r2 # it2))"
    using "1.prems"(3) by (induction it2 arbitrary: r2) (auto simp: less_imp_le)
  show ?case
  proof (cases "mv_key r1 = mv_key r2")
    case True
    then have rc: "mv_cmp r1 r2 = 0" by (simp add: mv_cmp_cases)
    show ?thesis
    proof (cases it1)
      case Nil
      with eq rc True show ?thesis
        by (cases it2) (auto simp: spec_mv_rows_simps drain_left_def drain_right_def)
    next
      case (Cons r1' it1')
      show ?thesis
      proof (cases it2)
        case Nil
        from "1.prems"(2) Cons have "mv_key r1 < mv_key r1'" by simp
        with le1 "1.prems"(4) Nil Cons True show ?thesis
          by (metis last_ConsL last_ConsR leD list.distinct(1) list.set_intros(1,2))
      next
        case Cons2: (Cons r2' it2')
        obtain rows' where rec: "meta_loop r1' r2' it1' it2' = (rows', a, b)" and
          rows: "rows = print_modversions (mv_module r1) (mv_version r1) (mv_version r2) True # rows'"
          using eq rc Cons Cons2 by (auto simp: cons_row_def split: prod.splits)
        have "rows' @ drain_left a @ drain_right b = spec_mv_rows (r1' # it1') (r2' # it2')"
          using "1.IH"(1)[OF refl rc refl Cons Cons2 rec] "1.prems"(2-4) Cons Cons2 by simp
        with True Cons Cons2 rows show ?thesis
          by (simp add: spec_mv_rows_simps)
      qed
    qed
  next
    case neq: False
    show ?thesis
    proof (cases "mv_key r2 < mv_key r1")
      case True
      then have rc: "mv_cmp r1 r2 \<noteq> 0" "0 < mv_cmp r1 r2" by (simp_all add: mv_cmp_cases)
      have nlt: "\<not> mv_key r1 < mv_key r2" using True by simp
      show ?thesis
      proof (cases it2)
        case Nil
        with True le1 "1.prems"(4) show ?thesis
          by (metis last.simps leD list.set_intros(1))
      next
        case (Cons r2' it2')
        obtain rows' where rec: "meta_loop r1 r2' it1 it2' = (rows', a, b)" and
          rows: "rows = print_modversions (mv_module r2) ''???'' (mv_version r2) True # rows'"
          using eq rc Cons by (auto simp: cons_row_def split: prod.splits)
        have "rows' @ drain_left a @ drain_right b = spec_mv_rows (r1 # it1) (r2' # it2')"
          using "1.IH"(2)[OF refl rc refl Cons rec] "1.prems"(2-4) Cons by simp
        with neq nlt Cons rows show ?thesis
          by (simp add: spec_mv_rows_simps)
      qed
    next
      case False
      with neq have lt: "mv_key r1 < mv_key r2" by simp
      then have rc: "mv_cmp r1 r2 \<noteq> 0" "\<not> 0 < mv_cmp r1 r2"
        using neq by (simp_all add: mv_cmp_cases)
      show ?thesis
      proof (cases it1)
        case Nil
        with lt le2 "1.prems"(4) show ?thesis
          by (metis last.simps leD list.set_intros(1))
      next
        case (Cons r1' it1')
        obtain rows' where rec: "meta_loop r1' r2 it1' it2 = (rows', a, b)" and
          rows: "rows = print_modversions (mv_module r1) (mv_version r1) ''???'' True # rows'"
          using eq rc Cons by (auto simp: cons_row_def split: prod.splits)
        have "rows' @ drain_left a @ drain_right b = spec_mv_rows (r1' # it1') (r2 # it2)"
          using "1.IH"(3)[OF refl rc refl Cons rec] "1.prems"(2-4) Cons by simp
        with neq lt Cons rows show ?thesis
          by (simp add: spec_mv_rows_simps)
      qed
    qed
  qed
qed

lemma meta_loop_loses:
  "meta_loop r1 r2 it1 it2 = (rows, a, b) \<Longrightarrow>
   sorted_wrt (<) (map mv_key (r1 # it1)) \<Longrightarrow> sorted_wrt (<) (map mv_key (r2 # it2)) \<Longrightarrow>
   (if meta_loses (r1 # it1) (r2 # it2)
    then Suc (length (rows @ drain_left a @ drain_right b)) = length (spec_mv_rows (r1 # it1) (r2 # it2))
    else rows @ drain_left a @ drain_right b = spec_mv_rows (r1 # it1) (r2 # it2))"
proof (induction r1 r2 it1 it2 arbitrary: rows a b rule: meta_loop.induct)
  case (1 r1 r2 it1 it2)
  note eq = "1.prems"(1)[unfolded meta_loop.simps[of r1 r2 it1 it2]]
  have s1: "\<forall>x\<in>set it1. mv_key r1 < mv_key x" and s2: "\<forall>x\<in>set it2. mv_key r2 < mv_key x"
    using "1.prems"(2,3) by simp_all
  have l1: "it1 \<noteq> [] \<Longrightarrow> mv_key r1 < mv_key (last it1)" and l2: "it2 \<noteq> [] \<Longrightarrow> mv_key r2 < mv_key (last it2)"
    using s1 s2 by simp_all
  show ?case
  proof (cases "mv_key r1 = mv_key r2")
    case True
    then have rc: "mv_cmp r1 r2 = 0" by (simp add: mv_cmp_cases)
    show ?thesis
    proof (cases it1)
      case Nil
      with eq rc True s2 l2 show ?thesis
        by (cases it2) (auto simp: spec_mv_rows_simps drain_left_def drain_right_def meta_loses_def split: if_splits dest: order.asym order.strict_trans)
    next
      case (Cons r1' it1')
      show ?thesis
      proof (cases it2)
        case Nil
        with eq rc True Cons s1 l1 show ?thesis
          by (auto simp: spec_mv_rows_simps drain_left_def drain_right_def meta_loses_def split: if_splits dest: order.asym order.strict_trans)
      next
        case Cons2: (Cons r2' it2')
        obtain rows' where rec: "meta_loop r1' r2' it1' it2' = (rows', a, b)" and
          rows: "rows = print_modversions (mv_module r1) (mv_version r1) (mv_version r2) True # rows'"
          using eq rc Cons Cons2 by (auto simp: cons_row_def split: prod.splits)
        have "meta_loses (r1 # it1) (r2 # it2) = meta_loses (r1' # it1') (r2' # it2')"
          using True s1 l1 Cons Cons2 by (auto simp: meta_loses_def dest: order.asym order.strict_trans)
        with "1.IH"(1)[OF refl rc refl Cons Cons2 rec] "1.prems"(2,3) True Cons Cons2 rows show ?thesis
          by (simp add: spec_mv_rows_simps split: if_splits)
      qed
    qed
  next
    case neq: False
    show ?thesis
    proof (cases "mv_key r2 < mv_key r1")
      case True
      then have rc: "mv_cmp r1 r2 \<noteq> 0" "0 < mv_cmp r1 r2" by (simp_all add: mv_cmp_cases)
      have nlt: "\<not> mv_key r1 < mv_key r2" using True by simp
      show ?thesis
      proof (cases it2)
        case Nil
        with eq rc neq nlt True s1 l1 show ?thesis
          by (auto simp: spec_mv_rows_simps drain_left_def drain_right_def meta_loses_def split: if_splits dest: order.asym order.strict_trans)
      next
        case (Cons r2' it2')
        obtain rows' where rec: "meta_loop r1 r2' it1 it2' = (rows', a, b)" and
          rows: "rows = print_modversions (mv_module r2) ''???'' (mv_version r2) True # rows'"
          using eq rc Cons by (auto simp: cons_row_def split: prod.splits)
        have "mv_key (last (r1 # it1)) \<noteq> mv_key r2"
          using True l1 by (cases "it1 = []") (auto dest: order.strict_trans)
        then have "meta_loses (r1 # it1) (r2 # it2) = meta_loses (r1 # it1) (r2' # it2')"
          using Cons by (auto simp: meta_loses_def)
        with "1.IH"(2)[OF refl rc refl Cons rec] "1.prems"(2,3) neq nlt Cons rows show ?thesis
          by (simp add: spec_mv_rows_simps split: if_splits)
      qed
    next
      case False
      with neq have lt: "mv_key r1 < mv_key r2" by simp
      then have rc: "mv_cmp r1 r2 \<noteq> 0" "\<not> 0 < mv_cmp r1 r2"
        using neq by (simp_all add: mv_cmp_cases)
      show ?thesis
      proof (cases it1)
        case Nil
        with eq rc neq lt s2 l2 show ?thesis
          by (cases it2) (auto simp: spec_mv_rows_simps drain_left_def drain_right_def meta_loses_def split: if_splits dest: order.asym order.strict_trans)
      next
        case (Cons r1' it1')
        obtain rows' where rec: "meta_loop r1' r2 it1' it2 = (rows', a, b)" and
          rows: "rows = print_modversions (mv_module r1) (mv_version r1) ''???'' True # rows'"
          using eq rc Cons by (auto simp: cons_row_def split: prod.splits)
        have "meta_loses (r1 # it1) (r2 # it2) = meta_loses (r1' # it1') (r2 # it2)"
          using lt s1 l1 Cons by (auto simp: meta_loses_def dest: order.asym order.strict_trans)
        with "1.IH"(3)[OF refl rc refl Cons rec] "1.prems"(2,3) neq lt Cons rows show ?thesis
          by (simp add: spec_mv_rows_simps split: if_splits)
      qed
    qed
  qed
qed

section \<open>Test comparisons\<close>

lemma verify_one_result_event:
  "verify_one_result ot (Some r) =
     event_outcome (case ot of None \<Rightarrow> OnlyRight k r | Some t \<Rightarrow> both_event status_agree k t r)"
  by (cases ot) (auto simp: verify_one_result_def event_outcome_def both_event_def status_agree_def
      bool_lower_def)

lemma event_row_only_left: "only_left e \<Longrightarrow> event_row e = None"
  by (cases e) auto

text \<open>C1: verifying a run against a well-formed registry, when the run has no two
  results for the same test, prints exactly the rows of the specification's merge-join of
  the registry's tests with the sorted results, except the events for registry tests the
  run did not report, and ends without error.\<close>

theorem verify_results_refines_merge_join:
  assumes wf: "reg_wf reg" and ne: "results \<noteq> []" and dk: "distinct (map tc_key results)"
  shows "verify_results False reg results =
    ([], List.map_filter event_row
           (merge_join tc_key tc_key status_agree (reg_test_list reg) (sort_key tc_key results)), None)"
proof -
  let ?ys = "sort_key tc_key results"
  let ?ev = "\<lambda>r. case find (\<lambda>x. tc_key x = tc_key r) (reg_test_list reg) of
               None \<Rightarrow> OnlyRight (tc_key r) r | Some x \<Rightarrow> both_event status_agree (tc_key r) x r"
  have sl: "sorted_wrt (<) (map tc_key (reg_test_list reg))"
    using wf by (rule sorted_reg_test_list)
  have sr: "sorted_wrt (<) (map tc_key ?ys)"
    using dk by (rule sort_key_strict)
  have ev: "?ev r = (case getTest reg (suite r) (name r) of
               None \<Rightarrow> OnlyRight (tc_key r) r | Some x \<Rightarrow> both_event status_agree (tc_key r) x r)" for r
    using find_reg_test_list[OF wf, of "suite r" "name r"] by (simp add: tc_key_def)
  have some: "event_row (?ev r) \<noteq> None" for r
    by (simp add: ev both_event_def split: option.splits)
  have row: "verify_one_result (getTest reg (suite r) (name r)) (Some r) = Inr (the (event_row (?ev r)))" for r
  proof -
    have "verify_one_result (getTest reg (suite r) (name r)) (Some r) = event_outcome (?ev r)"
      by (simp add: ev verify_one_result_event[where k = "tc_key r"])
    also have "\<dots> = Inr (the (event_row (?ev r)))"
      using some[of r] by (cases "event_row (?ev r)") (simp_all add: event_outcome_def)
    finally show ?thesis .
  qed
  have "List.map_filter event_row (merge_join tc_key tc_key status_agree (reg_test_list reg) ?ys) =
        List.map_filter event_row (filter (\<lambda>e. \<not> only_left e)
          (merge_join tc_key tc_key status_agree (reg_test_list reg) ?ys))"
    by (rule map_filter_drop_None[symmetric]) (auto simp: event_row_only_left)
  also have "\<dots> = List.map_filter event_row (map ?ev ?ys)"
    using merge_join_right_side[OF sl sr] by simp
  also have "\<dots> = map (\<lambda>r. the (event_row (?ev r))) ?ys"
    using some by (intro map_filter_map_Some) blast
  finally have spec: "List.map_filter event_row (merge_join tc_key tc_key status_agree (reg_test_list reg) ?ys) =
      map (\<lambda>r. the (event_row (?ev r))) ?ys" .
  have "print_rows (\<lambda>r. verify_one_result (getTest reg (suite r) (name r)) (Some r)) ?ys =
        (map (\<lambda>r. the (event_row (?ev r))) ?ys, None)"
    using row by (intro print_rows_all_ok) blast
  with ne spec show ?thesis
    by (simp add: verify_results_def)
qed

lemma verify_one_result_left:
  "verify_one_result (Some t) oy =
     event_outcome (case oy of None \<Rightarrow> OnlyLeft k t | Some y \<Rightarrow> both_event status_agree k t y)"
  by (cases oy) (auto simp: verify_one_result_def event_outcome_def both_event_def status_agree_def
      bool_lower_def)

text \<open>C2: comparing two well-formed registries prints, after the module comparison,
  the rows of the specification's merge-join restricted to the first registry's tests,
  stopping with \<^verbatim>\<open>AttributeError\<close> at the first test the second registry lacks.\<close>

theorem compare_registry_refines_merge_join:
  assumes wf1: "reg_wf reg1" and wf2: "reg_wf reg2" and ne: "listTestNames reg1 \<noteq> []"
  shows "compare_registry reg1 reg2 =
    (case print_rows event_outcome
            (filter (\<lambda>e. \<not> only_right e)
               (merge_join tc_key tc_key status_agree (reg_test_list reg1) (reg_test_list reg2))) of
       (rows, err) \<Rightarrow> (compare_meta reg1 reg2, rows, err))"
proof -
  let ?l1 = "reg_test_list reg1" and ?l2 = "reg_test_list reg2"
  let ?ev = "\<lambda>x. case find (\<lambda>y. tc_key y = tc_key x) ?l2 of
               None \<Rightarrow> OnlyLeft (tc_key x) x | Some y \<Rightarrow> both_event status_agree (tc_key x) x y"
  have spec: "filter (\<lambda>e. \<not> only_right e) (merge_join tc_key tc_key status_agree ?l1 ?l2) = map ?ev ?l1"
    using merge_join_left_side[OF sorted_reg_test_list[OF wf1] sorted_reg_test_list[OF wf2]] by simp
  have step: "(\<lambda>(s, t, st). verify_one_result (getTest reg1 s t) (getTest reg2 s t))
                (suite x, name x, status x) = event_outcome (?ev x)" if "x \<in> set ?l1" for x
  proof -
    from that wf1 have "getTest reg1 (suite x) (name x) = Some x"
      by (simp add: mem_reg_test_list)
    then show ?thesis
      using find_reg_test_list[OF wf2, of "suite x" "name x"]
      by (simp add: verify_one_result_left[where k = "tc_key x"] tc_key_def)
  qed
  have "print_rows (\<lambda>(s, t, st). verify_one_result (getTest reg1 s t) (getTest reg2 s t))
          (sort (listTestNames reg1)) = print_rows event_outcome (map ?ev ?l1)"
  proof -
    have "print_rows (\<lambda>(s, t, st). verify_one_result (getTest reg1 s t) (getTest reg2 s t))
            (map (\<lambda>t. (suite t, name t, status t)) ?l1) =
          print_rows (\<lambda>x. event_outcome (?ev x)) ?l1"
      using step by (intro print_rows_map_cong) blast
    moreover have "print_rows event_outcome (map ?ev ?l1) = print_rows (\<lambda>x. event_outcome (?ev x)) ?l1"
      by (intro print_rows_map_cong) simp
    moreover have "sort (listTestNames reg1) = map (\<lambda>t. (suite t, name t, status t)) ?l1"
      by (simp only: sort_listTestNames reg_test_list_listTestNames[OF wf1])
    ultimately show ?thesis
      by simp
  qed
  with ne spec show ?thesis
    by (simp add: compare_registry_def Let_def)
qed

section \<open>Properties of the comparisons\<close>

lemma check_rpms_rpm:
  "\<exists>m\<in>set ms. mv_type m = ''rpm'' \<Longrightarrow> check_rpms ms = ([], Some CalledProcessError)"
  by (induction ms) (auto simp: compareSystemVersion_def)

lemma sort_key_Cons_ex:
  "xs \<noteq> [] \<Longrightarrow> \<exists>y ys. sort_key f xs = y # ys"
  by (metis length_0_conv length_sort neq_Nil_conv)

text \<open>C3: the module-version comparison prints, after its two header rows, a
  subsequence of the rows of the specification's merge-join of the two sorted lists,
  missing at most one of them.\<close>

theorem compare_meta_refines_merge_join:
  "\<exists>rows. compare_meta reg1 reg2 =
       print_modversions ''Module name'' (reg_name reg1) (reg_name reg2) False #
       print_modversions ''-----------'' ''----------'' ''----------'' False # rows \<and>
     subseq rows (spec_mv_rows (sort_key mv_key (reg_moduleversions reg1))
                               (sort_key mv_key (reg_moduleversions reg2))) \<and>
     length (spec_mv_rows (sort_key mv_key (reg_moduleversions reg1))
                          (sort_key mv_key (reg_moduleversions reg2))) \<le> Suc (length rows)"
  using compare_mv_lists_subseq by (simp add: compare_meta_def)

lemma compare_mv_lists_loses:
  assumes "sorted_wrt (<) (map mv_key s1)" and "sorted_wrt (<) (map mv_key s2)"
  shows "if meta_loses s1 s2 then Suc (length (compare_mv_lists s1 s2)) = length (spec_mv_rows s1 s2)
         else compare_mv_lists s1 s2 = spec_mv_rows s1 s2"
proof (cases s1)
  case Nil
  then show ?thesis by (simp add: compare_mv_lists_def spec_mv_rows_simps meta_loses_def)
next
  case (Cons r1 it1)
  show ?thesis
  proof (cases s2)
    case Nil
    with Cons show ?thesis
      by (simp add: compare_mv_lists_def spec_mv_rows_simps drain_left_def meta_loses_def)
  next
    case Cons2: (Cons r2 it2)
    obtain rows a b where "meta_loop r1 r2 it1 it2 = (rows, a, b)"
      by (cases "meta_loop r1 r2 it1 it2") auto
    with Cons Cons2 assms meta_loop_loses[of r1 r2 it1 it2 rows a b] show ?thesis
      by (auto simp: compare_mv_lists_def split: if_splits)
  qed
qed

text \<open>C4: when each registry's module versions have distinct keys, the module
  comparison prints exactly the specification's merge-join rows unless the iterator loop
  loses an element (\<open>meta_loses\<close>: the first registry records modules and either the
  second records none, or the first's largest entry sorts after the second's, or before it
  with no counterpart); then it prints a subsequence of those rows with exactly one row
  missing.\<close>

theorem compare_meta_drops_counterpart:
  assumes d1: "distinct (map mv_key (reg_moduleversions reg1))"
    and d2: "distinct (map mv_key (reg_moduleversions reg2))"
  shows "\<exists>rows. compare_meta reg1 reg2 =
       print_modversions ''Module name'' (reg_name reg1) (reg_name reg2) False #
       print_modversions ''-----------'' ''----------'' ''----------'' False # rows \<and>
     (if meta_loses (sort_key mv_key (reg_moduleversions reg1)) (sort_key mv_key (reg_moduleversions reg2))
      then subseq rows (spec_mv_rows (sort_key mv_key (reg_moduleversions reg1))
                                     (sort_key mv_key (reg_moduleversions reg2))) \<and>
           Suc (length rows) = length (spec_mv_rows (sort_key mv_key (reg_moduleversions reg1))
                                                    (sort_key mv_key (reg_moduleversions reg2)))
      else rows = spec_mv_rows (sort_key mv_key (reg_moduleversions reg1))
                               (sort_key mv_key (reg_moduleversions reg2)))"
  using compare_mv_lists_loses[OF sort_key_strict[OF d1] sort_key_strict[OF d2]]
    compare_mv_lists_subseq
  by (simp add: compare_meta_def)

text \<open>C28: when both registries' module versions have distinct keys and the largest
  key is the same on both sides, the module-version comparison prints exactly the rows of
  the specification's merge-join.\<close>

theorem compare_meta_complete_same_last:
  assumes d1: "distinct (map mv_key (reg_moduleversions reg1))"
    and d2: "distinct (map mv_key (reg_moduleversions reg2))"
    and ne1: "reg_moduleversions reg1 \<noteq> []" and ne2: "reg_moduleversions reg2 \<noteq> []"
    and last: "mv_key (last (sort_key mv_key (reg_moduleversions reg1))) =
               mv_key (last (sort_key mv_key (reg_moduleversions reg2)))"
  shows "compare_meta reg1 reg2 =
    print_modversions ''Module name'' (reg_name reg1) (reg_name reg2) False #
    print_modversions ''-----------'' ''----------'' ''----------'' False #
    spec_mv_rows (sort_key mv_key (reg_moduleversions reg1)) (sort_key mv_key (reg_moduleversions reg2))"
proof -
  obtain r1 it1 where s1: "sort_key mv_key (reg_moduleversions reg1) = r1 # it1"
    using sort_key_Cons_ex[OF ne1] by blast
  obtain r2 it2 where s2: "sort_key mv_key (reg_moduleversions reg2) = r2 # it2"
    using sort_key_Cons_ex[OF ne2] by blast
  obtain rows a b where ml: "meta_loop r1 r2 it1 it2 = (rows, a, b)"
    by (cases "meta_loop r1 r2 it1 it2") auto
  have "rows @ drain_left a @ drain_right b = spec_mv_rows (r1 # it1) (r2 # it2)"
    using meta_loop_same_last[OF ml] sort_key_strict[OF d1] sort_key_strict[OF d2] last s1 s2
    by simp
  with s1 s2 ml show ?thesis
    by (simp add: compare_meta_def compare_mv_lists_def)
qed

theorem compare_meta_drops_counterpart_witness:
  "\<exists>rows. compare_meta
     \<lparr>reg_name = ''A'', reg_date = (2013, 1, 1), reg_tests = Mapping.empty,
      reg_moduleversions = [XITModuleVersion ''libfoo'' ''1.0'' ''git'']\<rparr>
     \<lparr>reg_name = ''B'', reg_date = (2013, 1, 1), reg_tests = Mapping.empty,
      reg_moduleversions = [XITModuleVersion ''libfoo'' ''1.1'' ''git'']\<rparr> =
     print_modversions ''Module name'' ''A'' ''B'' False #
     print_modversions ''-----------'' ''----------'' ''----------'' False # rows \<and> length rows = 1"
proof -
  have lo: "meta_loses [XITModuleVersion ''libfoo'' ''1.0'' ''git''] [XITModuleVersion ''libfoo'' ''1.1'' ''git'']"
    by (simp add: meta_loses_def XITModuleVersion_def mv_key_def)
  have js: "length (spec_mv_rows [XITModuleVersion ''libfoo'' ''1.0'' ''git''] [XITModuleVersion ''libfoo'' ''1.1'' ''git'']) = 2"
    by (simp add: spec_mv_rows_simps XITModuleVersion_def mv_key_def drain_left_def drain_right_def)
  show ?thesis
    using compare_meta_drops_counterpart[of
        "\<lparr>reg_name = ''A'', reg_date = (2013, 1, 1), reg_tests = Mapping.empty,
           reg_moduleversions = [XITModuleVersion ''libfoo'' ''1.0'' ''git'']\<rparr>"
        "\<lparr>reg_name = ''B'', reg_date = (2013, 1, 1), reg_tests = Mapping.empty,
           reg_moduleversions = [XITModuleVersion ''libfoo'' ''1.1'' ''git'']\<rparr>"] lo js
    by auto
qed

theorem compare_meta_complete_same_last_witness:
  "distinct (map mv_key [XITModuleVersion ''a'' ''1'' ''git'', XITModuleVersion ''b'' ''2'' ''git'']) \<and>
   distinct (map mv_key [XITModuleVersion ''b'' ''2'' ''git'']) \<and>
   compare_meta
     \<lparr>reg_name = ''A'', reg_date = (2013, 1, 1), reg_tests = Mapping.empty,
      reg_moduleversions = [XITModuleVersion ''a'' ''1'' ''git'', XITModuleVersion ''b'' ''2'' ''git'']\<rparr>
     \<lparr>reg_name = ''B'', reg_date = (2013, 1, 1), reg_tests = Mapping.empty,
      reg_moduleversions = [XITModuleVersion ''b'' ''2'' ''git'']\<rparr> =
   print_modversions ''Module name'' ''A'' ''B'' False #
   print_modversions ''-----------'' ''----------'' ''----------'' False #
   spec_mv_rows [XITModuleVersion ''a'' ''1'' ''git'', XITModuleVersion ''b'' ''2'' ''git'']
                [XITModuleVersion ''b'' ''2'' ''git'']"
  using compare_meta_complete_same_last[of
     "\<lparr>reg_name = ''A'', reg_date = (2013, 1, 1), reg_tests = Mapping.empty,
      reg_moduleversions = [XITModuleVersion ''a'' ''1'' ''git'', XITModuleVersion ''b'' ''2'' ''git'']\<rparr>"
     "\<lparr>reg_name = ''B'', reg_date = (2013, 1, 1), reg_tests = Mapping.empty,
      reg_moduleversions = [XITModuleVersion ''b'' ''2'' ''git'']\<rparr>"]
  by (simp add: XITModuleVersion_def mv_key_def)

theorem verify_results_refines_merge_join_witness:
  "reg_wf (addTest \<lparr>suite = ''S'', name = ''a'', status = True, test_bugs = [], test_info = [], test_fixes = []\<rparr>
             (XITTestRegistry ''r'' [] (2013, 1, 1))) \<and>
   [junit_case ''S'' ''b'' [''boom''], junit_case ''S'' ''a'' []] \<noteq> [] \<and>
   distinct (map tc_key [junit_case ''S'' ''b'' [''boom''], junit_case ''S'' ''a'' []]) \<and>
   verify_results False
     (addTest \<lparr>suite = ''S'', name = ''a'', status = True, test_bugs = [], test_info = [], test_fixes = []\<rparr>
        (XITTestRegistry ''r'' [] (2013, 1, 1)))
     [junit_case ''S'' ''b'' [''boom''], junit_case ''S'' ''a'' []] =
   ([], List.map_filter event_row
          (merge_join tc_key tc_key status_agree
             (reg_test_list (addTest \<lparr>suite = ''S'', name = ''a'', status = True, test_bugs = [],
                 test_info = [], test_fixes = []\<rparr> (XITTestRegistry ''r'' [] (2013, 1, 1))))
             (sort_key tc_key [junit_case ''S'' ''b'' [''boom''], junit_case ''S'' ''a'' []])), None)"
proof -
  have h1: "reg_wf (addTest \<lparr>suite = ''S'', name = ''a'', status = True, test_bugs = [], test_info = [],
      test_fixes = []\<rparr> (XITTestRegistry ''r'' [] (2013, 1, 1)))"
    by code_simp
  have h3: "distinct (map tc_key [junit_case ''S'' ''b'' [''boom''], junit_case ''S'' ''a'' []])"
    by (simp add: tc_key_def junit_case_def JUnitTestResult_def addFailure_def)
  show ?thesis
    using verify_results_refines_merge_join[OF h1 _ h3] h1 h3 by simp
qed

theorem compare_registry_refines_merge_join_witness:
  "reg_wf (addTest \<lparr>suite = ''S'', name = ''a'', status = True, test_bugs = [], test_info = [], test_fixes = []\<rparr>
             (XITTestRegistry ''r1'' [] (2013, 1, 1))) \<and>
   reg_wf (XITTestRegistry ''r2'' [] (2013, 1, 1)) \<and>
   listTestNames (addTest \<lparr>suite = ''S'', name = ''a'', status = True, test_bugs = [], test_info = [],
      test_fixes = []\<rparr> (XITTestRegistry ''r1'' [] (2013, 1, 1))) \<noteq> [] \<and>
   compare_registry
     (addTest \<lparr>suite = ''S'', name = ''a'', status = True, test_bugs = [], test_info = [], test_fixes = []\<rparr>
        (XITTestRegistry ''r1'' [] (2013, 1, 1)))
     (XITTestRegistry ''r2'' [] (2013, 1, 1)) =
   (case print_rows event_outcome
           (filter (\<lambda>e. \<not> only_right e)
              (merge_join tc_key tc_key status_agree
                 (reg_test_list (addTest \<lparr>suite = ''S'', name = ''a'', status = True, test_bugs = [],
                    test_info = [], test_fixes = []\<rparr> (XITTestRegistry ''r1'' [] (2013, 1, 1))))
                 (reg_test_list (XITTestRegistry ''r2'' [] (2013, 1, 1))))) of
      (rows, err) \<Rightarrow>
        (compare_meta
           (addTest \<lparr>suite = ''S'', name = ''a'', status = True, test_bugs = [], test_info = [],
              test_fixes = []\<rparr> (XITTestRegistry ''r1'' [] (2013, 1, 1)))
           (XITTestRegistry ''r2'' [] (2013, 1, 1)), rows, err))"
proof -
  have h1: "reg_wf (addTest \<lparr>suite = ''S'', name = ''a'', status = True, test_bugs = [], test_info = [],
      test_fixes = []\<rparr> (XITTestRegistry ''r1'' [] (2013, 1, 1)))"
    by code_simp
  have h2: "reg_wf (XITTestRegistry ''r2'' [] (2013, 1, 1))"
    by code_simp
  have h3: "listTestNames (addTest \<lparr>suite = ''S'', name = ''a'', status = True, test_bugs = [], test_info = [],
      test_fixes = []\<rparr> (XITTestRegistry ''r1'' [] (2013, 1, 1))) \<noteq> []"
    by code_simp
  show ?thesis
    using compare_registry_refines_merge_join[OF h1 h2 h3] h1 h2 h3 by simp
qed

text \<open>C26: comparing two registries ends in \<^verbatim>\<open>AttributeError\<close> exactly when
  some test of the first registry is missing from the second, and otherwise without
  error.\<close>

theorem compare_registry_error_iff:
  assumes wf1: "reg_wf reg1" and ne: "listTestNames reg1 \<noteq> []"
  shows "snd (snd (compare_registry reg1 reg2)) =
    (if \<forall>(s, n, b)\<in>set (listTestNames reg1). getTest reg2 s n \<noteq> None then None
     else Some AttributeError)"
proof -
  let ?f = "\<lambda>(s, t, st). verify_one_result (getTest reg1 s t) (getTest reg2 s t)"
  have ok: "(\<exists>r. ?f x = Inr r) \<longleftrightarrow> (case x of (s, n, b) \<Rightarrow> getTest reg2 s n \<noteq> None)"
    and err: "\<forall>e. ?f x = Inl e \<longrightarrow> e = AttributeError"
    if "x \<in> set (listTestNames reg1)" for x
  proof -
    obtain s n b where x: "x = (s, n, b)" by (cases x) auto
    with that wf1 obtain t where "getTest reg1 s n = Some t"
      by (auto simp: mem_listTestNames)
    with x show "(\<exists>r. ?f x = Inr r) \<longleftrightarrow> (case x of (s, n, b) \<Rightarrow> getTest reg2 s n \<noteq> None)"
      and "\<forall>e. ?f x = Inl e \<longrightarrow> e = AttributeError"
      by (auto simp: verify_one_result_def split: option.splits)
  qed
  have "snd (print_rows ?f (listTestNames reg1)) =
        (if \<forall>x\<in>set (listTestNames reg1). \<exists>r. ?f x = Inr r then None else Some AttributeError)"
    using err by (intro print_rows_single_error) blast
  also have "\<dots> = (if \<forall>(s, n, b)\<in>set (listTestNames reg1). getTest reg2 s n \<noteq> None then None
                   else Some AttributeError)"
  proof -
    have "(\<forall>x\<in>set (listTestNames reg1). \<exists>r. ?f x = Inr r) \<longleftrightarrow>
          (\<forall>x\<in>set (listTestNames reg1). case x of (s, n, b) \<Rightarrow> getTest reg2 s n \<noteq> None)"
      using ok by blast
    then show ?thesis by (simp add: case_prod_beta)
  qed
  finally show ?thesis
    using ne by (simp add: compare_registry_def Let_def sort_listTestNames split: prod.splits)
qed

theorem compare_registry_error_iff_witness:
  "reg_wf (addTest \<lparr>suite = ''S'', name = ''a'', status = True, test_bugs = [], test_info = [], test_fixes = []\<rparr>
             (XITTestRegistry ''r1'' [] (2013, 1, 1))) \<and>
   listTestNames (addTest \<lparr>suite = ''S'', name = ''a'', status = True, test_bugs = [], test_info = [],
      test_fixes = []\<rparr> (XITTestRegistry ''r1'' [] (2013, 1, 1))) \<noteq> [] \<and>
   snd (snd (compare_registry
     (addTest \<lparr>suite = ''S'', name = ''a'', status = True, test_bugs = [], test_info = [], test_fixes = []\<rparr>
        (XITTestRegistry ''r1'' [] (2013, 1, 1)))
     (XITTestRegistry ''r2'' [] (2013, 1, 1)))) = Some AttributeError"
proof -
  have h1: "reg_wf (addTest \<lparr>suite = ''S'', name = ''a'', status = True, test_bugs = [], test_info = [],
      test_fixes = []\<rparr> (XITTestRegistry ''r1'' [] (2013, 1, 1)))"
    by code_simp
  have h2: "listTestNames (addTest \<lparr>suite = ''S'', name = ''a'', status = True, test_bugs = [], test_info = [],
      test_fixes = []\<rparr> (XITTestRegistry ''r1'' [] (2013, 1, 1))) \<noteq> []"
    by code_simp
  have h3: "\<not> (\<forall>(s, n, b)\<in>set (listTestNames (addTest \<lparr>suite = ''S'', name = ''a'', status = True,
      test_bugs = [], test_info = [], test_fixes = []\<rparr> (XITTestRegistry ''r1'' [] (2013, 1, 1)))).
      getTest (XITTestRegistry ''r2'' [] (2013, 1, 1)) s n \<noteq> None)"
    by code_simp
  show ?thesis
    using compare_registry_error_iff[OF h1 h2, of "XITTestRegistry ''r2'' [] (2013, 1, 1)"] h1 h2 h3
    by simp
qed

text \<open>C27: \<^verbatim>\<open>verify --check-all\<close> against a registry that records an rpm
  module version always fails with \<^verbatim>\<open>CalledProcessError\<close> before printing any test
  row, because \<^verbatim>\<open>compareSystemVersion\<close> reads the exit code before the process
  has finished.\<close>

theorem verify_check_all_rpm_crash:
  assumes "results \<noteq> []" and "\<exists>m\<in>set (reg_moduleversions reg). mv_type m = ''rpm''"
  shows "fst (snd (verify_results True reg results)) = [] \<and>
    snd (snd (verify_results True reg results)) = Some CalledProcessError"
  using assms by (simp add: verify_results_def check_installed_rpms_def check_rpms_rpm)

theorem verify_check_all_rpm_crash_witness:
  "[junit_case ''S'' ''a'' []] \<noteq> [] \<and>
   (\<exists>m\<in>set [XITModuleVersion ''xorg-x11-drv-evdev'' ''2.7.3'' ''rpm'']. mv_type m = ''rpm'') \<and>
   snd (snd (verify_results True
     \<lparr>reg_name = ''r'', reg_date = (2013, 1, 1), reg_tests = Mapping.empty,
      reg_moduleversions = [XITModuleVersion ''xorg-x11-drv-evdev'' ''2.7.3'' ''rpm'']\<rparr>
     [junit_case ''S'' ''a'' []])) = Some CalledProcessError"
  using verify_check_all_rpm_crash[of "[junit_case ''S'' ''a'' []]"
     "\<lparr>reg_name = ''r'', reg_date = (2013, 1, 1), reg_tests = Mapping.empty,
      reg_moduleversions = [XITModuleVersion ''xorg-x11-drv-evdev'' ''2.7.3'' ''rpm'']\<rparr>"]
  by (simp add: XITModuleVersion_def)


lemma meta_loop_length:
  "meta_loop r1 r2 it1 it2 = (rows, rest1, rest2) \<Longrightarrow>
     length rows + length rest1 + length rest2 \<le> 2 + length it1 + length it2 \<and>
     length it1 \<le> length rows + length rest1 \<and> length it2 \<le> length rows + length rest2"
proof (induction r1 r2 it1 it2 arbitrary: rows rest1 rest2 rule: meta_loop.induct)
  case (1 r1 r2 it1 it2)
  note eq = "1.prems"[unfolded meta_loop.simps[of r1 r2 it1 it2]]
  show ?case
    using eq "1.IH" by (fastforce simp: Let_def cons_row_def split: list.splits prod.splits if_splits)
qed

text \<open>C16: the module table of \<^verbatim>\<open>compare\<close> has, after its two header rows, at
  most one row per module version of the two registries together, and at least one row per
  module version of either registry but one: the loop loses at most one entry.\<close>

theorem compare_meta_length_bounds:
  "length (compare_meta reg1 reg2) \<le> 2 + length (reg_moduleversions reg1) + length (reg_moduleversions reg2) \<and>
   length (reg_moduleversions reg1) + 1 \<le> length (compare_meta reg1 reg2) \<and>
   length (reg_moduleversions reg2) + 1 \<le> length (compare_meta reg1 reg2)"
proof -
  have "length (compare_mv_lists s1 s2) \<le> length s1 + length s2 \<and>
        length s1 \<le> Suc (length (compare_mv_lists s1 s2)) \<and> length s2 \<le> Suc (length (compare_mv_lists s1 s2))"
    for s1 s2
  proof (cases s1)
    case Nil then show ?thesis by (simp add: compare_mv_lists_def drain_right_def)
  next
    case (Cons r1 it1)
    show ?thesis
    proof (cases s2)
      case Nil then show ?thesis using Cons by (simp add: compare_mv_lists_def drain_left_def)
    next
      case (Cons r2 it2)
      obtain rows rest1 rest2 where m: "meta_loop r1 r2 it1 it2 = (rows, rest1, rest2)"
        by (cases "meta_loop r1 r2 it1 it2") auto
      show ?thesis
        using meta_loop_length[OF m] \<open>s1 = r1 # it1\<close> Cons m
        by (simp add: compare_mv_lists_def drain_left_def drain_right_def)
    qed
  qed
  from this[of "sort_key mv_key (reg_moduleversions reg1)" "sort_key mv_key (reg_moduleversions reg2)"]
  show ?thesis
    by (simp add: compare_meta_def)
qed

end
