(* ===== verification/Commands.thy ===== *)
theory Commands
  imports Verify
begin

text \<open>
  The commands of \<^verbatim>\<open>XITTestRegistryCLI\<close> that build or change a registry
  (\<^verbatim>\<open>src/registry/xit.py\<close>): loading the selected registry of a file,
  \<^verbatim>\<open>create\<close>, \<^verbatim>\<open>merge\<close>, the \<^verbatim>\<open>edit\<close> subcommands and the
  \<^verbatim>\<open>meta\<close> subcommands. Each command is a function from the loaded registry and its
  arguments to \<open>xit_error + xit_registry\<close>: \<open>Inl\<close> is the logged error and
  \<^verbatim>\<open>sys.exit(1)\<close> (or an exception), \<open>Inr\<close> the registry whose serialization
  \<^verbatim>\<open>registry_from_string\<close> writes out. A file is here the list of registries
  \<^verbatim>\<open>fromXML\<close> returns; the XML itself is in \<^theory_text>\<open>Registry_Xml\<close>.
\<close>

section \<open>Loading\<close>

text \<open>\<^verbatim>\<open>load_registry_from_file\<close>: with several registries the one named by
  \<^verbatim>\<open>--regname\<close> (or, without a name, the first); with one registry that one,
  whatever name was asked for; with none, an error.\<close>

definition load_registry_from_file :: "xit_registry list \<Rightarrow> string option \<Rightarrow> xit_error + xit_registry" where
  "load_registry_from_file regs regname =
     (if 1 < length regs then
        (case regname of
           Some n \<Rightarrow> (case find (\<lambda>r. reg_name r = n) regs of
                       Some r \<Rightarrow> Inr r
                     | None \<Rightarrow> Inl (ExitRegistryNotFound n))
         | None \<Rightarrow> Inr (hd regs))
      else if regs = [] then Inl ExitParseFailed
      else Inr (hd regs))"

section \<open>Editing one test case\<close>

text \<open>
  The edit handlers look the test up with \<^verbatim>\<open>getTest\<close> and mutate the object the
  registry's dictionary holds; \<open>put_test\<close> writes the mutated test back under the key
  it was found at, which is what the aliasing amounts to.
\<close>

definition put_test :: "string \<Rightarrow> string \<Rightarrow> xit_test \<Rightarrow> xit_registry \<Rightarrow> xit_registry" where
  "put_test s n t r =
     (case Mapping.lookup (reg_tests r) s of
        None \<Rightarrow> r
      | Some d \<Rightarrow> r\<lparr>reg_tests := Mapping.update s (Mapping.update n t d) (reg_tests r)\<rparr>)"

definition edit_test ::
  "xit_registry \<Rightarrow> string \<Rightarrow> string \<Rightarrow> (xit_test \<Rightarrow> xit_error + xit_test) \<Rightarrow> xit_error + xit_registry" where
  "edit_test reg s n f =
     (case getTest reg s n of
        None \<Rightarrow> Inl (ExitInvalidTestName s n)
      | Some t \<Rightarrow> (case f t of Inl e \<Rightarrow> Inl e | Inr t' \<Rightarrow> Inr (put_test s n t' reg)))"

definition add_bug :: "xit_registry \<Rightarrow> string \<Rightarrow> string \<Rightarrow> string \<Rightarrow> xit_error + xit_registry" where
  "add_bug reg s n url = edit_test reg s n (\<lambda>t. Inr (addBug (XITBug ''bugzilla'' url) t))"

definition rm_bug :: "xit_registry \<Rightarrow> string \<Rightarrow> string \<Rightarrow> string \<Rightarrow> xit_error + xit_registry" where
  "rm_bug reg s n url = edit_test reg s n (\<lambda>t. Inr (removeBug (XITBug ''bugzilla'' url) t))"

definition add_fix ::
  "xit_registry \<Rightarrow> string \<Rightarrow> string \<Rightarrow> string \<Rightarrow> string \<Rightarrow> extra_args \<Rightarrow> xit_error + xit_registry" where
  "add_fix reg s n ty text ea =
     edit_test reg s n (\<lambda>t. case fix_createFromType ty text ea of
                             Inl e \<Rightarrow> Inl e
                           | Inr f \<Rightarrow> Inr (addFix f t))"

text \<open>\<^verbatim>\<open>if args.repo:\<close> is false for a missing and for an empty repository.\<close>

definition add_commit ::
  "xit_registry \<Rightarrow> string \<Rightarrow> string \<Rightarrow> string \<Rightarrow> string option \<Rightarrow> xit_error + xit_registry" where
  "add_commit reg s n sha1 repo =
     (let extra = (case repo of
                     Some r \<Rightarrow> if r = [] then Mapping.empty else Mapping.update ''repo'' r Mapping.empty
                   | None \<Rightarrow> Mapping.empty)
      in add_fix reg s n ''git'' sha1 extra)"

definition add_rpm :: "xit_registry \<Rightarrow> string \<Rightarrow> string \<Rightarrow> string \<Rightarrow> xit_error + xit_registry" where
  "add_rpm reg s n rpm = add_fix reg s n ''rpm'' rpm Mapping.empty"

definition rm_fix :: "xit_registry \<Rightarrow> string \<Rightarrow> string \<Rightarrow> string \<Rightarrow> string \<Rightarrow> xit_error + xit_registry" where
  "rm_fix reg s n ty text =
     edit_test reg s n (\<lambda>t. case fix_createFromType ty text Mapping.empty of
                             Inl e \<Rightarrow> Inl e
                           | Inr f \<Rightarrow> Inr (removeFix f t))"

definition rm_commit :: "xit_registry \<Rightarrow> string \<Rightarrow> string \<Rightarrow> string \<Rightarrow> xit_error + xit_registry" where
  "rm_commit reg s n sha1 = rm_fix reg s n ''git'' sha1"

definition rm_rpm :: "xit_registry \<Rightarrow> string \<Rightarrow> string \<Rightarrow> string \<Rightarrow> xit_error + xit_registry" where
  "rm_rpm reg s n rpm = rm_fix reg s n ''rpm'' rpm"

text \<open>\<^verbatim>\<open>set_status\<close>: the dictionary of accepted words, looked up as given.\<close>

definition status_words :: "(string \<times> bool) list" where
  "status_words = [(''true'', True), (''false'', False), (''success'', True), (''failure'', False)]"

definition set_status :: "xit_registry \<Rightarrow> string \<Rightarrow> string \<Rightarrow> string \<Rightarrow> xit_error + xit_registry" where
  "set_status reg s n st =
     edit_test reg s n (\<lambda>t. case map_of status_words st of
                             None \<Rightarrow> Inl ExitInvalidStatus
                           | Some b \<Rightarrow> Inr (t\<lparr>status := b\<rparr>))"

text \<open>The \<^verbatim>\<open>edit\<close> subcommands as argparse dispatches them.\<close>

datatype edit_cmd =
    AddBugCmd string
  | RmBugCmd string
  | AddCommitCmd string "string option"
  | RmCommitCmd string
  | AddRpmCmd string
  | RmRpmCmd string
  | SetStatusCmd string

primrec edit_command :: "xit_registry \<Rightarrow> string \<Rightarrow> string \<Rightarrow> edit_cmd \<Rightarrow> xit_error + xit_registry" where
  "edit_command reg s n (AddBugCmd url) = add_bug reg s n url"
| "edit_command reg s n (RmBugCmd url) = rm_bug reg s n url"
| "edit_command reg s n (AddCommitCmd sha1 repo) = add_commit reg s n sha1 repo"
| "edit_command reg s n (RmCommitCmd sha1) = rm_commit reg s n sha1"
| "edit_command reg s n (AddRpmCmd rpm) = add_rpm reg s n rpm"
| "edit_command reg s n (RmRpmCmd rpm) = rm_rpm reg s n rpm"
| "edit_command reg s n (SetStatusCmd st) = set_status reg s n st"

section \<open>Meta information\<close>

text \<open>\<^verbatim>\<open>set_date\<close>: the given date as \<^verbatim>\<open>time.strptime\<close> parses it
  (\<open>parse\<close>, which may raise \<^verbatim>\<open>ValueError\<close>), or today.\<close>

definition set_date ::
  "xit_registry \<Rightarrow> string option \<Rightarrow> (string \<Rightarrow> xit_error + xit_date) \<Rightarrow> xit_date \<Rightarrow> xit_error + xit_registry" where
  "set_date reg date parse now =
     (case date of
        Some d \<Rightarrow> (case parse d of Inl e \<Rightarrow> Inl e | Inr dt \<Rightarrow> Inr (reg\<lparr>reg_date := dt\<rparr>))
      | None \<Rightarrow> Inr (reg\<lparr>reg_date := now\<rparr>))"

text \<open>\<^verbatim>\<open>set_modversion\<close>: \<^verbatim>\<open>not in\<close> compares with \<^verbatim>\<open>__cmp__\<close>, so the
  entry is appended unless the same module, type and version are already recorded.\<close>

definition set_modversion ::
  "xit_registry \<Rightarrow> string \<Rightarrow> string \<Rightarrow> string option \<Rightarrow> xit_error + xit_registry" where
  "set_modversion reg n v ty =
     (let t = (case ty of Some x \<Rightarrow> if x = [] then ''git'' else x | None \<Rightarrow> ''git'');
          mv = XITModuleVersion n v t
      in Inr (reg\<lparr>reg_moduleversions := append_unique mv_key mv (reg_moduleversions reg)\<rparr>))"

section \<open>Merging\<close>

text \<open>\<^verbatim>\<open>merge_add_registries\<close>: the first registry of each file; every test of
  the second that the first lacks is added to the first.\<close>

fun merge_loop ::
  "xit_registry \<Rightarrow> (string \<times> string \<times> bool) list \<Rightarrow> xit_registry \<Rightarrow> xit_error + xit_registry" where
  "merge_loop reg2 [] r = Inr r"
| "merge_loop reg2 ((s, n, st) # xs) r =
     (if getTest r s n = None then
        (case getTest reg2 s n of
           None \<Rightarrow> Inl AttributeError
         | Some t \<Rightarrow> merge_loop reg2 xs (addTest t r))
      else merge_loop reg2 xs r)"

definition merge_add_registries ::
  "xit_registry list \<Rightarrow> xit_registry list \<Rightarrow> xit_error + xit_registry" where
  "merge_add_registries regs1 regs2 =
     (case regs1 of
        [] \<Rightarrow> Inl IndexError
      | reg1 # _ \<Rightarrow>
          (case regs2 of
             [] \<Rightarrow> Inl IndexError
           | reg2 # _ \<Rightarrow> merge_loop reg2 (listTestNames reg2) reg1))"

text \<open>What the merge loop leaves at (s, n) after visiting the keys \<open>K\<close> of the second
  registry: the first registry's test, else the second's if (s, n) was visited.\<close>

abbreviation merged_lookup ::
  "xit_registry \<Rightarrow> xit_registry \<Rightarrow> (string \<times> string) set \<Rightarrow> string \<Rightarrow> string \<Rightarrow> xit_test option" where
  "merged_lookup r reg2 K s n \<equiv>
     (case getTest r s n of Some t \<Rightarrow> Some t | None \<Rightarrow> if (s, n) \<in> K then getTest reg2 s n else None)"

section \<open>Creating\<close>

definition DEFAULT_MODULES :: "string list" where
  "DEFAULT_MODULES = [''xorg-x11-server-Xorg'', ''xorg-x11-drv-evdev'', ''xorg-x11-drv-synaptics'',
     ''xorg-x11-drv-wacom'', ''xorg-x11-drv-mouse'', ''xorg-x11-drv-keyboard'']"

text \<open>\<^verbatim>\<open>results_dict\<close>: the results grouped by suite, each group in input order.\<close>

definition group_results :: "junit_result list \<Rightarrow> (string, junit_result list) mapping" where
  "group_results rs =
     fold (\<lambda>r d. Mapping.update (suite r)
                   ((case Mapping.lookup d (suite r) of None \<Rightarrow> [] | Some l \<Rightarrow> l) @ [r]) d)
          rs Mapping.empty"

text \<open>The module versions of \<^verbatim>\<open>--auto-modversion rpm\<close>, stopping at the first
  failing \<^verbatim>\<open>rpm -q\<close>.\<close>

fun auto_modversions ::
  "(string \<Rightarrow> int \<times> string) \<Rightarrow> string list \<Rightarrow> xit_error + xit_module_version list" where
  "auto_modversions rpm_q [] = Inr []"
| "auto_modversions rpm_q (m # ms) =
     (case getSystemVersion rpm_q m ''rpm'' of
        Inl e \<Rightarrow> Inl e
      | Inr mv \<Rightarrow> (case auto_modversions rpm_q ms of Inl e \<Rightarrow> Inl e | Inr mvs \<Rightarrow> Inr (mv # mvs)))"

text \<open>The loop over the sorted suites and, within each, the sorted results; each result
  becomes \<^verbatim>\<open>XITTest(suite, r.name, str(r.status).lower())\<close>.\<close>

fun add_results :: "xit_registry \<Rightarrow> (string \<times> junit_result list) list \<Rightarrow> xit_error + xit_registry" where
  "add_results reg [] = Inr reg"
| "add_results reg ((s, rs) # gs) =
     (let step = (\<lambda>acc r. case acc of
                    Inl e \<Rightarrow> Inl e
                  | Inr reg' \<Rightarrow> (case XITTest s (name r) (StatusStr (bool_lower (status r))) of
                                   Inl e \<Rightarrow> Inl e
                                 | Inr t \<Rightarrow> Inr (addTest t reg')))
      in case fold (\<lambda>r acc. step acc r) (sort_key tc_key rs) (Inr reg) of
           Inl e \<Rightarrow> Inl e
         | Inr reg' \<Rightarrow> add_results reg' gs)"

text \<open>\<^verbatim>\<open>os.path.basename(path).split(".xml")[0]\<close>.\<close>

definition basename :: "string \<Rightarrow> string" where
  "basename p = rev (takeWhile (\<lambda>c. c \<noteq> CHR ''/'') (rev p))"

fun split_first :: "string \<Rightarrow> string \<Rightarrow> string" where
  "split_first sep [] = []"
| "split_first sep (c # cs) = (if sep \<noteq> [] \<and> prefix sep (c # cs) then [] else c # split_first sep cs)"

definition results_reg_name :: "string option \<Rightarrow> string \<Rightarrow> string" where
  "results_reg_name name_arg path =
     (case name_arg of Some n \<Rightarrow> n | None \<Rightarrow> split_first ''.xml'' (basename path))"

definition create_registry ::
  "junit_result list \<Rightarrow> string \<Rightarrow> string option \<Rightarrow> string list option \<Rightarrow>
     (string \<Rightarrow> int \<times> string) \<Rightarrow> xit_date \<Rightarrow> xit_error + xit_registry" where
  "create_registry results path name_arg auto rpm_q now =
     (let reg = XITTestRegistry (results_reg_name name_arg path) [] now
      in case (if auto = Some [''rpm''] then auto_modversions rpm_q DEFAULT_MODULES else Inr []) of
           Inl e \<Rightarrow> Inl e
         | Inr mvs \<Rightarrow> add_results (reg\<lparr>reg_moduleversions := mvs\<rparr>) (sorted_items (group_results results)))"


text \<open>The test case \<^verbatim>\<open>create\<close> makes of a result.\<close>

abbreviation result_test :: "junit_result \<Rightarrow> xit_test" where
  "result_test r \<equiv> \<lparr>suite = suite r, name = name r, status = status r,
                     test_bugs = [], test_info = [], test_fixes = []\<rparr>"

section \<open>Properties of the commands\<close>

lemma inj_bug_key: "inj bug_key"
  by (auto simp: inj_def bug_key_def XITBug_def)

lemma inj_mv_key: "inj mv_key"
  by (auto simp: inj_def mv_key_def)

lemma put_test_addTest:
  "getTest r s n = Some t0 \<Longrightarrow> suite t = s \<Longrightarrow> name t = n \<Longrightarrow> put_test s n t r = addTest t r"
  by (auto simp: getTest_def put_test_def addTest_def add_to_tests_def split: option.splits)

lemma put_test_same: "getTest r s n = Some t \<Longrightarrow> put_test s n t r = r"
  by (auto simp: getTest_def put_test_def update_lookup_same split: option.splits)

lemma edit_test_Inr:
  "edit_test reg s n f = Inr reg' \<longleftrightarrow>
     (\<exists>t t'. getTest reg s n = Some t \<and> f t = Inr t' \<and> reg' = put_test s n t' reg)"
  by (auto simp: edit_test_def split: option.splits sum.splits)

lemma edit_test_None: "getTest reg s n = None \<Longrightarrow> edit_test reg s n f = Inl (ExitInvalidTestName s n)"
  by (simp add: edit_test_def)

lemmas edit_command_defs = add_bug_def rm_bug_def add_fix_def add_commit_def add_rpm_def
  rm_fix_def rm_commit_def rm_rpm_def set_status_def

lemmas annotation_op_defs = addBug_def removeBug_def addFix_def removeFix_def

lemma annotation_ops_key [simp]:
  "suite (addBug b t) = suite t" "name (addBug b t) = name t"
  "suite (removeBug b t) = suite t" "name (removeBug b t) = name t"
  "suite (addFix f t) = suite t" "name (addFix f t) = name t"
  "suite (removeFix f t) = suite t" "name (removeFix f t) = name t"
  by (simp_all add: annotation_op_defs)

lemma edit_command_Inr:
  "edit_command reg s n c = Inr reg' \<Longrightarrow>
     \<exists>t t'. getTest reg s n = Some t \<and> reg' = put_test s n t' reg \<and>
       suite t' = suite t \<and> name t' = name t \<and> (test_wf t \<longrightarrow> test_wf t')"
  by (cases c) (fastforce simp: edit_command_defs Let_def edit_test_Inr fix_createFromType_def test_wf_ops
      split: option.splits)+

lemma merged_lookup_addTest:
  assumes "getTest r s n = None" "getTest reg2 s n = Some t" "suite t = s" "name t = n"
  shows "merged_lookup (addTest t r) reg2 K s' n' = merged_lookup r reg2 (insert (s, n) K) s' n'"
  using assms by (cases "s' = s \<and> n' = n") (auto simp: getTest_addTest)

lemma merged_lookup_present:
  "getTest r s n \<noteq> None \<Longrightarrow> merged_lookup r reg2 K s' n' = merged_lookup r reg2 (insert (s, n) K) s' n'"
  by (cases "s' = s \<and> n' = n") (auto split: option.splits)

lemma merge_loop_Inr:
  assumes "\<forall>(s, n, b)\<in>set xs. \<exists>t. getTest reg2 s n = Some t \<and> suite t = s \<and> name t = n"
  shows "\<exists>m. merge_loop reg2 xs r = Inr m \<and>
    (\<forall>s n. getTest m s n = merged_lookup r reg2 ((\<lambda>(s, n, b). (s, n)) ` set xs) s n) \<and>
    reg_name m = reg_name r \<and> reg_date m = reg_date r \<and> reg_moduleversions m = reg_moduleversions r"
  using assms
proof (induction xs arbitrary: r)
  case Nil
  then show ?case by (simp split: option.splits)
next
  case (Cons x xs)
  obtain s n b where x: "x = (s, n, b)" by (cases x)
  from Cons.prems x obtain t where t: "getTest reg2 s n = Some t" "suite t = s" "name t = n" by auto
  define K where "K = (\<lambda>(s, n, b). (s, n)) ` set xs"
  have K: "(\<lambda>(s, n, b). (s, n)) ` set (x # xs) = insert (s, n) K"
    using x by (simp add: K_def)
  show ?case
  proof (cases "getTest r s n = None")
    case True
    obtain m where m: "merge_loop reg2 xs (addTest t r) = Inr m"
      and look: "\<forall>s n. getTest m s n = merged_lookup (addTest t r) reg2 K s n"
      and meta: "reg_name m = reg_name r \<and> reg_date m = reg_date r \<and> reg_moduleversions m = reg_moduleversions r"
      using Cons.IH[of "addTest t r"] Cons.prems unfolding K_def by auto
    have "getTest m s' n' = merged_lookup r reg2 (insert (s, n) K) s' n'" for s' n'
      using look merged_lookup_addTest[OF True t, where K = K and s' = s' and n' = n'] by presburger
    with m meta True t x show ?thesis
      unfolding K by simp
  next
    case False
    obtain m where m: "merge_loop reg2 xs r = Inr m"
      and look: "\<forall>s n. getTest m s n = merged_lookup r reg2 K s n"
      and meta: "reg_name m = reg_name r \<and> reg_date m = reg_date r \<and> reg_moduleversions m = reg_moduleversions r"
      using Cons.IH[of r] Cons.prems unfolding K_def by auto
    have "getTest m s' n' = merged_lookup r reg2 (insert (s, n) K) s' n'" for s' n'
      using look merged_lookup_present[OF False, where K = K and s' = s' and n' = n'] by presburger
    moreover have "merge_loop reg2 (x # xs) r = merge_loop reg2 xs r"
      using False x by auto
    ultimately show ?thesis
      using m meta unfolding K by (intro exI[of _ m]) auto
  qed
qed

lemma reg_wf_merge_loop:
  "reg_wf r \<Longrightarrow> reg_wf reg2 \<Longrightarrow> merge_loop reg2 xs r = Inr m \<Longrightarrow> reg_wf m"
proof (induction reg2 xs r rule: merge_loop.induct)
  case (2 reg2 s n st xs r)
  show ?case
  proof (cases "getTest r s n")
    case None
    then obtain t where t: "getTest reg2 s n = Some t" and rec: "merge_loop reg2 xs (addTest t r) = Inr m"
      using "2.prems"(3) by (auto split: option.splits)
    have "reg_wf (addTest t r)"
      using reg_wf_addTest[OF "2.prems"(1)] reg_wf_getTest[OF "2.prems"(2) t] by simp
    with "2.IH"(1)[OF None t] "2.prems"(2) rec show ?thesis by simp
  next
    case (Some t)
    with "2.IH"(2) "2.prems" show ?thesis by simp
  qed
qed simp

lemma listTestNames_getTest:
  assumes "reg_wf reg2"
  shows "\<forall>(s, n, b)\<in>set (listTestNames reg2). \<exists>t. getTest reg2 s n = Some t \<and> suite t = s \<and> name t = n"
proof (intro ballI)
  fix x assume x: "x \<in> set (listTestNames reg2)"
  obtain s n b where sn: "x = (s, n, b)" by (cases x)
  with x assms obtain t where "getTest reg2 s n = Some t"
    by (auto simp: mem_listTestNames)
  with sn reg_wf_getTest[OF assms this] show "case x of (s, n, b) \<Rightarrow>
      \<exists>t. getTest reg2 s n = Some t \<and> suite t = s \<and> name t = n"
    by simp
qed

lemma listTestNames_keys:
  assumes "reg_wf reg2"
  shows "(s, n) \<in> (\<lambda>(s, n, b). (s, n)) ` set (listTestNames reg2) \<longleftrightarrow> getTest reg2 s n \<noteq> None"
proof
  assume "(s, n) \<in> (\<lambda>(s, n, b). (s, n)) ` set (listTestNames reg2)"
  then show "getTest reg2 s n \<noteq> None"
    using assms by (auto simp: mem_listTestNames)
next
  assume "getTest reg2 s n \<noteq> None"
  then obtain t where "getTest reg2 s n = Some t" by auto
  with assms have "(s, n, status t) \<in> set (listTestNames reg2)"
    by (simp add: mem_listTestNames)
  then show "(s, n) \<in> (\<lambda>(s, n, b). (s, n)) ` set (listTestNames reg2)"
    by (rule rev_image_eqI) simp
qed

text \<open>C22: an \<^verbatim>\<open>edit\<close> subcommand that succeeds changes only the named test:
  the registry stays well-formed, every other (suite, name) looks up as before, the named
  test is still present, and the registry's name, date and module versions are kept.\<close>

theorem edit_command_frame:
  assumes wf: "reg_wf reg" and ed: "edit_command reg s n c = Inr reg'"
  shows "reg_wf reg' \<and> (\<forall>s' n'. (s', n') \<noteq> (s, n) \<longrightarrow> getTest reg' s' n' = getTest reg s' n') \<and>
    getTest reg' s n \<noteq> None \<and> reg_name reg' = reg_name reg \<and> reg_date reg' = reg_date reg \<and>
    reg_moduleversions reg' = reg_moduleversions reg"
proof -
  obtain t t' where t: "getTest reg s n = Some t" and r': "reg' = put_test s n t' reg"
    and f: "suite t' = suite t" "name t' = name t" "test_wf t \<longrightarrow> test_wf t'"
    using edit_command_Inr[OF ed] by blast
  have key: "suite t = s" "name t = n" "test_wf t"
    using reg_wf_getTest[OF wf t] by auto
  with f have t': "suite t' = s" "name t' = n" "test_wf t'" by auto
  have "reg' = addTest t' reg"
    using r' put_test_addTest[OF t t'(1,2)] by simp
  with wf t' show ?thesis
    by (auto simp: reg_wf_addTest getTest_addTest)
qed

theorem edit_command_frame_witness:
  "reg_wf (addTest \<lparr>suite = ''S'', name = ''a'', status = True, test_bugs = [], test_info = [], test_fixes = []\<rparr> (XITTestRegistry ''r'' [] (2013, 1, 1))) \<and> edit_command (addTest \<lparr>suite = ''S'', name = ''a'', status = True, test_bugs = [], test_info = [], test_fixes = []\<rparr> (XITTestRegistry ''r'' [] (2013, 1, 1))) ''S'' ''a'' (SetStatusCmd ''false'') = Inr (put_test ''S'' ''a'' \<lparr>suite = ''S'', name = ''a'', status = False, test_bugs = [], test_info = [], test_fixes = []\<rparr> (addTest \<lparr>suite = ''S'', name = ''a'', status = True, test_bugs = [], test_info = [], test_fixes = []\<rparr> (XITTestRegistry ''r'' [] (2013, 1, 1)))) \<and>
   reg_wf (put_test ''S'' ''a'' \<lparr>suite = ''S'', name = ''a'', status = False, test_bugs = [], test_info = [], test_fixes = []\<rparr> (addTest \<lparr>suite = ''S'', name = ''a'', status = True, test_bugs = [], test_info = [], test_fixes = []\<rparr> (XITTestRegistry ''r'' [] (2013, 1, 1))))"
proof -
  have wf: "reg_wf (addTest \<lparr>suite = ''S'', name = ''a'', status = True, test_bugs = [], test_info = [], test_fixes = []\<rparr> (XITTestRegistry ''r'' [] (2013, 1, 1)))" by code_simp
  have ed: "edit_command (addTest \<lparr>suite = ''S'', name = ''a'', status = True, test_bugs = [], test_info = [], test_fixes = []\<rparr> (XITTestRegistry ''r'' [] (2013, 1, 1))) ''S'' ''a'' (SetStatusCmd ''false'') = Inr (put_test ''S'' ''a'' \<lparr>suite = ''S'', name = ''a'', status = False, test_bugs = [], test_info = [], test_fixes = []\<rparr> (addTest \<lparr>suite = ''S'', name = ''a'', status = True, test_bugs = [], test_info = [], test_fixes = []\<rparr> (XITTestRegistry ''r'' [] (2013, 1, 1))))"
    by (simp add: set_status_def edit_test_def getTest_addTest status_words_def)
  show ?thesis
    using edit_command_frame[OF wf ed] wf ed by simp
qed

text \<open>C29: every \<^verbatim>\<open>edit\<close> subcommand on a (suite, name) the registry does not hold
  fails with the invalid-test-name exit, before it looks at its own argument (so an invalid
  status word on an unknown test reports the test, not the status).\<close>

theorem edit_command_unknown_test:
  "getTest reg s n = None \<Longrightarrow> edit_command reg s n c = Inl (ExitInvalidTestName s n)"
  by (cases c) (simp_all add: edit_command_defs Let_def edit_test_None)

theorem edit_command_unknown_test_witness:
  "getTest (addTest \<lparr>suite = ''S'', name = ''a'', status = True, test_bugs = [], test_info = [], test_fixes = []\<rparr> (XITTestRegistry ''r'' [] (2013, 1, 1))) ''S'' ''zz'' = None \<and>
   edit_command (addTest \<lparr>suite = ''S'', name = ''a'', status = True, test_bugs = [], test_info = [], test_fixes = []\<rparr> (XITTestRegistry ''r'' [] (2013, 1, 1))) ''S'' ''zz'' (SetStatusCmd ''bogus'') = Inl (ExitInvalidTestName ''S'' ''zz'')"
proof -
  have h: "getTest (addTest \<lparr>suite = ''S'', name = ''a'', status = True, test_bugs = [], test_info = [], test_fixes = []\<rparr> (XITTestRegistry ''r'' [] (2013, 1, 1))) ''S'' ''zz'' = None"
    by (simp add: getTest_addTest getTest_empty)
  show ?thesis
    using edit_command_unknown_test[OF h, of "SetStatusCmd ''bogus''"] h by simp
qed

text \<open>C30: \<^verbatim>\<open>edit set-status\<close> on an existing test accepts exactly the four
  lower-case words true, false, success and failure; any other word, \<^verbatim>\<open>True\<close> included,
  is the invalid-status exit.\<close>

theorem set_status_vocabulary:
  "getTest reg s n = Some t \<Longrightarrow>
     set_status reg s n st = Inl ExitInvalidStatus \<longleftrightarrow> st \<notin> {''true'', ''false'', ''success'', ''failure''}"
  by (auto simp: set_status_def edit_test_def status_words_def)

theorem set_status_vocabulary_witness:
  "getTest (addTest \<lparr>suite = ''S'', name = ''a'', status = True, test_bugs = [], test_info = [], test_fixes = []\<rparr> (XITTestRegistry ''r'' [] (2013, 1, 1))) ''S'' ''a'' = Some \<lparr>suite = ''S'', name = ''a'', status = True, test_bugs = [], test_info = [], test_fixes = []\<rparr> \<and> set_status (addTest \<lparr>suite = ''S'', name = ''a'', status = True, test_bugs = [], test_info = [], test_fixes = []\<rparr> (XITTestRegistry ''r'' [] (2013, 1, 1))) ''S'' ''a'' ''True'' = Inl ExitInvalidStatus"
proof -
  have h: "getTest (addTest \<lparr>suite = ''S'', name = ''a'', status = True, test_bugs = [], test_info = [], test_fixes = []\<rparr> (XITTestRegistry ''r'' [] (2013, 1, 1))) ''S'' ''a'' = Some \<lparr>suite = ''S'', name = ''a'', status = True, test_bugs = [], test_info = [], test_fixes = []\<rparr>"
    by (simp add: getTest_addTest)
  show ?thesis
    using set_status_vocabulary[OF h, of "''True''"] h by simp
qed

text \<open>C31: removing a bug URL or a commit that the test does not list leaves the
  registry unchanged (a silent no-op, not an error).\<close>

theorem rm_absent_unchanged:
  assumes "getTest reg s n = Some t"
  shows "(XITBug ''bugzilla'' url \<notin> set (test_bugs t) \<longrightarrow> rm_bug reg s n url = Inr reg) \<and>
    ((''git'', sha1) \<notin> fix_key ` set (test_fixes t) \<longrightarrow> rm_commit reg s n sha1 = Inr reg)"
proof -
  have "XITBug ''bugzilla'' url \<notin> set (test_bugs t) \<Longrightarrow> removeBug (XITBug ''bugzilla'' url) t = t"
    by (simp add: removeBug_def remove_quiet_absent inj_image_mem_iff[OF inj_bug_key])
  moreover have "(''git'', sha1) \<notin> fix_key ` set (test_fixes t) \<Longrightarrow> removeFix (XITFixGit sha1 Mapping.empty) t = t"
    by (simp add: removeFix_def remove_quiet_absent xit_simps)
  ultimately show ?thesis
    using assms by (simp add: edit_command_defs edit_test_def fix_createFromType_def put_test_same)
qed

theorem rm_absent_unchanged_witness:
  "getTest (addTest \<lparr>suite = ''S'', name = ''a'', status = True, test_bugs = [], test_info = [], test_fixes = []\<rparr> (XITTestRegistry ''r'' [] (2013, 1, 1))) ''S'' ''a'' = Some \<lparr>suite = ''S'', name = ''a'', status = True, test_bugs = [], test_info = [], test_fixes = []\<rparr> \<and> rm_bug (addTest \<lparr>suite = ''S'', name = ''a'', status = True, test_bugs = [], test_info = [], test_fixes = []\<rparr> (XITTestRegistry ''r'' [] (2013, 1, 1))) ''S'' ''a'' ''http://bugs/1'' = Inr (addTest \<lparr>suite = ''S'', name = ''a'', status = True, test_bugs = [], test_info = [], test_fixes = []\<rparr> (XITTestRegistry ''r'' [] (2013, 1, 1))) \<and>
   rm_commit (addTest \<lparr>suite = ''S'', name = ''a'', status = True, test_bugs = [], test_info = [], test_fixes = []\<rparr> (XITTestRegistry ''r'' [] (2013, 1, 1))) ''S'' ''a'' ''abc'' = Inr (addTest \<lparr>suite = ''S'', name = ''a'', status = True, test_bugs = [], test_info = [], test_fixes = []\<rparr> (XITTestRegistry ''r'' [] (2013, 1, 1)))"
proof -
  have h: "getTest (addTest \<lparr>suite = ''S'', name = ''a'', status = True, test_bugs = [], test_info = [], test_fixes = []\<rparr> (XITTestRegistry ''r'' [] (2013, 1, 1))) ''S'' ''a'' = Some \<lparr>suite = ''S'', name = ''a'', status = True, test_bugs = [], test_info = [], test_fixes = []\<rparr>"
    by (simp add: getTest_addTest)
  show ?thesis
    using rm_absent_unchanged[OF h, of "''http://bugs/1''" "''abc''"] h by simp
qed

text \<open>C21: \<^verbatim>\<open>merge --add\<close> of two well-formed registries succeeds with a
  well-formed registry in which every test of the first registry is kept as it was and every
  test only the second has is added; the first registry's name, date and module versions
  are kept.\<close>

theorem merge_add_registries_authority:
  assumes wf1: "reg_wf reg1" and wf2: "reg_wf reg2"
  shows "\<exists>m. merge_add_registries (reg1 # rs1) (reg2 # rs2) = Inr m \<and> reg_wf m \<and>
    (\<forall>s n. getTest m s n = (case getTest reg1 s n of Some t \<Rightarrow> Some t | None \<Rightarrow> getTest reg2 s n)) \<and>
    reg_name m = reg_name reg1 \<and> reg_date m = reg_date reg1 \<and>
    reg_moduleversions m = reg_moduleversions reg1"
proof -
  let ?K = "(\<lambda>(s, n, b). (s, n)) ` set (listTestNames reg2)"
  from merge_loop_Inr[OF listTestNames_getTest[OF wf2], of reg1]
  obtain m where m: "merge_loop reg2 (listTestNames reg2) reg1 = Inr m"
    and look: "\<forall>s n. getTest m s n = merged_lookup reg1 reg2 ?K s n"
    and meta: "reg_name m = reg_name reg1 \<and> reg_date m = reg_date reg1 \<and> reg_moduleversions m = reg_moduleversions reg1"
    by blast
  have "merged_lookup reg1 reg2 ?K s n = (case getTest reg1 s n of Some t \<Rightarrow> Some t | None \<Rightarrow> getTest reg2 s n)"
    for s n
    using listTestNames_keys[OF wf2, of s n] by (cases "getTest reg1 s n") auto
  with look have "\<forall>s n. getTest m s n = (case getTest reg1 s n of Some t \<Rightarrow> Some t | None \<Rightarrow> getTest reg2 s n)"
    by presburger
  moreover have "reg_wf m"
    using reg_wf_merge_loop[OF wf1 wf2 m] .
  ultimately show ?thesis
    using m meta by (simp add: merge_add_registries_def)
qed

theorem merge_add_registries_authority_witness:
  "\<exists>m. merge_add_registries [XITTestRegistry ''r1'' [] (2013, 1, 1)] [(addTest \<lparr>suite = ''S'', name = ''a'', status = True, test_bugs = [], test_info = [], test_fixes = []\<rparr> (XITTestRegistry ''r'' [] (2013, 1, 1)))] = Inr m \<and> reg_wf m \<and>
     getTest m ''S'' ''a'' = Some \<lparr>suite = ''S'', name = ''a'', status = True, test_bugs = [], test_info = [], test_fixes = []\<rparr>"
proof -
  have wf1: "reg_wf (XITTestRegistry ''r1'' [] (2013, 1, 1))" by code_simp
  have wf2: "reg_wf (addTest \<lparr>suite = ''S'', name = ''a'', status = True, test_bugs = [], test_info = [], test_fixes = []\<rparr> (XITTestRegistry ''r'' [] (2013, 1, 1)))" by code_simp
  show ?thesis
    using merge_add_registries_authority[OF wf1 wf2, of "[]" "[]"]
    by (auto simp: getTest_empty getTest_addTest)
qed


section \<open>Properties of create\<close>

lemma lookup_group_fold:
  "Mapping.lookup (fold (\<lambda>r d. Mapping.update (suite r)
       ((case Mapping.lookup d (suite r) of None \<Rightarrow> [] | Some l \<Rightarrow> l) @ [r]) d) rs m) s =
   (case Mapping.lookup m s of
      None \<Rightarrow> if filter (\<lambda>r. suite r = s) rs = [] then None else Some (filter (\<lambda>r. suite r = s) rs)
    | Some l \<Rightarrow> Some (l @ filter (\<lambda>r. suite r = s) rs))"
  by (induction rs arbitrary: m) (auto simp: lookup_update' split: option.splits)

lemma lookup_group_results:
  "Mapping.lookup (group_results rs) s =
     (if filter (\<lambda>r. suite r = s) rs = [] then None else Some (filter (\<lambda>r. suite r = s) rs))"
  by (simp add: group_results_def lookup_group_fold lookup_empty)

lemma keys_group_results: "Mapping.keys (group_results rs) = suite ` set rs"
  by (auto simp: keys_dom_lookup lookup_group_results filter_empty_conv split: if_splits)

lemma mem_sorted_items_group_results:
  "(s, l) \<in> set (sorted_items (group_results rs)) \<longleftrightarrow>
     l = filter (\<lambda>r. suite r = s) rs \<and> l \<noteq> []"
  by (auto simp: sorted_items_mem keys_group_results lookup_group_results)

lemma XITTest_result:
  "XITTest s (name r) (StatusStr (bool_lower (status r))) =
     Inr \<lparr>suite = s, name = name r, status = status r, test_bugs = [], test_info = [], test_fixes = []\<rparr>"
  by (simp add: XITTest_def bool_lower_def)

lemma add_results_fold_step:
  "fold (\<lambda>r acc. case acc of Inl e \<Rightarrow> Inl e
          | Inr reg' \<Rightarrow> (case XITTest s (name r) (StatusStr (bool_lower (status r))) of
                          Inl e \<Rightarrow> Inl e | Inr t \<Rightarrow> Inr (addTest t reg'))) xs (Inr reg) =
   Inr (fold addTest (map (\<lambda>r. \<lparr>suite = s, name = name r, status = status r,
                                test_bugs = [], test_info = [], test_fixes = []\<rparr>) xs) reg)"
  by (induction xs arbitrary: reg) (simp_all add: XITTest_result)

lemma add_results_fold:
  "(\<forall>(s, rs)\<in>set gs. \<forall>r\<in>set rs. suite r = s) \<Longrightarrow>
     add_results reg gs = Inr (fold addTest (map result_test (concat (map (\<lambda>(s, rs). sort_key tc_key rs) gs))) reg)"
proof (induction gs arbitrary: reg)
  case (Cons g gs)
  obtain s rs where g: "g = (s, rs)" by (cases g)
  with Cons.prems have eq: "map (\<lambda>r. \<lparr>suite = s, name = name r, status = status r,
        test_bugs = [], test_info = [], test_fixes = []\<rparr>) (sort_key tc_key rs) =
      map result_test (sort_key tc_key rs)"
    by (auto simp: set_sort)
  have "add_results reg (g # gs) = add_results (fold addTest (map result_test (sort_key tc_key rs)) reg) gs"
    by (simp add: g add_results_fold_step Let_def eq del: fold_map)
  with Cons.IH Cons.prems g show ?case
    by simp
qed simp

lemma group_results_suites:
  "\<forall>(s, rs)\<in>set (sorted_items (group_results results)). \<forall>r\<in>set rs. suite r = s"
  by (auto simp: mem_sorted_items_group_results)

lemma create_registry_fold:
  assumes "auto \<noteq> Some [''rpm'']"
  shows "create_registry results path name_arg auto rpm_q now =
    Inr (fold addTest (map result_test (concat (map (\<lambda>(s, rs). sort_key tc_key rs)
                                              (sorted_items (group_results results)))))
          ((XITTestRegistry (results_reg_name name_arg path) [] now)\<lparr>reg_moduleversions := []\<rparr>))"
  using assms add_results_fold[OF group_results_suites]
  by (simp add: create_registry_def Let_def del: fold_map)

lemma set_grouped_results:
  "set (concat (map (\<lambda>(s, rs). sort_key tc_key rs) (sorted_items (group_results results)))) = set results"
proof
  show "set (concat (map (\<lambda>(s, rs). sort_key tc_key rs) (sorted_items (group_results results)))) \<subseteq> set results"
    by (auto simp: set_sort mem_sorted_items_group_results)
next
  show "set results \<subseteq> set (concat (map (\<lambda>(s, rs). sort_key tc_key rs) (sorted_items (group_results results))))"
  proof
    fix x assume x: "x \<in> set results"
    then have mem: "(suite x, filter (\<lambda>r. suite r = suite x) results) \<in> set (sorted_items (group_results results))"
      by (auto simp: mem_sorted_items_group_results filter_empty_conv)
    have xin: "x \<in> set (sort_key tc_key (filter (\<lambda>r. suite r = suite x) results))"
      using x by (simp add: set_sort)
    show "x \<in> set (concat (map (\<lambda>(s, rs). sort_key tc_key rs) (sorted_items (group_results results))))"
      unfolding set_concat set_map image_image by (rule UN_I[OF mem]) (simp only: prod.case, rule xin)
  qed
qed

lemma getTest_fold_result_test:
  assumes dk: "distinct (map tc_key results)" and set: "set L = set results" and r: "r \<in> set results"
  shows "getTest (fold addTest (map result_test L) (XITTestRegistry nm [] now)) (suite r) (name r) =
    Some (result_test r)"
proof -
  have "find (\<lambda>x. suite x = suite r \<and> name x = name r) (rev L) = Some r"
  proof (rule find_unique)
    show "r \<in> set (rev L)" using set r by simp
    show "suite r = suite r \<and> name r = name r" by simp
    have inj: "inj_on tc_key (set results)"
      using dk by (simp add: distinct_map)
    show "\<forall>y\<in>set (rev L). suite y = suite r \<and> name y = name r \<longrightarrow> y = r"
    proof (intro ballI impI)
      fix y assume "y \<in> set (rev L)" "suite y = suite r \<and> name y = name r"
      with set r show "y = r"
        by (intro inj_onD[OF inj]) (simp_all add: tc_key_def)
    qed
  qed
  then show ?thesis
    by (simp add: getTest_fold_addTest rev_map find_map comp_def)
qed


lemma create_registry_lookup:
  assumes dk: "distinct (map tc_key results)" and auto: "auto \<noteq> Some [''rpm'']"
  shows "\<exists>reg. create_registry results path name_arg auto rpm_q now = Inr reg \<and> reg_wf reg \<and>
    reg_date reg = now \<and>
    (\<forall>r\<in>set results. getTest reg (suite r) (name r) = Some (result_test r)) \<and>
    (\<forall>s n t. getTest reg s n = Some t \<longrightarrow> test_fixes t = [])"
proof -
  let ?L = "concat (map (\<lambda>(s, rs). sort_key tc_key rs) (sorted_items (group_results results)))"
  let ?base = "XITTestRegistry (results_reg_name name_arg path) [] now"
  let ?reg = "fold addTest (map result_test ?L) (?base\<lparr>reg_moduleversions := []\<rparr>)"
  have create: "create_registry results path name_arg auto rpm_q now = Inr ?reg"
    using create_registry_fold[OF auto] .
  have r0: "reg_wf (?base\<lparr>reg_moduleversions := []\<rparr>)"
    by (simp add: reg_wf_empty)
  have lst: "list_all test_wf (map result_test ?L)"
    by (simp add: list_all_iff test_wf_def)
  have wf: "reg_wf ?reg"
    using reg_wf_fold_addTest[OF r0 lst] .
  have fold_mv: "?reg = (fold addTest (map result_test ?L) ?base)\<lparr>reg_moduleversions := []\<rparr>"
    by (simp add: fold_addTest XITTestRegistry_def)
  have look: "getTest ?reg (suite r) (name r) = Some (result_test r)" if "r \<in> set results" for r
    using getTest_fold_result_test[OF dk set_grouped_results that] fold_mv by simp
  have nofix: "test_fixes t = []" if "getTest ?reg s n = Some t" for s n t
  proof -
    have "getTest (fold addTest (map result_test ?L) ?base) s n = Some t"
      using that fold_mv by simp
    then have "find (\<lambda>t. suite t = s \<and> name t = n) (rev (map result_test ?L)) = Some t"
      by (simp add: getTest_fold_addTest getTest_empty split: option.splits)
    then obtain i where "i < length (rev (map result_test ?L))" "t = rev (map result_test ?L) ! i"
      unfolding find_Some_iff by blast
    then have "t \<in> set (rev (map result_test ?L))"
      by (simp only: nth_mem)
    then show ?thesis by auto
  qed
  show ?thesis
    using create wf look nofix by (auto simp: XITTestRegistry_def)
qed

lemma verify_results_matching:
  assumes ne: "results \<noteq> []"
    and look: "\<And>r. r \<in> set results \<Longrightarrow> \<exists>t. getTest reg (suite r) (name r) = Some t \<and> status t = status r"
  shows "verify_results False reg results =
    ([], map (\<lambda>r. \<lparr>row_code = (if status r then ''++'' else ''--''), row_color = DEFAULT,
                   row_suite = suite r, row_name = name r,
                   row_result = bool_lower (status r), row_expected = bool_lower (status r)\<rparr>)
             (sort_key tc_key results), None)"
proof -
  have "print_rows (\<lambda>r. verify_one_result (getTest reg (suite r) (name r)) (Some r)) (sort_key tc_key results) =
    (map (\<lambda>r. \<lparr>row_code = (if status r then ''++'' else ''--''), row_color = DEFAULT,
                   row_suite = suite r, row_name = name r,
                   row_result = bool_lower (status r), row_expected = bool_lower (status r)\<rparr>)
             (sort_key tc_key results), None)"
  proof (rule print_rows_all_ok, rule ballI)
    fix r assume "r \<in> set (sort_key tc_key results)"
    then obtain t where "getTest reg (suite r) (name r) = Some t" "status t = status r"
      using look by (auto simp: set_sort)
    then show "verify_one_result (getTest reg (suite r) (name r)) (Some r) =
      Inr \<lparr>row_code = (if status r then ''++'' else ''--''), row_color = DEFAULT,
                   row_suite = suite r, row_name = name r,
                   row_result = bool_lower (status r), row_expected = bool_lower (status r)\<rparr>"
      by (simp add: verify_one_result_def)
  qed
  with ne show ?thesis
    by (simp add: verify_results_def)
qed


text \<open>C20: an \<^verbatim>\<open>edit\<close> subcommand on a test the registry holds always completes
  with a new registry, except \<^verbatim>\<open>set-status\<close> with a word outside its vocabulary; on a
  test the registry does not hold it never does.\<close>

theorem edit_command_progress:
  "(\<exists>reg'. edit_command reg s n c = Inr reg') \<longleftrightarrow>
     getTest reg s n \<noteq> None \<and> (\<forall>st. c = SetStatusCmd st \<longrightarrow> map_of status_words st \<noteq> None)"
  by (cases c) (auto simp: edit_command_defs edit_test_def fix_createFromType_def Let_def
      split: option.splits)


theorem edit_command_progress_witness:
  "\<exists>reg'. edit_command (addTest \<lparr>suite = ''S'', name = ''a'', status = True, test_bugs = [], test_info = [], test_fixes = []\<rparr>
       (XITTestRegistry ''r'' [] (2013, 1, 1))) ''S'' ''a'' (AddCommitCmd ''abc123'' None) = Inr reg'"
  using edit_command_progress[of "addTest \<lparr>suite = ''S'', name = ''a'', status = True, test_bugs = [], test_info = [], test_fixes = []\<rparr>
       (XITTestRegistry ''r'' [] (2013, 1, 1))" "''S''" "''a''" "AddCommitCmd ''abc123'' None"]
  by (simp add: getTest_addTest)

end
