(* ===== verification/Registry_Xml.thy ===== *)
theory Registry_Xml
  imports Registry
begin

text \<open>
  The registry file of \<^verbatim>\<open>src/registry/xit.py\<close>: \<^verbatim>\<open>XITTestRegistry.toXML\<close>
  builds an lxml element tree with \<^verbatim>\<open>objectify.ElementMaker\<close> and
  \<^verbatim>\<open>XITTestRegistry.fromXML\<close> walks the tree that \<^verbatim>\<open>objectify.parse\<close>
  returns. The tree is the datatype \<open>xml_elem\<close> (tag, attribute dictionary, text,
  children), as lxml exposes it to the code; the byte-level serialization of
  \<^verbatim>\<open>lxml.etree.tostring\<close> and \<^verbatim>\<open>objectify.parse\<close> is taken to give back the tree.
  \<^verbatim>\<open>time.strftime\<close> and \<^verbatim>\<open>time.strptime\<close> with \<^verbatim>\<open>"%Y-%m-%d"\<close> are the
  parameters \<open>strftime\<close> and \<open>strptime\<close>; \<^verbatim>\<open>time.localtime()\<close> is \<open>now\<close>.
  Decoding raises \<^verbatim>\<open>KeyError\<close> for a missing mandatory attribute and whatever
  \<open>str2bool\<close>, \<open>createFromType\<close> and \<open>strptime\<close> raise.
\<close>

section \<open>Element trees\<close>

datatype xml_elem =
  XElem (x_tag: string) (x_attrib: "(string, string) mapping") (x_text: string) (x_children: "xml_elem list")

definition XMLNS :: string where
  "XMLNS = ''http://www.x.org/xorg-integration-testing''"

definition xmlns_tag :: "string \<Rightarrow> string" where
  "xmlns_tag tag = ''{'' @ XMLNS @ ''}'' @ tag"

text \<open>\<^verbatim>\<open>e.iterchildren(tag=t)\<close>, \<^verbatim>\<open>e.find(t)\<close>, \<^verbatim>\<open>e.attrib[k]\<close> and the
  \<^verbatim>\<open>try: e.attrib[k] except KeyError: default\<close> idiom.\<close>

definition iterchildren :: "string \<Rightarrow> xml_elem \<Rightarrow> xml_elem list" where
  "iterchildren t e = filter (\<lambda>c. x_tag c = t) (x_children e)"

definition find_child :: "string \<Rightarrow> xml_elem \<Rightarrow> xml_elem option" where
  "find_child t e = find (\<lambda>c. x_tag c = t) (x_children e)"

definition get_attr :: "xml_elem \<Rightarrow> string \<Rightarrow> xit_error + string" where
  "get_attr e k = (case Mapping.lookup (x_attrib e) k of None \<Rightarrow> Inl KeyError | Some v \<Rightarrow> Inr v)"

definition attr_or :: "xml_elem \<Rightarrow> string \<Rightarrow> string \<Rightarrow> string" where
  "attr_or e k d = (case Mapping.lookup (x_attrib e) k of None \<Rightarrow> d | Some v \<Rightarrow> v)"

text \<open>The element maker \<^verbatim>\<open>E.tag(text)\<close> in the registry namespace, \<^verbatim>\<open>e.set(k, v)\<close>
  and \<^verbatim>\<open>e.append(c)\<close>. The code appends an element to its parent before filling it;
  since the parent holds a reference, the finished tree is the one built bottom-up here.\<close>

definition E :: "string \<Rightarrow> string \<Rightarrow> xml_elem" where
  "E t text = XElem (xmlns_tag t) Mapping.empty text []"

primrec xml_set :: "string \<Rightarrow> string \<Rightarrow> xml_elem \<Rightarrow> xml_elem" where
  "xml_set k v (XElem t a x cs) = XElem t (Mapping.update k v a) x cs"

primrec xml_append :: "xml_elem \<Rightarrow> xml_elem \<Rightarrow> xml_elem" where
  "xml_append c (XElem t a x cs) = XElem t a x (cs @ [c])"

section \<open>Encoding: \<^verbatim>\<open>toXML\<close>\<close>

definition enc_modversion :: "xit_module_version \<Rightarrow> xml_elem" where
  "enc_modversion m =
     xml_set ''type'' (mv_type m) (xml_set ''name'' (mv_module m) (E ''moduleversion'' (mv_version m)))"

definition enc_bug :: "xit_bug \<Rightarrow> xml_elem" where
  "enc_bug b = xml_set ''type'' (bug_type b) (E ''bug'' (bug_url b))"

text \<open>The fix's \<^verbatim>\<open>type\<close> is set first and each extra argument after it, so an extra
  argument named \<^verbatim>\<open>type\<close> overwrites it.\<close>

definition enc_fix :: "xit_fix \<Rightarrow> xml_elem" where
  "enc_fix f =
     fold (\<lambda>(k, v). xml_set k v) (sorted_items (fix_extra_args f))
       (xml_set ''type'' (fix_type f) (E ''fix'' (fix_text f)))"

definition enc_info :: "xit_info \<Rightarrow> xml_elem" where
  "enc_info i = xml_set ''type'' (info_type i) (E ''testinfo'' (info_text i))"

definition enc_test :: "xit_test \<Rightarrow> xml_elem" where
  "enc_test t =
     fold xml_append (map enc_bug (getBugs t) @ map enc_fix (getFixes t) @ map enc_info (getInfo t))
       (xml_set ''success'' (bool_lower (status t)) (xml_set ''name'' (name t) (E ''testcase'' '''')))"

definition enc_suite :: "string \<times> suite_map \<Rightarrow> xml_elem" where
  "enc_suite sd =
     (case sd of (sn, d) \<Rightarrow>
        fold xml_append (map (\<lambda>(n, t). enc_test t) (sorted_items d)) (xml_set ''name'' sn (E ''testsuite'' '''')))"

definition enc_meta :: "(xit_date \<Rightarrow> string) \<Rightarrow> xit_registry \<Rightarrow> xml_elem" where
  "enc_meta strftime r =
     fold xml_append (map enc_modversion (sort_key mv_key (reg_moduleversions r)))
       (xml_append (E ''date'' (strftime (reg_date r))) (E ''meta'' ''''))"

definition enc_registry :: "(xit_date \<Rightarrow> string) \<Rightarrow> xit_registry \<Rightarrow> xml_elem" where
  "enc_registry strftime r =
     fold xml_append (map enc_suite (sorted_items (reg_tests r)))
       (xml_append (enc_meta strftime r) (xml_set ''name'' (reg_name r) (E ''registry'' '''')))"

definition toXML :: "(xit_date \<Rightarrow> string) \<Rightarrow> xit_registry \<Rightarrow> xml_elem" where
  "toXML strftime r = xml_append (enc_registry strftime r) (E ''registries'' '''')"

section \<open>Decoding: \<^verbatim>\<open>fromXML\<close>\<close>

definition dec_modversion :: "xml_elem \<Rightarrow> xit_registry \<Rightarrow> xit_error + xit_registry" where
  "dec_modversion mx reg =
     (let ty = attr_or mx ''type'' ''git''
      in err_bind (get_attr mx ''name'')
           (\<lambda>n. Inr (reg\<lparr>reg_moduleversions := reg_moduleversions reg @ [XITModuleVersion n (x_text mx) ty]\<rparr>)))"

definition dec_meta ::
  "(string \<Rightarrow> xit_error + xit_date) \<Rightarrow> xml_elem \<Rightarrow> xit_registry \<Rightarrow> xit_error + xit_registry" where
  "dec_meta strptime meta reg =
     err_bind
       (case find_child (xmlns_tag ''date'') meta of
          None \<Rightarrow> Inr reg
        | Some d \<Rightarrow> err_bind (strptime (x_text d)) (\<lambda>dt. Inr (reg\<lparr>reg_date := dt\<rparr>)))
       (fold_err dec_modversion (iterchildren (xmlns_tag ''moduleversion'') meta))"

definition dec_bug :: "xml_elem \<Rightarrow> xit_test \<Rightarrow> xit_error + xit_test" where
  "dec_bug bx t = Inr (addBug (XITBug (attr_or bx ''type'' ''bugzilla'') (x_text bx)) t)"

definition dec_info :: "xml_elem \<Rightarrow> xit_test \<Rightarrow> xit_error + xit_test" where
  "dec_info ix t =
     err_bind (info_createFromType (attr_or ix ''type'' ''text'') (x_text ix)) (\<lambda>i. Inr (addInfo i t))"

definition dec_fix :: "xml_elem \<Rightarrow> xit_test \<Rightarrow> xit_error + xit_test" where
  "dec_fix fx t =
     err_bind (get_attr fx ''type'')
       (\<lambda>ty. err_bind (fix_createFromType ty (x_text fx) (x_attrib fx)) (\<lambda>f. Inr (addFix f t)))"

text \<open>One \<^verbatim>\<open>testcase\<close> element: the arguments of \<^verbatim>\<open>XITTest(...)\<close> in the order
  Python evaluates them, then the bug, info and fix children.\<close>

definition dec_testcase :: "xml_elem \<Rightarrow> xml_elem \<Rightarrow> xit_error + xit_test" where
  "dec_testcase sx tx =
     err_bind (get_attr sx ''name'') (\<lambda>sn.
     err_bind (get_attr tx ''name'') (\<lambda>n.
     err_bind (get_attr tx ''success'') (\<lambda>su.
     err_bind (str2bool (StatusStr su)) (\<lambda>b.
     err_bind (XITTest sn n (StatusBool b)) (\<lambda>t.
     err_bind (fold_err dec_bug (iterchildren (xmlns_tag ''bug'') tx) t) (\<lambda>t.
     err_bind (fold_err dec_info (iterchildren (xmlns_tag ''testinfo'') tx) t)
       (fold_err dec_fix (iterchildren (xmlns_tag ''fix'') tx))))))))"

definition dec_suite :: "xml_elem \<Rightarrow> xit_registry \<Rightarrow> xit_error + xit_registry" where
  "dec_suite sx reg =
     fold_err (\<lambda>tx r. err_bind (dec_testcase sx tx) (\<lambda>t. Inr (addTest t r)))
       (iterchildren (xmlns_tag ''testcase'') sx) reg"

definition dec_registry ::
  "(string \<Rightarrow> xit_error + xit_date) \<Rightarrow> xit_date \<Rightarrow> xml_elem \<Rightarrow> xit_error + xit_registry" where
  "dec_registry strptime now rx =
     err_bind (get_attr rx ''name'') (\<lambda>n.
     err_bind (fold_err (dec_meta strptime) (iterchildren (xmlns_tag ''meta'') rx) (XITTestRegistry n [] now))
       (fold_err dec_suite (iterchildren (xmlns_tag ''testsuite'') rx)))"

definition fromXML ::
  "(string \<Rightarrow> xit_error + xit_date) \<Rightarrow> xit_date \<Rightarrow> xml_elem \<Rightarrow> xit_error + xit_registry list" where
  "fromXML strptime now root =
     fold_err (\<lambda>rx regs. err_bind (dec_registry strptime now rx) (\<lambda>r. Inr (regs @ [r])))
       (iterchildren (xmlns_tag ''registry'') root) []"

section \<open>Properties of the tree operations\<close>

lemma xml_sel_E [simp]:
  "x_tag (E t x) = xmlns_tag t" "x_attrib (E t x) = Mapping.empty" "x_text (E t x) = x"
  "x_children (E t x) = []"
  by (simp_all add: E_def)

lemma xml_sel_set [simp]:
  "x_tag (xml_set k v e) = x_tag e" "x_attrib (xml_set k v e) = Mapping.update k v (x_attrib e)"
  "x_text (xml_set k v e) = x_text e" "x_children (xml_set k v e) = x_children e"
  by (cases e; simp)+

lemma xml_sel_append [simp]:
  "x_tag (xml_append c e) = x_tag e" "x_attrib (xml_append c e) = x_attrib e"
  "x_text (xml_append c e) = x_text e" "x_children (xml_append c e) = x_children e @ [c]"
  by (cases e; simp)+

lemma xml_sel_fold_append [simp]:
  "x_tag (fold xml_append cs e) = x_tag e" "x_attrib (fold xml_append cs e) = x_attrib e"
  "x_text (fold xml_append cs e) = x_text e" "x_children (fold xml_append cs e) = x_children e @ cs"
  by (induction cs arbitrary: e) simp_all

lemma xml_sel_fold_set:
  "x_tag (fold (\<lambda>(k, v). xml_set k v) ps e) = x_tag e"
  "x_text (fold (\<lambda>(k, v). xml_set k v) ps e) = x_text e"
  "x_children (fold (\<lambda>(k, v). xml_set k v) ps e) = x_children e"
  "x_attrib (fold (\<lambda>(k, v). xml_set k v) ps e) = fold (\<lambda>(k, v). Mapping.update k v) ps (x_attrib e)"
  by (induction ps arbitrary: e) auto

lemma xmlns_tag_inj [simp]: "xmlns_tag a = xmlns_tag b \<longleftrightarrow> a = b"
  by (simp add: xmlns_tag_def)

lemma enc_tags [simp]:
  "x_tag (enc_modversion m) = xmlns_tag ''moduleversion''" "x_tag (enc_bug b) = xmlns_tag ''bug''"
  "x_tag (enc_fix f) = xmlns_tag ''fix''" "x_tag (enc_info i) = xmlns_tag ''testinfo''"
  "x_tag (enc_test t) = xmlns_tag ''testcase''" "x_tag (enc_suite sd) = xmlns_tag ''testsuite''"
  "x_tag (enc_meta strftime r) = xmlns_tag ''meta''" "x_tag (enc_registry strftime r) = xmlns_tag ''registry''"
  by (simp_all add: enc_registry_def enc_modversion_def enc_bug_def enc_fix_def xml_sel_fold_set enc_info_def enc_test_def
      enc_suite_def enc_meta_def split: prod.splits)

lemma enc_texts [simp]:
  "x_text (enc_modversion m) = mv_version m" "x_text (enc_bug b) = bug_url b"
  "x_text (enc_fix f) = fix_text f" "x_text (enc_info i) = info_text i"
  by (simp_all add: enc_modversion_def enc_bug_def enc_fix_def xml_sel_fold_set enc_info_def)

lemma filter_tag_map:
  "(\<And>x. x_tag (f x) = a) \<Longrightarrow> filter (\<lambda>c. x_tag c = b) (map f xs) = (if a = b then map f xs else [])"
  by (induction xs) auto

lemma get_attr_missing: "Mapping.lookup (x_attrib e) k = None \<Longrightarrow> get_attr e k = Inl KeyError"
  by (simp add: get_attr_def)

section \<open>Properties of the decoder\<close>

lemma dec_testcase_wf:
  assumes "dec_testcase sx tx = Inr t" shows "test_wf t"
proof -
  have b: "dec_bug x t1 = Inr t2 \<Longrightarrow> test_wf t1 \<Longrightarrow> test_wf t2" for x t1 t2
    by (auto simp: dec_bug_def test_wf_addBug)
  have i: "dec_info x t1 = Inr t2 \<Longrightarrow> test_wf t1 \<Longrightarrow> test_wf t2" for x t1 t2
    by (auto simp: dec_info_def err_bind_Inr_iff test_wf_addInfo)
  have f: "dec_fix x t1 = Inr t2 \<Longrightarrow> test_wf t1 \<Longrightarrow> test_wf t2" for x t1 t2
    by (auto simp: dec_fix_def err_bind_Inr_iff test_wf_addFix)
  have x: "XITTest s n a = Inr t0 \<Longrightarrow> test_wf t0" for s n a t0
    by (auto simp: XITTest_def test_wf_def split: sum.splits)
  from assms obtain a b c t0 t1 t2 where
      t0: "XITTest a b c = Inr t0"
    and s1: "fold_err dec_bug (iterchildren (xmlns_tag ''bug'') tx) t0 = Inr t1"
    and s2: "fold_err dec_info (iterchildren (xmlns_tag ''testinfo'') tx) t1 = Inr t2"
    and s3: "fold_err dec_fix (iterchildren (xmlns_tag ''fix'') tx) t2 = Inr t"
    unfolding dec_testcase_def err_bind_Inr_iff by auto
  have "test_wf t1" using fold_err_preserves[OF s1, where P = test_wf] x[OF t0] b by blast
  then have "test_wf t2" using fold_err_preserves[OF s2, where P = test_wf] i by blast
  then show ?thesis using fold_err_preserves[OF s3, where P = test_wf] f by blast
qed

lemma dec_suite_wf: "dec_suite sx r = Inr r' \<Longrightarrow> reg_wf r \<Longrightarrow> reg_wf r'"
  unfolding dec_suite_def
  by (erule fold_err_preserves[where P = reg_wf])
     (auto simp: err_bind_Inr_iff intro: reg_wf_addTest dec_testcase_wf)

lemma dec_meta_wf:
  assumes d: "dec_meta strptime mx r = Inr r'" and w: "reg_wf r"
  shows "reg_wf r'"
proof -
  have mv: "dec_modversion x r1 = Inr r2 \<Longrightarrow> reg_wf r1 \<Longrightarrow> reg_wf r2" for x r1 r2
    by (auto simp: dec_modversion_def Let_def err_bind_Inr_iff)
  obtain r1 where r1: "reg_wf r1"
    and rest: "fold_err dec_modversion (iterchildren (xmlns_tag ''moduleversion'') mx) r1 = Inr r'"
  proof (cases "find_child (xmlns_tag ''date'') mx")
    case None then show ?thesis using that d w by (simp add: dec_meta_def)
  next
    case (Some dx)
    with d obtain dt where "fold_err dec_modversion (iterchildren (xmlns_tag ''moduleversion'') mx)
        (r\<lparr>reg_date := dt\<rparr>) = Inr r'"
      by (auto simp: dec_meta_def err_bind_Inr_iff)
    then show ?thesis using that[of "r\<lparr>reg_date := dt\<rparr>"] w by simp
  qed
  show "reg_wf r'"
    by (rule fold_err_preserves[where P = reg_wf, OF rest r1 mv])
qed

lemma dec_registry_wf:
  assumes "dec_registry strptime now rx = Inr r" shows "reg_wf r"
proof -
  from assms obtain n r1 where
      s1: "fold_err (dec_meta strptime) (iterchildren (xmlns_tag ''meta'') rx) (XITTestRegistry n [] now) = Inr r1"
    and s2: "fold_err dec_suite (iterchildren (xmlns_tag ''testsuite'') rx) r1 = Inr r"
    unfolding dec_registry_def err_bind_Inr_iff by blast
  have "reg_wf r1"
    using fold_err_preserves[OF s1, where P = reg_wf] reg_wf_empty dec_meta_wf by blast
  then show ?thesis using fold_err_preserves[OF s2, where P = reg_wf] dec_suite_wf by blast
qed

lemma dec_testcase_isl:
  assumes "Mapping.lookup (x_attrib tx) ''success'' = None \<or>
    (\<exists>fx\<in>set (iterchildren (xmlns_tag ''fix'') tx). Mapping.lookup (x_attrib fx) ''type'' = None)"
  shows "isl (dec_testcase sx tx)"
  using assms
proof
  assume "Mapping.lookup (x_attrib tx) ''success'' = None"
  then show ?thesis
    unfolding dec_testcase_def
    by (intro isl_err_bind_all isl_err_bind) (simp add: get_attr_missing)
next
  assume "\<exists>fx\<in>set (iterchildren (xmlns_tag ''fix'') tx). Mapping.lookup (x_attrib fx) ''type'' = None"
  then obtain fx where fx: "fx \<in> set (iterchildren (xmlns_tag ''fix'') tx)"
    and nt: "Mapping.lookup (x_attrib fx) ''type'' = None" by blast
  have "isl (fold_err dec_fix (iterchildren (xmlns_tag ''fix'') tx) t)" for t
    by (rule fold_err_isl[OF fx]) (simp add: dec_fix_def get_attr_missing[OF nt])
  then show ?thesis
    unfolding dec_testcase_def by (intro isl_err_bind_all)
qed

text \<open>C9: whatever document it is given, every registry that \<^verbatim>\<open>fromXML\<close> returns is
  well-formed: its suite and name keys agree with the stored test cases and no test lists an
  annotation twice.\<close>

theorem fromXML_wf:
  assumes "fromXML strptime now root = Inr regs"
  shows "list_all reg_wf regs"
  using assms unfolding fromXML_def
  by (rule fold_err_preserves[where P = "list_all reg_wf"])
     (auto simp: err_bind_Inr_iff dec_registry_wf)

theorem fromXML_wf_witness:
  "\<exists>regs. fromXML (\<lambda>s. Inr (2013, 1, 1)) (2014, 2, 2)
     (xml_append (xml_append (xml_append (xml_set ''success'' ''true'' (xml_set ''name'' ''a'' (E ''testcase'' '''')))
         (xml_set ''name'' ''S'' (E ''testsuite'' '''')))
       (xml_set ''name'' ''r'' (E ''registry'' ''''))) (E ''registries'' '''')) = Inr regs \<and>
   list_all reg_wf regs"
proof -
  let ?doc = "xml_append (xml_append (xml_append (xml_set ''success'' ''true'' (xml_set ''name'' ''a'' (E ''testcase'' '''')))
         (xml_set ''name'' ''S'' (E ''testsuite'' '''')))
       (xml_set ''name'' ''r'' (E ''registry'' ''''))) (E ''registries'' '''')"
  have "\<not> isl (fromXML (\<lambda>s. Inr (2013, 1, 1)) (2014, 2, 2) ?doc)"
    by code_simp
  then obtain regs where d: "fromXML (\<lambda>s. Inr (2013, 1, 1)) (2014, 2, 2) ?doc = Inr regs"
    by (cases "fromXML (\<lambda>s. Inr (2013, 1, 1)) (2014, 2, 2) ?doc") simp_all
  show ?thesis
    using d fromXML_wf[OF d] by blast
qed

text \<open>C10: loading is all or nothing: a document with a test case that has no
  \<^verbatim>\<open>success\<close> attribute, or with a fix that has no \<^verbatim>\<open>type\<close> attribute, anywhere
  in any suite of any registry, is rejected with an error and no registry is returned.\<close>

theorem fromXML_rejects_malformed_testcase:
  assumes rx: "rx \<in> set (iterchildren (xmlns_tag ''registry'') root)"
    and sx: "sx \<in> set (iterchildren (xmlns_tag ''testsuite'') rx)"
    and tx: "tx \<in> set (iterchildren (xmlns_tag ''testcase'') sx)"
    and bad: "Mapping.lookup (x_attrib tx) ''success'' = None \<or>
      (\<exists>fx\<in>set (iterchildren (xmlns_tag ''fix'') tx). Mapping.lookup (x_attrib fx) ''type'' = None)"
  shows "\<exists>e. fromXML strptime now root = Inl e"
proof -
  have "isl (dec_suite sx r)" for r
    unfolding dec_suite_def
    by (rule fold_err_isl[OF tx]) (intro isl_err_bind dec_testcase_isl[OF bad])
  then have "isl (fold_err dec_suite (iterchildren (xmlns_tag ''testsuite'') rx) r)" for r
    by (rule fold_err_isl[OF sx])
  then have "isl (dec_registry strptime now rx)"
    unfolding dec_registry_def by (intro isl_err_bind_all)
  then have "isl (fromXML strptime now root)"
    unfolding fromXML_def by (rule fold_err_isl[OF rx, OF isl_err_bind])
  then show ?thesis by (cases "fromXML strptime now root") simp_all
qed

theorem fromXML_rejects_malformed_testcase_witness:
  "\<exists>e. fromXML (\<lambda>s. Inr (2013, 1, 1)) (2014, 2, 2)
     (xml_append (xml_append (xml_append (xml_set ''name'' ''a'' (E ''testcase'' ''''))
         (xml_set ''name'' ''S'' (E ''testsuite'' '''')))
       (xml_set ''name'' ''r'' (E ''registry'' ''''))) (E ''registries'' '''')) = Inl e"
proof -
  let ?tx = "xml_set ''name'' ''a'' (E ''testcase'' '''')"
  let ?sx = "xml_append ?tx (xml_set ''name'' ''S'' (E ''testsuite'' ''''))"
  let ?rx = "xml_append ?sx (xml_set ''name'' ''r'' (E ''registry'' ''''))"
  let ?root = "xml_append ?rx (E ''registries'' '''')"
  have rx: "?rx \<in> set (iterchildren (xmlns_tag ''registry'') ?root)"
    by (simp add: iterchildren_def E_def)
  have sx: "?sx \<in> set (iterchildren (xmlns_tag ''testsuite'') ?rx)"
    by (simp add: iterchildren_def E_def)
  have tx: "?tx \<in> set (iterchildren (xmlns_tag ''testcase'') ?sx)"
    by (simp add: iterchildren_def E_def)
  have bad: "Mapping.lookup (x_attrib ?tx) ''success'' = None"
    by (simp add: E_def lookup_update' lookup_empty)
  show ?thesis
    using fromXML_rejects_malformed_testcase[OF rx sx tx disjI1[OF bad]] .
qed

end
