(* ===== verification/Junit_Xml.thy ===== *)
theory Junit_Xml
  imports Registry_Xml
begin

text \<open>
  The JUnit results file of \<^verbatim>\<open>src/registry/xit.py\<close>: \<^verbatim>\<open>JUnitTestResult.fromXML\<close>
  walks the un-namespaced \<^verbatim>\<open>testsuite\<close>/\<^verbatim>\<open>testcase\<close>/\<^verbatim>\<open>failure\<close> elements
  of the tree \<^verbatim>\<open>objectify.parse\<close> returns, over the element type of
  \<^theory_text>\<open>Registry_Xml\<close>; \<^verbatim>\<open>JUnitTestResult.__str__\<close> prints one result.
  A \<^verbatim>\<open>JUnitTestFailure\<close> is its message. The code appends the result to the list
  before adding its failures; the list holds the object, so the list it returns holds the
  result with all its failures, as built here.
\<close>

section \<open>Reading a results file\<close>

definition junit_dec_failure :: "xml_elem \<Rightarrow> junit_result \<Rightarrow> xit_error + junit_result" where
  "junit_dec_failure fx r = err_bind (get_attr fx ''message'') (\<lambda>m. Inr (addFailure m r))"

definition junit_dec_case :: "xml_elem \<Rightarrow> xml_elem \<Rightarrow> xit_error + junit_result" where
  "junit_dec_case sx cx =
     err_bind (get_attr sx ''name'') (\<lambda>s.
     err_bind (get_attr cx ''name'') (\<lambda>n.
       fold_err junit_dec_failure (iterchildren ''failure'' cx) (JUnitTestResult s n)))"

definition junit_fromXML :: "xml_elem \<Rightarrow> xit_error + junit_result list" where
  "junit_fromXML root =
     fold_err (\<lambda>sx. fold_err (\<lambda>cx rs. err_bind (junit_dec_case sx cx) (\<lambda>r. Inr (rs @ [r])))
                      (iterchildren ''testcase'' sx))
       (iterchildren ''testsuite'' root) []"

section \<open>Printing a result\<close>

definition junit_str :: "junit_result \<Rightarrow> string" where
  "junit_str r =
     suite r @ ''.'' @ name r @ '':'' @ [CHR 0x09] @
     (if failures r = [] then ''success''
      else ''failure'' @ nl @ ''Failures:'' @ nl @ concat (map (\<lambda>f. f @ nl) (failures r)))"

section \<open>Reference reading\<close>

text \<open>What a results file means (\<^verbatim>\<open>spec.md\<close>, run-result encoding): one result per
  \<^verbatim>\<open>testcase\<close> element in document order, named by its suite and its own
  \<^verbatim>\<open>name\<close>, failing with the messages of its \<^verbatim>\<open>failure\<close> children; a file in
  which a needed attribute is missing is malformed.\<close>

definition has_attr :: "string \<Rightarrow> xml_elem \<Rightarrow> bool" where
  "has_attr k e \<longleftrightarrow> Mapping.lookup (x_attrib e) k \<noteq> None"

definition junit_attrs_ok :: "xml_elem \<Rightarrow> bool" where
  "junit_attrs_ok root \<longleftrightarrow>
     list_all (\<lambda>sx. list_all (\<lambda>cx. has_attr ''name'' sx \<and> has_attr ''name'' cx \<and>
                                   list_all (has_attr ''message'') (iterchildren ''failure'' cx))
                      (iterchildren ''testcase'' sx))
       (iterchildren ''testsuite'' root)"

definition junit_spec :: "xml_elem \<Rightarrow> junit_result list" where
  "junit_spec root =
     concat (map (\<lambda>sx. map (\<lambda>cx. junit_case (attr_or sx ''name'' '''') (attr_or cx ''name'' '''')
                                   (map (\<lambda>fx. attr_or fx ''message'' '''') (iterchildren ''failure'' cx)))
                      (iterchildren ''testcase'' sx))
       (iterchildren ''testsuite'' root))"

section \<open>Properties\<close>

lemma get_attr_eq:
  "get_attr e k = (if has_attr k e then Inr (attr_or e k '''') else Inl KeyError)"
  by (auto simp: has_attr_def get_attr_def attr_or_def split: option.splits)

lemma fold_err_failures:
  "fold_err junit_dec_failure fs r =
     (if list_all (has_attr ''message'') fs
      then Inr (fold addFailure (map (\<lambda>fx. attr_or fx ''message'' '''') fs) r) else Inl KeyError)"
  by (induction fs arbitrary: r) (auto simp: junit_dec_failure_def get_attr_eq)

lemma junit_dec_case_eq:
  "junit_dec_case sx cx =
     (if has_attr ''name'' sx \<and> has_attr ''name'' cx \<and> list_all (has_attr ''message'') (iterchildren ''failure'' cx)
      then Inr (junit_case (attr_or sx ''name'' '''') (attr_or cx ''name'' '''')
                 (map (\<lambda>fx. attr_or fx ''message'' '''') (iterchildren ''failure'' cx)))
      else Inl KeyError)"
  by (auto simp: junit_dec_case_def junit_case_def fold_err_failures get_attr_eq)

lemma fold_err_cases:
  "fold_err (\<lambda>cx rs. err_bind (junit_dec_case sx cx) (\<lambda>r. Inr (rs @ [r]))) cs acc =
     (if list_all (\<lambda>cx. has_attr ''name'' sx \<and> has_attr ''name'' cx \<and>
                        list_all (has_attr ''message'') (iterchildren ''failure'' cx)) cs
      then Inr (acc @ map (\<lambda>cx. junit_case (attr_or sx ''name'' '''') (attr_or cx ''name'' '''')
                                   (map (\<lambda>fx. attr_or fx ''message'' '''') (iterchildren ''failure'' cx))) cs)
      else Inl KeyError)"
  by (induction cs arbitrary: acc) (auto simp: junit_dec_case_eq)

lemma fold_err_suites:
  "fold_err (\<lambda>sx. fold_err (\<lambda>cx rs. err_bind (junit_dec_case sx cx) (\<lambda>r. Inr (rs @ [r])))
                     (iterchildren ''testcase'' sx)) ss acc =
     (if list_all (\<lambda>sx. list_all (\<lambda>cx. has_attr ''name'' sx \<and> has_attr ''name'' cx \<and>
                                   list_all (has_attr ''message'') (iterchildren ''failure'' cx))
                      (iterchildren ''testcase'' sx)) ss
      then Inr (acc @ concat (map (\<lambda>sx. map (\<lambda>cx. junit_case (attr_or sx ''name'' '''') (attr_or cx ''name'' '''')
                                   (map (\<lambda>fx. attr_or fx ''message'' '''') (iterchildren ''failure'' cx)))
                      (iterchildren ''testcase'' sx)) ss))
      else Inl KeyError)"
  by (induction ss arbitrary: acc) (auto simp: fold_err_cases)

text \<open>C13: reading a JUnit results file is the reference reading: when every
  \<^verbatim>\<open>testsuite\<close> that has a \<^verbatim>\<open>testcase\<close>, every \<^verbatim>\<open>testcase\<close> and every
  \<^verbatim>\<open>failure\<close> carries its attribute, the results are one per testcase element in
  document order with its failure messages; otherwise the read fails with
  \<^verbatim>\<open>KeyError\<close>.\<close>

theorem junit_fromXML_spec:
  "junit_fromXML root = (if junit_attrs_ok root then Inr (junit_spec root) else Inl KeyError)"
  by (simp add: junit_fromXML_def junit_attrs_ok_def junit_spec_def fold_err_suites)

end
