(* ===== verification/Cli.thy ===== *)
theory Cli
  imports Commands Junit_Xml
begin

text \<open>
  The remaining handlers of \<^verbatim>\<open>XITTestRegistryCLI\<close> in \<^verbatim>\<open>src/registry/xit.py\<close>:
  \<^verbatim>\<open>load_registry\<close> (the document read from \<^verbatim>\<open>--file\<close> or stdin, then
  \<^verbatim>\<open>load_registry_from_file\<close>), the printing handlers \<^verbatim>\<open>list_tests\<close> and
  \<^verbatim>\<open>show_test_info\<close> over the loaded registry, and \<^verbatim>\<open>compare_registries\<close> with
  \<^verbatim>\<open>find_reg\<close>. A printed table is its list of rows, as in \<^theory_text>\<open>Verify\<close>;
  the lines \<^verbatim>\<open>logging.error\<close> writes are the list of registry names it reports.
\<close>

section \<open>Loading\<close>

text \<open>When \<^verbatim>\<open>--file\<close> is absent the code reads stdin and assigns \<^verbatim>\<open>None\<close> to a
  local \<^verbatim>\<open>regname\<close> that is never read: \<^verbatim>\<open>args.regname\<close> is passed on in both
  cases, so the source of the document does not matter.\<close>

definition load_registry ::
  "(string \<Rightarrow> xit_error + xit_date) \<Rightarrow> xit_date \<Rightarrow> xml_elem \<Rightarrow> string option \<Rightarrow> xit_error + xit_registry" where
  "load_registry strptime now doc regname =
     err_bind (fromXML strptime now doc) (\<lambda>regs. load_registry_from_file regs regname)"

section \<open>Listing and showing tests\<close>

text \<open>\<^verbatim>\<open>str(status)\<close> of a Python bool.\<close>

definition py_str_bool :: "bool \<Rightarrow> string" where
  "py_str_bool b = (if b then ''True'' else ''False'')"

definition list_tests :: "xit_registry \<Rightarrow> (string \<times> string \<times> string) list" where
  "list_tests reg =
     (''TestSuite'', ''TestCase'', ''Success'') # (''---------'', ''--------'', ''-------'') #
     map (\<lambda>(s, t, st). (s, t, py_str_bool st)) (listTestNames reg)"

definition show_test_info :: "xit_registry \<Rightarrow> string \<Rightarrow> string \<Rightarrow> xit_error + string option" where
  "show_test_info reg s n =
     (case getTest reg s n of
        None \<Rightarrow> Inr None
      | Some t \<Rightarrow> err_bind (test_str t) (\<lambda>str. Inr (Some str)))"

section \<open>Comparing files of registries\<close>

definition find_reg :: "string \<Rightarrow> xit_registry list \<Rightarrow> xit_registry option" where
  "find_reg n regs = (case filter (\<lambda>r. reg_name r = n) regs of [] \<Rightarrow> None | r # _ \<Rightarrow> Some r)"

type_synonym reg_table = "mv_row list \<times> verify_row list"

text \<open>The loop over the first file's registries: the tables printed so far, the names
  \<^verbatim>\<open>failed_regs\<close> and \<^verbatim>\<open>done_regs\<close>, and the exception
  \<^verbatim>\<open>compare_registry\<close> raised, which ends the command after the table it was printing.\<close>

fun compare_each ::
  "xit_registry list \<Rightarrow> xit_registry list \<Rightarrow> string list \<Rightarrow> string list \<Rightarrow>
     reg_table list \<times> string list \<times> string list \<times> xit_error option" where
  "compare_each [] regs2 failed_regs done_regs = ([], failed_regs, done_regs, None)"
| "compare_each (r1 # rs) regs2 failed_regs done_regs =
     (case find_reg (reg_name r1) regs2 of
        None \<Rightarrow> compare_each rs regs2 (failed_regs @ [reg_name r1]) done_regs
      | Some r2 \<Rightarrow>
          (case compare_registry r1 r2 of
             (meta, rows, Some e) \<Rightarrow> ([(meta, rows)], failed_regs, done_regs, Some e)
           | (meta, rows, None) \<Rightarrow>
               (case compare_each rs regs2 failed_regs (done_regs @ [reg_name r1]) of
                  (ts, f, d, err) \<Rightarrow> ((meta, rows) # ts, f, d, err))))"

text \<open>\<^verbatim>\<open>compare_registries\<close> after both files are loaded and sorted: the tables it
  prints, the names it reports as not compared, and the exception or exit that ends it.\<close>

definition compare_registries ::
  "string option \<Rightarrow> xit_registry list \<Rightarrow> xit_registry list \<Rightarrow> reg_table list \<times> string list \<times> xit_error option" where
  "compare_registries regname regs1 regs2 =
     (case regname of
        Some n \<Rightarrow>
          (case find_reg n regs1 of
             None \<Rightarrow> ([], [], Some (ExitFindRegistry n))
           | Some reg1 \<Rightarrow>
               (case find_reg n regs2 of
                  None \<Rightarrow> ([], [], Some (ExitFindRegistry n))
                | Some reg2 \<Rightarrow> (case compare_registry reg1 reg2 of (meta, rows, err) \<Rightarrow> ([(meta, rows)], [], err))))
      | None \<Rightarrow>
          (case compare_each regs1 regs2 [] [] of
             (ts, failed_regs, done_regs, Some e) \<Rightarrow> (ts, [], Some e)
           | (ts, failed_regs, done_regs, None) \<Rightarrow>
               (ts, failed_regs @ map reg_name (filter (\<lambda>r2. reg_name r2 \<notin> set done_regs) regs2), None)))"

text \<open>The whole command: \<open>load\<close> is \<^verbatim>\<open>XITTestRegistry.fromXML\<close> of a path
  (read, parse and decode, as one call). \<^verbatim>\<open>XITTestRegistry\<close> defines no
  \<^verbatim>\<open>__cmp__\<close>, so \<^verbatim>\<open>regs.sort()\<close> orders the registries by object address: the
  parameter \<open>sort_ids\<close> is that unspecified order, a permutation of its argument.\<close>

definition compare_registries_cmd ::
  "(string \<Rightarrow> xit_error + xit_registry list) \<Rightarrow> (xit_registry list \<Rightarrow> xit_registry list) \<Rightarrow>
     string \<Rightarrow> string \<Rightarrow> string option \<Rightarrow> xit_error + reg_table list \<times> string list \<times> xit_error option" where
  "compare_registries_cmd load sort_ids path1 path2 regname =
     err_bind (load path1) (\<lambda>regs1.
     err_bind (load path2) (\<lambda>regs2.
       Inr (compare_registries regname (sort_ids regs1) (sort_ids regs2))))"

section \<open>Properties\<close>

abbreviation reg_names :: "xit_registry list \<Rightarrow> string set" where
  "reg_names regs \<equiv> reg_name ` set regs"

abbreviation table_of :: "xit_registry \<Rightarrow> xit_registry \<Rightarrow> reg_table" where
  "table_of r1 r2 \<equiv> (fst (compare_registry r1 r2), fst (snd (compare_registry r1 r2)))"

lemma find_reg_find: "find_reg n regs = find (\<lambda>r. reg_name r = n) regs"
  by (induction regs) (simp_all add: find_reg_def)

lemma find_reg_Some: "find_reg n regs = Some r \<Longrightarrow> r \<in> set regs \<and> reg_name r = n"
  by (auto simp: find_reg_find find_Some_iff)

lemma find_reg_None: "find_reg n regs = None \<longleftrightarrow> n \<notin> reg_names regs"
  by (auto simp: find_reg_find find_None_iff)

lemma find_reg_distinct:
  "distinct (map reg_name regs) \<Longrightarrow> r \<in> set regs \<Longrightarrow> find_reg (reg_name r) regs = Some r"
  by (induction regs) (auto simp: find_reg_find image_iff)

text \<open>Every pair the loop compares finishes without an exception.\<close>

definition pairs_ok :: "xit_registry list \<Rightarrow> xit_registry list \<Rightarrow> bool" where
  "pairs_ok regs1 regs2 \<longleftrightarrow>
     (\<forall>r1\<in>set regs1. case find_reg (reg_name r1) regs2 of
        None \<Rightarrow> True | Some r2 \<Rightarrow> snd (snd (compare_registry r1 r2)) = None)"

lemma compare_each_ok:
  assumes "pairs_ok rs regs2"
  shows "compare_each rs regs2 failed_regs done_regs =
    (map (\<lambda>r1. table_of r1 (the (find_reg (reg_name r1) regs2))) (filter (\<lambda>r. reg_name r \<in> reg_names regs2) rs),
     failed_regs @ map reg_name (filter (\<lambda>r. reg_name r \<notin> reg_names regs2) rs),
     done_regs @ map reg_name (filter (\<lambda>r. reg_name r \<in> reg_names regs2) rs), None)"
  using assms
proof (induction rs arbitrary: failed_regs done_regs)
  case (Cons r1 rs)
  then have rest: "pairs_ok rs regs2" by (simp add: pairs_ok_def)
  show ?case
  proof (cases "find_reg (reg_name r1) regs2")
    case None
    then show ?thesis using Cons.IH[OF rest] by (simp add: find_reg_None[symmetric])
  next
    case (Some r2)
    then have ok: "snd (snd (compare_registry r1 r2)) = None"
      using Cons.prems by (simp add: pairs_ok_def)
    have in2: "reg_name r1 \<in> reg_names regs2"
      using Some find_reg_None[of "reg_name r1" regs2] by auto
    obtain meta rows where cr: "compare_registry r1 r2 = (meta, rows, None)"
      using ok by (cases "compare_registry r1 r2") auto
    show ?thesis using Cons.IH[OF rest] Some cr in2 by simp
  qed
qed simp


lemma filter_not_done:
  "filter (\<lambda>r2. reg_name r2 \<notin> reg_name ` {x \<in> set regs1. reg_name x \<in> reg_names regs2}) regs2 =
   filter (\<lambda>r. reg_name r \<notin> reg_names regs1) regs2"
proof (rule filter_cong[OF refl])
  fix x assume x: "x \<in> set regs2"
  have "reg_name x \<in> reg_name ` {y \<in> set regs1. reg_name y \<in> reg_names regs2} \<longleftrightarrow> reg_name x \<in> reg_names regs1"
  proof
    assume "reg_name x \<in> reg_names regs1"
    then obtain y where y: "y \<in> set regs1" "reg_name x = reg_name y" by blast
    have "reg_name y \<in> reg_names regs2" using x y(2) by (metis imageI)
    with y show "reg_name x \<in> reg_name ` {y \<in> set regs1. reg_name y \<in> reg_names regs2}" by blast
  qed blast
  then show "(reg_name x \<notin> reg_name ` {y \<in> set regs1. reg_name y \<in> reg_names regs2}) =
      (reg_name x \<notin> reg_names regs1)" by simp
qed

lemma pairs_ok_mset:
  assumes "mset a1 = mset b1" and "\<And>n. find_reg n a2 = find_reg n b2"
  shows "pairs_ok a1 a2 = pairs_ok b1 b2"
  using mset_eq_setD[OF assms(1)] assms(2) by (simp add: pairs_ok_def)

lemma find_reg_mset:
  assumes "mset a2 = mset b2" and "distinct (map reg_name a2)"
  shows "find_reg n a2 = find_reg n b2"
proof -
  have set: "set a2 = set b2" using assms(1) by (rule mset_eq_setD)
  have "distinct (map reg_name b2)"
    using assms mset_eq_imp_distinct_iff[of "map reg_name a2" "map reg_name b2"] by (simp add: mset_map)
  then show ?thesis
  proof (cases "n \<in> reg_names a2")
    case True
    then obtain r where r: "r \<in> set a2" "reg_name r = n" by blast
    then show ?thesis
      using find_reg_distinct[OF assms(2) r(1)] find_reg_distinct[OF \<open>distinct (map reg_name b2)\<close>, of r] set
      by simp
  next
    case False
    then have "find_reg n a2 = None" "find_reg n b2 = None"
      using set by (simp_all add: find_reg_None)
    then show ?thesis by simp
  qed
qed

text \<open>C14: without \<^verbatim>\<open>--regname\<close>, when no comparison raises, the command prints one
  table for each registry of the first file that has a namesake in the second (compared
  with the first such namesake), in the first file's order, and then reports every
  registry name of the first file missing from the second followed by every name of the
  second missing from the first.\<close>

theorem compare_registries_report:
  assumes "pairs_ok regs1 regs2"
  shows "compare_registries None regs1 regs2 =
    (map (\<lambda>r1. table_of r1 (the (find_reg (reg_name r1) regs2))) (filter (\<lambda>r. reg_name r \<in> reg_names regs2) regs1),
     map reg_name (filter (\<lambda>r. reg_name r \<notin> reg_names regs2) regs1) @
     map reg_name (filter (\<lambda>r. reg_name r \<notin> reg_names regs1) regs2),
     None)"
  by (simp add: compare_registries_def compare_each_ok[OF assms] filter_not_done)

theorem compare_registries_report_witness:
  "pairs_ok [addTest \<lparr>suite = ''S'', name = ''t'', status = True, test_bugs = [], test_info = [], test_fixes = []\<rparr> (XITTestRegistry ''a'' [] (2013, 1, 1)), XITTestRegistry ''b'' [] (2013, 1, 1)] [addTest \<lparr>suite = ''S'', name = ''t'', status = True, test_bugs = [], test_info = [], test_fixes = []\<rparr> (XITTestRegistry ''a'' [] (2013, 1, 1)), XITTestRegistry ''c'' [] (2013, 1, 1)] \<and>
   fst (snd (compare_registries None [addTest \<lparr>suite = ''S'', name = ''t'', status = True, test_bugs = [], test_info = [], test_fixes = []\<rparr> (XITTestRegistry ''a'' [] (2013, 1, 1)), XITTestRegistry ''b'' [] (2013, 1, 1)] [addTest \<lparr>suite = ''S'', name = ''t'', status = True, test_bugs = [], test_info = [], test_fixes = []\<rparr> (XITTestRegistry ''a'' [] (2013, 1, 1)), XITTestRegistry ''c'' [] (2013, 1, 1)])) = [''b'', ''c''] \<and>
   length (fst (compare_registries None [addTest \<lparr>suite = ''S'', name = ''t'', status = True, test_bugs = [], test_info = [], test_fixes = []\<rparr> (XITTestRegistry ''a'' [] (2013, 1, 1)), XITTestRegistry ''b'' [] (2013, 1, 1)] [addTest \<lparr>suite = ''S'', name = ''t'', status = True, test_bugs = [], test_info = [], test_fixes = []\<rparr> (XITTestRegistry ''a'' [] (2013, 1, 1)), XITTestRegistry ''c'' [] (2013, 1, 1)])) = 1"
proof -
  have ok: "pairs_ok [addTest \<lparr>suite = ''S'', name = ''t'', status = True, test_bugs = [], test_info = [], test_fixes = []\<rparr> (XITTestRegistry ''a'' [] (2013, 1, 1)), XITTestRegistry ''b'' [] (2013, 1, 1)] [addTest \<lparr>suite = ''S'', name = ''t'', status = True, test_bugs = [], test_info = [], test_fixes = []\<rparr> (XITTestRegistry ''a'' [] (2013, 1, 1)), XITTestRegistry ''c'' [] (2013, 1, 1)]"
    by code_simp
  show ?thesis
    using ok compare_registries_report[OF ok] by simp
qed

text \<open>C15: the registries of a file are sorted by object address, an order the
  code does not control; when the second file's registry names are distinct and no
  comparison raises, the tables printed (as a multiset) and the names reported (as a set)
  are the same for every order of the two files.\<close>

theorem compare_registries_order_independent:
  assumes p1: "mset a1 = mset b1" and p2: "mset a2 = mset b2"
    and d: "distinct (map reg_name a2)" and ok: "pairs_ok a1 a2"
  shows "snd (snd (compare_registries None b1 b2)) = None \<and>
    mset (fst (compare_registries None a1 a2)) = mset (fst (compare_registries None b1 b2)) \<and>
    set (fst (snd (compare_registries None a1 a2))) = set (fst (snd (compare_registries None b1 b2)))"
proof -
  have f: "find_reg n a2 = find_reg n b2" for n by (rule find_reg_mset[OF p2 d])
  have okb: "pairs_ok b1 b2" using ok pairs_ok_mset[OF p1 f] by simp
  have s1: "set a1 = set b1" by (rule mset_eq_setD[OF p1])
  have s2: "set a2 = set b2" by (rule mset_eq_setD[OF p2])
  let ?g = "\<lambda>r1. table_of r1 (the (find_reg (reg_name r1) a2))"
  let ?P = "\<lambda>r. reg_name r \<in> reg_names a2"
  have ra: "compare_registries None a1 a2 =
    (map ?g (filter ?P a1),
     map reg_name (filter (\<lambda>r. reg_name r \<notin> reg_names a2) a1) @ map reg_name (filter (\<lambda>r. reg_name r \<notin> reg_names a1) a2),
     None)"
    by (simp add: compare_registries_def compare_each_ok[OF ok] filter_not_done)
  have rb: "compare_registries None b1 b2 =
    (map ?g (filter ?P b1),
     map reg_name (filter (\<lambda>r. reg_name r \<notin> reg_names a2) b1) @ map reg_name (filter (\<lambda>r. reg_name r \<notin> reg_names a1) b2),
     None)"
    using s1 s2 by (simp add: compare_registries_def compare_each_ok[OF okb] filter_not_done f)
  have "mset (map ?g (filter ?P a1)) = mset (map ?g (filter ?P b1))"
    using p1 by (simp add: mset_filter)
  moreover have "set (map reg_name (filter (\<lambda>r. reg_name r \<notin> reg_names a2) a1) @ map reg_name (filter (\<lambda>r. reg_name r \<notin> reg_names a1) a2)) =
      set (map reg_name (filter (\<lambda>r. reg_name r \<notin> reg_names a2) b1) @ map reg_name (filter (\<lambda>r. reg_name r \<notin> reg_names a1) b2))"
    using s1 s2 by auto
  ultimately show ?thesis using ra rb by simp
qed


theorem compare_registries_order_independent_witness:
  "snd (snd (compare_registries None [XITTestRegistry ''b'' [] (2013, 1, 1), addTest \<lparr>suite = ''S'', name = ''t'', status = True, test_bugs = [], test_info = [], test_fixes = []\<rparr> (XITTestRegistry ''a'' [] (2013, 1, 1))] [XITTestRegistry ''c'' [] (2013, 1, 1), addTest \<lparr>suite = ''S'', name = ''t'', status = True, test_bugs = [], test_info = [], test_fixes = []\<rparr> (XITTestRegistry ''a'' [] (2013, 1, 1))])) = None \<and>
   mset (fst (compare_registries None [addTest \<lparr>suite = ''S'', name = ''t'', status = True, test_bugs = [], test_info = [], test_fixes = []\<rparr> (XITTestRegistry ''a'' [] (2013, 1, 1)), XITTestRegistry ''b'' [] (2013, 1, 1)] [addTest \<lparr>suite = ''S'', name = ''t'', status = True, test_bugs = [], test_info = [], test_fixes = []\<rparr> (XITTestRegistry ''a'' [] (2013, 1, 1)), XITTestRegistry ''c'' [] (2013, 1, 1)])) =
     mset (fst (compare_registries None [XITTestRegistry ''b'' [] (2013, 1, 1), addTest \<lparr>suite = ''S'', name = ''t'', status = True, test_bugs = [], test_info = [], test_fixes = []\<rparr> (XITTestRegistry ''a'' [] (2013, 1, 1))] [XITTestRegistry ''c'' [] (2013, 1, 1), addTest \<lparr>suite = ''S'', name = ''t'', status = True, test_bugs = [], test_info = [], test_fixes = []\<rparr> (XITTestRegistry ''a'' [] (2013, 1, 1))])) \<and>
   set (fst (snd (compare_registries None [addTest \<lparr>suite = ''S'', name = ''t'', status = True, test_bugs = [], test_info = [], test_fixes = []\<rparr> (XITTestRegistry ''a'' [] (2013, 1, 1)), XITTestRegistry ''b'' [] (2013, 1, 1)] [addTest \<lparr>suite = ''S'', name = ''t'', status = True, test_bugs = [], test_info = [], test_fixes = []\<rparr> (XITTestRegistry ''a'' [] (2013, 1, 1)), XITTestRegistry ''c'' [] (2013, 1, 1)]))) =
     set (fst (snd (compare_registries None [XITTestRegistry ''b'' [] (2013, 1, 1), addTest \<lparr>suite = ''S'', name = ''t'', status = True, test_bugs = [], test_info = [], test_fixes = []\<rparr> (XITTestRegistry ''a'' [] (2013, 1, 1))] [XITTestRegistry ''c'' [] (2013, 1, 1), addTest \<lparr>suite = ''S'', name = ''t'', status = True, test_bugs = [], test_info = [], test_fixes = []\<rparr> (XITTestRegistry ''a'' [] (2013, 1, 1))])))"
proof -
  have p1: "mset [addTest \<lparr>suite = ''S'', name = ''t'', status = True, test_bugs = [], test_info = [], test_fixes = []\<rparr> (XITTestRegistry ''a'' [] (2013, 1, 1)), XITTestRegistry ''b'' [] (2013, 1, 1)] = mset [XITTestRegistry ''b'' [] (2013, 1, 1), addTest \<lparr>suite = ''S'', name = ''t'', status = True, test_bugs = [], test_info = [], test_fixes = []\<rparr> (XITTestRegistry ''a'' [] (2013, 1, 1))]" by simp
  have p2: "mset [addTest \<lparr>suite = ''S'', name = ''t'', status = True, test_bugs = [], test_info = [], test_fixes = []\<rparr> (XITTestRegistry ''a'' [] (2013, 1, 1)), XITTestRegistry ''c'' [] (2013, 1, 1)] = mset [XITTestRegistry ''c'' [] (2013, 1, 1), addTest \<lparr>suite = ''S'', name = ''t'', status = True, test_bugs = [], test_info = [], test_fixes = []\<rparr> (XITTestRegistry ''a'' [] (2013, 1, 1))]" by simp
  have d: "distinct (map reg_name [addTest \<lparr>suite = ''S'', name = ''t'', status = True, test_bugs = [], test_info = [], test_fixes = []\<rparr> (XITTestRegistry ''a'' [] (2013, 1, 1)), XITTestRegistry ''c'' [] (2013, 1, 1)])" by simp
  have ok: "pairs_ok [addTest \<lparr>suite = ''S'', name = ''t'', status = True, test_bugs = [], test_info = [], test_fixes = []\<rparr> (XITTestRegistry ''a'' [] (2013, 1, 1)), XITTestRegistry ''b'' [] (2013, 1, 1)] [addTest \<lparr>suite = ''S'', name = ''t'', status = True, test_bugs = [], test_info = [], test_fixes = []\<rparr> (XITTestRegistry ''a'' [] (2013, 1, 1)), XITTestRegistry ''c'' [] (2013, 1, 1)]"
    by code_simp
  show ?thesis
    using compare_registries_order_independent[OF p1 p2 d ok] .
qed

end
