(* ===== verification/Lifecycle.thy ===== *)
theory Lifecycle
  imports Cli
begin

text \<open>
  The registries the program of \<^verbatim>\<open>src/registry/xit.py\<close> holds over its life, as an
  inductive predicate: a registry is created from a JUnit run (\<^verbatim>\<open>create\<close>), loaded
  from a file of any content (\<^verbatim>\<open>load_registry\<close>), changed by an \<^verbatim>\<open>edit\<close>
  subcommand or a \<^verbatim>\<open>meta\<close> subcommand, or made by \<^verbatim>\<open>merge --add\<close> from the
  first registry of two loaded files. Each command writes its registry out with
  \<^verbatim>\<open>toXML\<close> and the next command loads a file, so the rule for loading covers the
  hand-over between commands. Well-formedness is an invariant of every such registry.
\<close>

text \<open>One command that changes a loaded registry in place: an \<^verbatim>\<open>edit\<close>
  subcommand, \<^verbatim>\<open>meta set-date\<close> or \<^verbatim>\<open>meta set-module-version\<close>.\<close>

inductive cmd_step :: "xit_registry \<Rightarrow> xit_registry \<Rightarrow> bool" where
  edit: "edit_command r s n c = Inr r' \<Longrightarrow> cmd_step r r'"
| date: "set_date r d parse now = Inr r' \<Longrightarrow> cmd_step r r'"
| modversion: "set_modversion r m v ty = Inr r' \<Longrightarrow> cmd_step r r'"

inductive registry_state :: "xit_registry \<Rightarrow> bool" where
  created: "create_registry results path name_arg auto rpm_q now = Inr r \<Longrightarrow> registry_state r"
| loaded: "load_registry strptime now doc regname = Inr r \<Longrightarrow> registry_state r"
| changed: "registry_state r \<Longrightarrow> cmd_step r r' \<Longrightarrow> registry_state r'"
| merged: "fromXML strptime now d1 = Inr regs1 \<Longrightarrow> fromXML strptime now d2 = Inr regs2 \<Longrightarrow>
    merge_add_registries regs1 regs2 = Inr r' \<Longrightarrow> registry_state r'"

section \<open>Each command keeps registries well-formed\<close>

lemma create_registry_wf:
  assumes "create_registry results path name_arg auto rpm_q now = Inr r"
  shows "reg_wf r"
proof -
  let ?base = "XITTestRegistry (results_reg_name name_arg path) [] now"
  obtain mvs where "add_results (?base\<lparr>reg_moduleversions := mvs\<rparr>) (sorted_items (group_results results)) = Inr r"
    using assms by (auto simp: create_registry_def Let_def split: sum.splits if_splits)
  then have "r = fold addTest (map result_test (concat (map (\<lambda>(s, rs). sort_key tc_key rs)
      (sorted_items (group_results results))))) (?base\<lparr>reg_moduleversions := mvs\<rparr>)"
    using add_results_fold[OF group_results_suites] by simp
  then show ?thesis
    by (simp add: reg_wf_fold_addTest reg_wf_empty list_all_iff test_wf_def)
qed

lemma fromXML_regs_wf: "fromXML strptime now doc = Inr regs \<Longrightarrow> r \<in> set regs \<Longrightarrow> reg_wf r"
proof -
  assume d: "fromXML strptime now doc = Inr regs" and r: "r \<in> set regs"
  have "list_all reg_wf regs"
    using d unfolding fromXML_def
    by (rule fold_err_preserves[where P = "list_all reg_wf"]) (auto simp: err_bind_Inr_iff dec_registry_wf)
  with r show ?thesis by (simp add: list_all_iff)
qed

lemma load_registry_from_file_mem: "load_registry_from_file regs regname = Inr r \<Longrightarrow> r \<in> set regs"
  by (cases regs) (auto simp: load_registry_from_file_def find_Some_iff split: option.splits if_splits)

lemma load_registry_wf: "load_registry strptime now doc regname = Inr r \<Longrightarrow> reg_wf r"
  by (auto simp: load_registry_def err_bind_Inr_iff dest: load_registry_from_file_mem fromXML_regs_wf)

lemma edit_command_wf:
  assumes wf: "reg_wf reg" and ed: "edit_command reg s n c = Inr reg'"
  shows "reg_wf reg'"
proof -
  obtain t t' where t: "getTest reg s n = Some t" and r': "reg' = put_test s n t' reg"
    and f: "suite t' = suite t" "name t' = name t" "test_wf t \<longrightarrow> test_wf t'"
    using edit_command_Inr[OF ed] by blast
  have key: "suite t = s" "name t = n" "test_wf t"
    using reg_wf_getTest[OF wf t] by auto
  then show ?thesis
    using f r' put_test_addTest[OF t] reg_wf_addTest[OF wf] by simp
qed

lemma merge_add_registries_wf:
  assumes "list_all reg_wf regs1" and "list_all reg_wf regs2"
    and "merge_add_registries regs1 regs2 = Inr r'"
  shows "reg_wf r'"
  using assms
  by (auto simp: merge_add_registries_def split: list.splits intro: reg_wf_merge_loop)

lemma cmd_step_frame:
  assumes wf: "reg_wf r" and st: "cmd_step r r'"
  shows "reg_wf r' \<and> reg_name r' = reg_name r \<and> (\<forall>s n. getTest r s n \<noteq> None \<longrightarrow> getTest r' s n \<noteq> None)"
  using st
proof (cases rule: cmd_step.cases)
  case (edit s n c)
  obtain t t' where t: "getTest r s n = Some t" and r': "r' = put_test s n t' r"
    and f: "suite t' = suite t" "name t' = name t"
    using edit_command_Inr[OF edit] by blast
  have key: "suite t = s" "name t = n"
    using reg_wf_getTest[OF wf t] by auto
  then have "r' = addTest t' r" using f r' put_test_addTest[OF t] by simp
  then show ?thesis
    using edit_command_wf[OF wf edit] by (simp add: getTest_addTest)
next
  case (date d parse now)
  then show ?thesis using wf by (auto simp: set_date_def getTest_def split: option.splits sum.splits)
next
  case (modversion m v ty)
  then show ?thesis using wf by (auto simp: set_modversion_def Let_def getTest_def)
qed

text \<open>C18: every registry the program creates, loads, edits, re-dates, re-versions or
  merges is well-formed: each suite dictionary holds only tests of that suite under their
  own names, and no test lists an annotation twice.\<close>

theorem registry_state_wf:
  assumes "registry_state r"
  shows "reg_wf r"
  using assms
proof (induction rule: registry_state.induct)
  case (created results path name_arg auto rpm_q now r)
  then show ?case by (rule create_registry_wf)
next
  case (loaded strptime now doc regname r)
  then show ?case by (rule load_registry_wf)
next
  case (changed r r')
  then show ?case using cmd_step_frame by blast
next
  case (merged strptime now d1 regs1 d2 regs2 r')
  then show ?case
    using merge_add_registries_wf[of regs1 regs2 r'] fromXML_regs_wf by (simp add: list_all_iff)
qed

theorem registry_state_wf_witness:
  "\<exists>r. create_registry [JUnitTestResult ''S'' ''a''] ''out/results.xml'' None None (\<lambda>m. (0, [])) (2013, 1, 1) = Inr r \<and>
     registry_state r \<and> reg_wf r"
proof -
  have "\<not> isl (create_registry [JUnitTestResult ''S'' ''a''] ''out/results.xml'' None None (\<lambda>m. (0, [])) (2013, 1, 1))"
    by code_simp
  then obtain r where c: "create_registry [JUnitTestResult ''S'' ''a''] ''out/results.xml'' None None (\<lambda>m. (0, [])) (2013, 1, 1) = Inr r"
    by (cases "create_registry [JUnitTestResult ''S'' ''a''] ''out/results.xml'' None None (\<lambda>m. (0, [])) (2013, 1, 1)") simp_all
  have st: "registry_state r" by (rule registry_state.created[OF c])
  show ?thesis using c st registry_state_wf[OF st] by blast
qed


text \<open>C19: no sequence of \<^verbatim>\<open>edit\<close> and \<^verbatim>\<open>meta\<close> commands on a well-formed
  registry deletes a test or renames the registry, and the registry stays well-formed.\<close>

theorem cmd_steps_keep_tests:
  assumes "cmd_step\<^sup>*\<^sup>* r r'" and "reg_wf r"
  shows "reg_wf r' \<and> reg_name r' = reg_name r \<and> (\<forall>s n. getTest r s n \<noteq> None \<longrightarrow> getTest r' s n \<noteq> None)"
  using assms
proof (induction rule: rtranclp_induct)
  case (step y z)
  then show ?case using cmd_step_frame[of y z] by auto
qed simp

theorem cmd_steps_keep_tests_witness:
  "cmd_step\<^sup>*\<^sup>* (addTest \<lparr>suite = ''S'', name = ''a'', status = True, test_bugs = [], test_info = [], test_fixes = []\<rparr>
       (XITTestRegistry ''r'' [] (2013, 1, 1)))
     (put_test ''S'' ''a'' \<lparr>suite = ''S'', name = ''a'', status = False, test_bugs = [], test_info = [], test_fixes = []\<rparr>
       (addTest \<lparr>suite = ''S'', name = ''a'', status = True, test_bugs = [], test_info = [], test_fixes = []\<rparr>
         (XITTestRegistry ''r'' [] (2013, 1, 1)))) \<and>
   getTest (put_test ''S'' ''a'' \<lparr>suite = ''S'', name = ''a'', status = False, test_bugs = [], test_info = [], test_fixes = []\<rparr>
       (addTest \<lparr>suite = ''S'', name = ''a'', status = True, test_bugs = [], test_info = [], test_fixes = []\<rparr>
         (XITTestRegistry ''r'' [] (2013, 1, 1)))) ''S'' ''a'' \<noteq> None"
proof -
  have wf: "reg_wf (addTest \<lparr>suite = ''S'', name = ''a'', status = True, test_bugs = [], test_info = [], test_fixes = []\<rparr>
       (XITTestRegistry ''r'' [] (2013, 1, 1)))" by code_simp
  have ed: "edit_command (addTest \<lparr>suite = ''S'', name = ''a'', status = True, test_bugs = [], test_info = [], test_fixes = []\<rparr>
       (XITTestRegistry ''r'' [] (2013, 1, 1))) ''S'' ''a'' (SetStatusCmd ''false'') =
     Inr (put_test ''S'' ''a'' \<lparr>suite = ''S'', name = ''a'', status = False, test_bugs = [], test_info = [], test_fixes = []\<rparr>
       (addTest \<lparr>suite = ''S'', name = ''a'', status = True, test_bugs = [], test_info = [], test_fixes = []\<rparr>
         (XITTestRegistry ''r'' [] (2013, 1, 1))))"
    by (simp add: set_status_def edit_test_def getTest_addTest status_words_def)
  have st: "cmd_step\<^sup>*\<^sup>* (addTest \<lparr>suite = ''S'', name = ''a'', status = True, test_bugs = [], test_info = [], test_fixes = []\<rparr>
       (XITTestRegistry ''r'' [] (2013, 1, 1)))
     (put_test ''S'' ''a'' \<lparr>suite = ''S'', name = ''a'', status = False, test_bugs = [], test_info = [], test_fixes = []\<rparr>
       (addTest \<lparr>suite = ''S'', name = ''a'', status = True, test_bugs = [], test_info = [], test_fixes = []\<rparr>
         (XITTestRegistry ''r'' [] (2013, 1, 1))))"
    using cmd_step.edit[OF ed] by (rule r_into_rtranclp)
  show ?thesis
    using st cmd_steps_keep_tests[OF st wf] by (simp add: getTest_addTest)
qed

end
