(* ===== verification/Xml_Roundtrip.thy ===== *)
theory Xml_Roundtrip
  imports Registry_Xml
begin

text \<open>
  What loading gives back after saving: \<^verbatim>\<open>XITTestRegistry.fromXML\<close> applied to the
  tree that \<^verbatim>\<open>XITTestRegistry.toXML\<close> builds. The loaded registry differs from the saved
  one only in normal forms (annotation lists sorted by the getters, each fix's extra arguments
  extended by its \<^verbatim>\<open>type\<close> attribute, module versions sorted), and saving it again
  writes the same tree. A fix whose extra arguments carry another \<^verbatim>\<open>type\<close> comes back as
  a different kind of fix.
\<close>

section \<open>Normal forms\<close>

text \<open>The attributes \<open>enc_fix\<close> writes for a fix; \<^verbatim>\<open>fromXML\<close> passes the whole
  attribute dictionary back as the fix's extra arguments.\<close>

definition fix_attrib :: "xit_fix \<Rightarrow> extra_args" where
  "fix_attrib f = x_attrib (enc_fix f)"

primrec norm_fix :: "xit_fix \<Rightarrow> xit_fix" where
  "norm_fix (XITFixGit x ea) = XITFixGit x (fix_attrib (XITFixGit x ea))"
| "norm_fix (XITFixRPM x ea) = XITFixRPM x (fix_attrib (XITFixRPM x ea))"

text \<open>A fix whose extra arguments do not name another type than its own: for any
  other fix \<^verbatim>\<open>toXML\<close> writes a \<^verbatim>\<open>type\<close> attribute that \<^verbatim>\<open>fromXML\<close>
  reads back as a different kind of fix.\<close>

definition fix_type_consistent :: "xit_fix \<Rightarrow> bool" where
  "fix_type_consistent f \<longleftrightarrow>
     (case Mapping.lookup (fix_extra_args f) ''type'' of None \<Rightarrow> True | Some ty \<Rightarrow> ty = fix_type f)"

definition reg_fixes_consistent :: "xit_registry \<Rightarrow> bool" where
  "reg_fixes_consistent r \<longleftrightarrow> list_all (\<lambda>t. list_all fix_type_consistent (test_fixes t)) (reg_test_list r)"

definition norm_test :: "xit_test \<Rightarrow> xit_test" where
  "norm_test t =
     t\<lparr>test_bugs := getBugs t, test_info := getInfo t, test_fixes := map norm_fix (getFixes t)\<rparr>"


text \<open>Every suite dictionary holds a test: true of every registry the code builds, since a
  suite is only created by \<^verbatim>\<open>addTest\<close>.\<close>

definition suites_nonempty :: "xit_registry \<Rightarrow> bool" where
  "suites_nonempty r \<longleftrightarrow> list_all (\<lambda>(s, d). Mapping.ordered_keys d \<noteq> []) (sorted_items (reg_tests r))"

text \<open>The registry \<^verbatim>\<open>fromXML\<close> builds from the document \<^verbatim>\<open>toXML\<close> writes.\<close>

abbreviation decoded :: "xit_date \<Rightarrow> xit_registry \<Rightarrow> xit_registry" where
  "decoded now r \<equiv> fold addTest (map norm_test (reg_test_list r))
     ((XITTestRegistry (reg_name r) [] now)\<lparr>reg_date := reg_date r,
        reg_moduleversions := sort_key mv_key (reg_moduleversions r)\<rparr>)"

section \<open>Properties\<close>

lemma lookup_fix_attrib:
  "Mapping.lookup (fix_attrib f) k =
     (if k \<in> set (Mapping.ordered_keys (fix_extra_args f)) then Mapping.lookup (fix_extra_args f) k
      else if k = ''type'' then Some (fix_type f) else None)"
  by (auto simp: fix_attrib_def enc_fix_def xml_sel_fold_set lookup_fold_update map_of_rev_distinct
      distinct_sorted_items map_of_sorted_items lookup_update' keys_dom_lookup
      split: option.splits dest: mem_ordered_keys)


lemma dec_bug_enc: "dec_bug (enc_bug b) t = Inr (addBug b t)"
  by (cases b) (simp add: dec_bug_def enc_bug_def attr_or_def lookup_update XITBug_def)

lemma dec_info_enc: "dec_info (enc_info i) t = Inr (addInfo i t)"
  by (cases i) (simp_all add: dec_info_def enc_info_def attr_or_def lookup_update info_createFromType_def)

lemma norm_fix_simps [simp]:
  "fix_type (norm_fix f) = fix_type f" "fix_text (norm_fix f) = fix_text f"
  "fix_key (norm_fix f) = fix_key f"
  by (cases f; simp add: fix_key_def)+

lemma get_attr_enc_fix:
  "fix_type_consistent f \<Longrightarrow> get_attr (enc_fix f) ''type'' = Inr (fix_type f)"
  using lookup_fix_attrib[of f "''type''"]
  by (auto simp: get_attr_def fix_type_consistent_def fix_attrib_def keys_dom_lookup
      split: option.splits if_splits dest: mem_ordered_keys)

lemma dec_fix_enc:
  "fix_type_consistent f \<Longrightarrow> dec_fix (enc_fix f) t = Inr (addFix (norm_fix f) t)"
  by (cases f) (simp_all add: dec_fix_def get_attr_enc_fix fix_createFromType_def fix_attrib_def)

lemma dec_modversion_enc:
  "dec_modversion (enc_modversion m) reg = Inr (reg\<lparr>reg_moduleversions := reg_moduleversions reg @ [m]\<rparr>)"
  by (simp add: dec_modversion_def enc_modversion_def attr_or_def get_attr_def lookup_update'
      XITModuleVersion_def)

lemma iterchildren_enc_test:
  "iterchildren (xmlns_tag ''bug'') (enc_test t) = map enc_bug (getBugs t)"
  "iterchildren (xmlns_tag ''testinfo'') (enc_test t) = map enc_info (getInfo t)"
  "iterchildren (xmlns_tag ''fix'') (enc_test t) = map enc_fix (getFixes t)"
  by (simp_all add: iterchildren_def enc_test_def filter_tag_map)

lemma enc_test_attrs:
  "get_attr (enc_test t) ''name'' = Inr (name t)"
  "get_attr (enc_test t) ''success'' = Inr (bool_lower (status t))"
  by (simp_all add: get_attr_def enc_test_def lookup_update')

lemma str2bool_lower: "str2bool (StatusStr (bool_lower b)) = Inr b"
  by (simp add: bool_lower_def)

lemma fold_addBug: "fold addBug bs t = t\<lparr>test_bugs := fold (append_unique bug_key) bs (test_bugs t)\<rparr>"
  by (induction bs arbitrary: t) (simp_all add: addBug_def)

lemma fold_addInfo: "fold addInfo is t = t\<lparr>test_info := fold (append_unique info_key) is (test_info t)\<rparr>"
  by (induction "is" arbitrary: t) (simp_all add: addInfo_def)

lemma fold_addFix: "fold addFix fs t = t\<lparr>test_fixes := fold (append_unique fix_key) fs (test_fixes t)\<rparr>"
  by (induction fs arbitrary: t) (simp_all add: addFix_def)


lemma distinct_getters:
  assumes "test_wf t"
  shows "distinct (map bug_key (getBugs t))" "distinct (map info_key (getInfo t))"
    "distinct (map fix_key (map norm_fix (getFixes t)))"
  using assms sort_key_strict[of bug_key "test_bugs t"] sort_key_strict[of info_key "test_info t"]
    sort_key_strict[of fix_key "test_fixes t"]
  by (simp_all add: test_wf_def getBugs_def getInfo_def getFixes_def strict_sorted_iff comp_def)

lemma dec_testcase_enc:
  assumes sn: "get_attr sx ''name'' = Inr (suite t)" and wf: "test_wf t"
    and fx: "list_all fix_type_consistent (test_fixes t)"
  shows "dec_testcase sx (enc_test t) = Inr (norm_test t)"
proof -
  let ?t0 = "\<lparr>suite = suite t, name = name t, status = status t, test_bugs = [], test_info = [], test_fixes = []\<rparr>"
  have bugs: "fold_err dec_bug (map enc_bug (getBugs t)) ?t0 = Inr (fold addBug (getBugs t) ?t0)"
    by (simp add: fold_err_map fold_err_all_ok dec_bug_enc)
  have info: "fold_err dec_info (map enc_info (getInfo t)) s = Inr (fold addInfo (getInfo t) s)" for s
    by (simp add: fold_err_map fold_err_all_ok dec_info_enc)
  have "\<And>f. f \<in> set (getFixes t) \<Longrightarrow> fix_type_consistent f"
    using fx by (simp add: getFixes_def list_all_iff)
  then have fxs: "fold_err dec_fix (map enc_fix (getFixes t)) s = Inr (fold addFix (map norm_fix (getFixes t)) s)"
    for s by (simp add: fold_err_map fold_err_all_ok dec_fix_enc fold_map comp_def)
  show ?thesis
    unfolding dec_testcase_def sn enc_test_attrs err_bind_simps str2bool_lower
    using distinct_getters[OF wf]
    by (simp add: XITTest_def iterchildren_enc_test
        bugs info fxs fold_addBug fold_addInfo fold_addFix fold_append_unique_distinct norm_test_def)
qed


lemma get_attr_update [simp]:
  "get_attr (xml_set k v e) k = Inr v"
  by (simp add: get_attr_def)

lemma dec_suite_enc:
  assumes "\<forall>(n, t)\<in>set (sorted_items d). suite t = sn \<and> test_wf t \<and> list_all fix_type_consistent (test_fixes t)"
  shows "dec_suite (enc_suite (sn, d)) reg = Inr (fold addTest (map (\<lambda>(n, t). norm_test t) (sorted_items d)) reg)"
proof -
  have it: "iterchildren (xmlns_tag ''testcase'') (enc_suite (sn, d)) = map (\<lambda>(n, t). enc_test t) (sorted_items d)"
    by (simp add: iterchildren_def enc_suite_def filter_tag_map split: prod.splits)
  have nm: "get_attr (enc_suite (sn, d)) ''name'' = Inr sn"
    by (simp add: get_attr_def enc_suite_def)
  have tc: "dec_testcase (enc_suite (sn, d)) (enc_test t) = Inr (norm_test t)" if "(n, t) \<in> set (sorted_items d)" for n t
    using assms that nm by (intro dec_testcase_enc) auto
  show ?thesis
    unfolding dec_suite_def it fold_err_map fold_map
    by (rule fold_err_all_ok) (auto simp: tc split: prod.splits)
qed

lemma fold_dec_modversion:
  "fold_err dec_modversion (map enc_modversion ms) reg = Inr (reg\<lparr>reg_moduleversions := reg_moduleversions reg @ ms\<rparr>)"
  by (induction ms arbitrary: reg) (simp_all add: fold_err_map dec_modversion_enc)

lemma dec_meta_enc:
  assumes "strptime (strftime (reg_date r)) = Inr (reg_date r)"
  shows "dec_meta strptime (enc_meta strftime r) reg =
    Inr (reg\<lparr>reg_date := reg_date r, reg_moduleversions := reg_moduleversions reg @ sort_key mv_key (reg_moduleversions r)\<rparr>)"
proof -
  have "find_child (xmlns_tag ''date'') (enc_meta strftime r) = Some (E ''date'' (strftime (reg_date r)))"
    by (simp add: find_child_def enc_meta_def)
  moreover have "iterchildren (xmlns_tag ''moduleversion'') (enc_meta strftime r) =
      map enc_modversion (sort_key mv_key (reg_moduleversions r))"
    by (simp add: iterchildren_def enc_meta_def filter_tag_map)
  ultimately show ?thesis
    using assms by (simp add: dec_meta_def fold_dec_modversion)
qed


lemma reg_wf_items:
  assumes wf: "reg_wf r" and sd: "(sn, d) \<in> set (sorted_items (reg_tests r))"
    and nt: "(n, t) \<in> set (sorted_items d)"
  shows "suite t = sn \<and> test_wf t \<and> t \<in> set (reg_test_list r)"
proof -
  have "finite (Mapping.keys (reg_tests r))"
    using wf by (simp add: reg_wf_def xit_simps)
  with sd have "Mapping.lookup (reg_tests r) sn = Some d"
    by (simp add: sorted_items_mem)
  then have swf: "suite_wf sn d"
    using wf by (rule reg_wf_suites[rotated])
  with nt have "Mapping.lookup d n = Some t"
    by (simp add: sorted_items_mem suite_wf_finite)
  with swf have "suite t = sn \<and> test_wf t"
    by (simp add: suite_wf_lookup)
  moreover have "t \<in> set (reg_test_list r)"
    using sd nt by (force simp: reg_test_list_def)
  ultimately show ?thesis by simp
qed

lemma fold_suites:
  "fold (\<lambda>sd. fold addTest (map (\<lambda>(n, t). norm_test t) (sorted_items (snd sd)))) items reg =
   fold addTest (map norm_test (concat (map (\<lambda>(s, d). map snd (sorted_items d)) items))) reg"
  by (induction items arbitrary: reg) (auto simp: case_prod_unfold comp_def)

lemma dec_registry_enc:
  assumes wf: "reg_wf r" and dt: "strptime (strftime (reg_date r)) = Inr (reg_date r)"
    and fx: "reg_fixes_consistent r"
  shows "dec_registry strptime now (enc_registry strftime r) =
    Inr (fold addTest (map norm_test (reg_test_list r))
          ((XITTestRegistry (reg_name r) [] now)\<lparr>reg_date := reg_date r,
             reg_moduleversions := sort_key mv_key (reg_moduleversions r)\<rparr>))"
proof -
  have metas: "iterchildren (xmlns_tag ''meta'') (enc_registry strftime r) = [enc_meta strftime r]"
    by (simp add: iterchildren_def enc_registry_def filter_tag_map)
  have suites: "iterchildren (xmlns_tag ''testsuite'') (enc_registry strftime r) =
      map enc_suite (sorted_items (reg_tests r))"
    by (simp add: iterchildren_def enc_registry_def filter_tag_map)
  have "dec_suite (enc_suite sd) reg = Inr (fold addTest (map (\<lambda>(n, t). norm_test t) (sorted_items (snd sd))) reg)"
    if "sd \<in> set (sorted_items (reg_tests r))" for sd reg
  proof (cases sd)
    case (Pair sn d)
    have "\<forall>(n, t)\<in>set (sorted_items d). suite t = sn \<and> test_wf t \<and> list_all fix_type_consistent (test_fixes t)"
      using reg_wf_items[OF wf that[unfolded Pair]] fx by (auto simp: reg_fixes_consistent_def list_all_iff)
    then show ?thesis
      using dec_suite_enc Pair by simp
  qed
  then have "fold_err dec_suite (map enc_suite (sorted_items (reg_tests r))) reg =
      Inr (fold addTest (map norm_test (reg_test_list r)) reg)" for reg
    unfolding fold_err_map reg_test_list_def fold_suites[symmetric]
    by (rule fold_err_all_ok)
  moreover have "get_attr (enc_registry strftime r) ''name'' = Inr (reg_name r)"
    by (simp add: get_attr_def enc_registry_def)
  ultimately show ?thesis
    using dt by (simp add: dec_registry_def metas suites dec_meta_enc)
qed

lemma fromXML_toXML_Inr:
  assumes "reg_wf r" and "strptime (strftime (reg_date r)) = Inr (reg_date r)" and "reg_fixes_consistent r"
  shows "fromXML strptime now (toXML strftime r) =
    Inr [fold addTest (map norm_test (reg_test_list r))
          ((XITTestRegistry (reg_name r) [] now)\<lparr>reg_date := reg_date r,
             reg_moduleversions := sort_key mv_key (reg_moduleversions r)\<rparr>)]"
  by (simp add: fromXML_def toXML_def iterchildren_def dec_registry_enc[where strptime = strptime and strftime = strftime, OF assms])


lemma norm_test_key [simp]: "suite (norm_test t) = suite t" "name (norm_test t) = name t"
  by (simp_all add: norm_test_def)

lemma test_wf_norm_test: "test_wf t \<Longrightarrow> test_wf (norm_test t)"
  using distinct_getters[of t] by (simp add: test_wf_def norm_test_def)

lemma decoded_wf:
  assumes wf: "reg_wf r"
  shows "reg_wf (decoded now r)"
proof -
  have twf: "list_all test_wf (map norm_test (reg_test_list r))"
    using wf reg_wf_getTest[OF wf] by (auto simp: list_all_iff mem_reg_test_list intro: test_wf_norm_test)
  have "reg_wf ((XITTestRegistry (reg_name r) [] now)\<lparr>reg_date := reg_date r,
        reg_moduleversions := sort_key mv_key (reg_moduleversions r)\<rparr>)"
    by (simp add: reg_wf_empty)
  then show ?thesis
    using twf by (rule reg_wf_fold_addTest)
qed

lemma getTest_decoded:
  assumes wf: "reg_wf r"
  shows "getTest (decoded now r) s n = map_option norm_test (getTest r s n)"
proof -
  let ?L = "reg_test_list r"
  have dk: "distinct (map tc_key ?L)"
    using sorted_reg_test_list[OF wf] by (simp add: strict_sorted_iff)
  have "find (\<lambda>t. suite t = s \<and> name t = n) (rev (map norm_test ?L)) =
      map_option norm_test (find (\<lambda>t. tc_key t = (s, n)) (rev ?L))"
    by (simp add: rev_map find_map comp_def tc_key_def)
  also have "\<dots> = map_option norm_test (getTest r s n)"
    using find_rev_distinct[OF dk] find_reg_test_list[OF wf] by simp
  finally have f: "find (\<lambda>t. suite t = s \<and> name t = n) (rev (map norm_test ?L)) =
      map_option norm_test (getTest r s n)" .
  have g0: "getTest (XITTestRegistry (reg_name r) [] now) s n = None"
    by (simp add: getTest_def XITTestRegistry_def from_list_def lookup_empty)
  show ?thesis
    using getTest_fold_addTest[of "map norm_test ?L" _ s n] g0 f by (simp split: option.splits)
qed

lemma suites_nonempty_lookup:
  assumes "reg_wf r"
  shows "suites_nonempty r \<longleftrightarrow>
    (\<forall>s d. Mapping.lookup (reg_tests r) s = Some d \<longrightarrow> Mapping.keys d \<noteq> {})"
proof -
  have fin: "finite (Mapping.keys (reg_tests r))"
    using assms by (simp add: reg_wf_def xit_simps)
  have fd: "Mapping.lookup (reg_tests r) s = Some d \<Longrightarrow> finite (Mapping.keys d)" for s d
    using assms by (blast dest: reg_wf_suites suite_wf_finite)
  have "(\<forall>(s, d)\<in>set (sorted_items (reg_tests r)). Mapping.ordered_keys d \<noteq> []) \<longleftrightarrow>
      (\<forall>s d. Mapping.lookup (reg_tests r) s = Some d \<longrightarrow> Mapping.ordered_keys d \<noteq> [])"
    using fin by (auto simp: sorted_items_mem)
  also have "\<dots> \<longleftrightarrow> (\<forall>s d. Mapping.lookup (reg_tests r) s = Some d \<longrightarrow> Mapping.keys d \<noteq> {})"
    using fd by (metis set_empty set_ordered_keys)
  finally show ?thesis
    by (simp add: suites_nonempty_def list_all_iff)
qed

lemma xml_elem_eqI:
  "x_tag a = x_tag b \<Longrightarrow> x_attrib a = x_attrib b \<Longrightarrow> x_text a = x_text b \<Longrightarrow>
     x_children a = x_children b \<Longrightarrow> a = b"
  by (cases a; cases b) simp

lemma finite_keys_fold_update:
  "finite (Mapping.keys m) \<Longrightarrow> finite (Mapping.keys (fold (\<lambda>(k, v). Mapping.update k v) ps m))"
  by (induction ps arbitrary: m) auto

lemma finite_fix_attrib: "finite (Mapping.keys (fix_attrib f))"
  by (simp add: fix_attrib_def enc_fix_def xml_sel_fold_set finite_keys_fold_update)

lemma fix_attrib_norm_fix:
  assumes "fix_type_consistent f"
  shows "fix_attrib (norm_fix f) = fix_attrib f"
proof (rule mapping_eqI)
  fix k
  have ty: "Mapping.lookup (fix_attrib f) ''type'' = Some (fix_type f)"
    using get_attr_enc_fix[OF assms] by (simp add: get_attr_def fix_attrib_def split: option.splits)
  have ea: "fix_extra_args (norm_fix f) = fix_attrib f"
    by (cases f) simp_all
  show "Mapping.lookup (fix_attrib (norm_fix f)) k = Mapping.lookup (fix_attrib f) k"
    using ty finite_fix_attrib[of f]
    by (cases "Mapping.lookup (fix_attrib f) k")
      (auto simp: lookup_fix_attrib[of "norm_fix f"] ea set_ordered_keys keys_dom_lookup)
qed

lemma enc_fix_norm_fix:
  assumes "fix_type_consistent f"
  shows "enc_fix (norm_fix f) = enc_fix f"
proof (rule xml_elem_eqI)
  show "x_attrib (enc_fix (norm_fix f)) = x_attrib (enc_fix f)"
    using fix_attrib_norm_fix[OF assms] by (simp add: fix_attrib_def)
qed (simp_all add: enc_fix_def xml_sel_fold_set)

lemma getters_norm_test:
  "getBugs (norm_test t) = getBugs t" "getInfo (norm_test t) = getInfo t"
  "getFixes (norm_test t) = map norm_fix (getFixes t)"
  by (simp_all add: norm_test_def getBugs_def getInfo_def getFixes_def sort_key_id_if_sorted
      comp_def)


lemma enc_test_norm_test:
  assumes "list_all fix_type_consistent (test_fixes t)"
  shows "enc_test (norm_test t) = enc_test t"
proof -
  have m: "map (enc_fix \<circ> norm_fix) (getFixes t) = map enc_fix (getFixes t)"
    using assms by (simp add: getFixes_def list_all_iff enc_fix_norm_fix)
  show ?thesis
    by (simp add: enc_test_def getters_norm_test m) (simp add: norm_test_def)
qed

lemma sorted_items_map_values:
  "sorted_items (Mapping.map_values f m) = map (\<lambda>(k, v). (k, f k v)) (sorted_items m)"
proof -
  have ok: "Mapping.ordered_keys (Mapping.map_values f m) = Mapping.ordered_keys m"
    by (simp add: ordered_keys_def keys_map_values)
  show ?thesis
    unfolding sorted_items_def ok
    by (auto simp: lookup_map_values keys_dom_lookup dest!: mem_ordered_keys intro!: map_cong)
qed

lemma keys_nonempty_getTest:
  assumes "reg_wf r" "suites_nonempty r" "Mapping.lookup (reg_tests r) s = Some d"
  obtains n t where "getTest r s n = Some t"
proof -
  from assms have "Mapping.keys d \<noteq> {}" by (simp add: suites_nonempty_lookup)
  then obtain n where "n \<in> Mapping.keys d" by blast
  then obtain t where "Mapping.lookup d n = Some t" by (auto simp: keys_dom_lookup)
  with assms(3) show ?thesis using that by (simp add: getTest_def)
qed

lemma reg_tests_eq_getTest:
  assumes wf1: "reg_wf r1" and wf2: "reg_wf r2" and ne1: "suites_nonempty r1" and ne2: "suites_nonempty r2"
    and look: "\<And>s n. getTest r1 s n = map_option f (getTest r2 s n)"
  shows "reg_tests r1 = Mapping.map_values (\<lambda>_ d. Mapping.map_values (\<lambda>_. f) d) (reg_tests r2)"
proof (rule mapping_eqI)
  fix s
  show "Mapping.lookup (reg_tests r1) s =
      Mapping.lookup (Mapping.map_values (\<lambda>_ d. Mapping.map_values (\<lambda>_. f) d) (reg_tests r2)) s"
  proof (cases "Mapping.lookup (reg_tests r2) s")
    case None
    show ?thesis
    proof (cases "Mapping.lookup (reg_tests r1) s")
      case (Some d1)
      then obtain n t where "getTest r1 s n = Some t"
        using keys_nonempty_getTest[OF wf1 ne1] by blast
      with look[of s n] None show ?thesis by (simp add: getTest_def)
    qed (simp add: None lookup_map_values)
  next
    case (Some d2)
    obtain n t where "getTest r2 s n = Some t"
      using keys_nonempty_getTest[OF wf2 ne2 Some] by blast
    with look[of s n] obtain d1 where d1: "Mapping.lookup (reg_tests r1) s = Some d1"
      by (auto simp: getTest_def split: option.splits)
    have "d1 = Mapping.map_values (\<lambda>_. f) d2"
    proof (rule mapping_eqI)
      fix n
      show "Mapping.lookup d1 n = Mapping.lookup (Mapping.map_values (\<lambda>_. f) d2) n"
        using look[of s n] d1 Some by (simp add: getTest_def lookup_map_values)
    qed
    with d1 Some show ?thesis by (simp add: lookup_map_values)
  qed
qed


lemma suites_nonempty_addTest:
  assumes wf: "reg_wf r" and t: "test_wf t" and ne: "suites_nonempty r"
  shows "suites_nonempty (addTest t r)"
proof -
  have "Mapping.keys d \<noteq> {}" if "Mapping.lookup (reg_tests (addTest t r)) s = Some d" for s d
  proof (cases "s = suite t")
    case True
    with that show ?thesis by (auto simp: addTest_def add_to_tests_def Let_def lookup_update')
  next
    case False
    with that have "Mapping.lookup (reg_tests r) s = Some d"
      by (simp add: addTest_def add_to_tests_def Let_def lookup_update')
    with wf ne show ?thesis by (simp add: suites_nonempty_lookup)
  qed
  then show ?thesis
    using reg_wf_addTest[OF wf t] by (simp add: suites_nonempty_lookup)
qed

lemma suites_nonempty_fold_addTest:
  "reg_wf r \<Longrightarrow> list_all test_wf xs \<Longrightarrow> suites_nonempty r \<Longrightarrow> suites_nonempty (fold addTest xs r)"
  by (induction xs arbitrary: r) (simp_all add: suites_nonempty_addTest reg_wf_addTest)

lemma suites_nonempty_decoded:
  assumes wf: "reg_wf r"
  shows "suites_nonempty (decoded now r)"
proof (rule suites_nonempty_fold_addTest)
  show "reg_wf ((XITTestRegistry (reg_name r) [] now)\<lparr>reg_date := reg_date r,
      reg_moduleversions := sort_key mv_key (reg_moduleversions r)\<rparr>)"
    by (simp add: reg_wf_empty)
  show "list_all test_wf (map norm_test (reg_test_list r))"
    using wf reg_wf_getTest[OF wf] by (auto simp: list_all_iff mem_reg_test_list intro: test_wf_norm_test)
  show "suites_nonempty ((XITTestRegistry (reg_name r) [] now)\<lparr>reg_date := reg_date r,
      reg_moduleversions := sort_key mv_key (reg_moduleversions r)\<rparr>)"
    by (simp add: suites_nonempty_def XITTestRegistry_def from_list_def sorted_items_def)
qed

lemma toXML_decoded:
  assumes wf: "reg_wf r" and fx: "reg_fixes_consistent r" and ne: "suites_nonempty r"
  shows "toXML strftime (decoded now r) = toXML strftime r"
proof -
  have tests: "reg_tests (decoded now r) =
      Mapping.map_values (\<lambda>_ d. Mapping.map_values (\<lambda>_. norm_test) d) (reg_tests r)"
    using decoded_wf[OF wf] wf suites_nonempty_decoded[OF wf] ne getTest_decoded[OF wf]
    by (rule reg_tests_eq_getTest)
  have meta: "enc_meta strftime (decoded now r) = enc_meta strftime r"
    by (simp add: enc_meta_def sort_key_id_if_sorted)
  have "enc_suite (sn, Mapping.map_values (\<lambda>_. norm_test) d) = enc_suite (sn, d)"
    if "(sn, d) \<in> set (sorted_items (reg_tests r))" for sn d
  proof -
    have e: "enc_test (norm_test t) = enc_test t" if "(n, t) \<in> set (sorted_items d)" for n t
      using reg_wf_items[OF wf \<open>(sn, d) \<in> _\<close> that] fx
      by (intro enc_test_norm_test) (auto simp: reg_fixes_consistent_def list_all_iff)
    have m: "map ((\<lambda>(n, y). enc_test y) \<circ> (\<lambda>(k, v). (k, norm_test v))) (sorted_items d) =
        map (\<lambda>(n, y). enc_test y) (sorted_items d)"
      by (rule map_cong) (auto simp: e)
    show ?thesis
      unfolding enc_suite_def sorted_items_map_values case_prod_conv map_map m by (rule refl)
  qed
  then have "map enc_suite (sorted_items (reg_tests (decoded now r))) = map enc_suite (sorted_items (reg_tests r))"
    by (auto simp: tests sorted_items_map_values intro!: map_cong)
  with meta show ?thesis
    by (simp add: toXML_def enc_registry_def)
qed

section \<open>Load after save\<close>

text \<open>C8: loading the document that \<^verbatim>\<open>toXML\<close> writes for a well-formed registry (with
  a date that \<^verbatim>\<open>strptime\<close> reads back and fixes whose extra arguments name no other
  type) gives exactly one registry, well-formed, with the same name and date, the module
  versions in sorted order, and at every (suite, name) the same test with its annotation
  lists sorted and each fix's extra arguments extended by its type.\<close>

theorem fromXML_toXML:
  assumes wf: "reg_wf r" and dt: "strptime (strftime (reg_date r)) = Inr (reg_date r)"
    and fx: "reg_fixes_consistent r"
  shows "\<exists>r'. fromXML strptime now (toXML strftime r) = Inr [r'] \<and> reg_wf r' \<and>
    reg_name r' = reg_name r \<and> reg_date r' = reg_date r \<and>
    reg_moduleversions r' = sort_key mv_key (reg_moduleversions r) \<and>
    (\<forall>s n. getTest r' s n = map_option norm_test (getTest r s n))"
  using fromXML_toXML_Inr[where strptime = strptime and strftime = strftime and now = now, OF wf dt fx]
    decoded_wf[OF wf, of now] getTest_decoded[OF wf, of now]
  by simp

theorem fromXML_toXML_witness:
  "\<exists>r'. fromXML (\<lambda>s. Inr (2013, 1, 1)) (2014, 2, 2)
      (toXML (\<lambda>d. ''2013-01-01'') (addTest \<lparr>suite = ''S'', name = ''a'', status = False,
         test_bugs = [XITBug ''bugzilla'' ''http://bugs/1''], test_info = [],
         test_fixes = [XITFixGit ''abc'' (Mapping.update ''repo'' ''git://x'' Mapping.empty)]\<rparr>
        (XITTestRegistry ''r'' [] (2013, 1, 1)))) = Inr [r'] \<and> reg_wf r' \<and> reg_name r' = ''r''"
proof -
  have wf: "reg_wf (addTest \<lparr>suite = ''S'', name = ''a'', status = False,
         test_bugs = [XITBug ''bugzilla'' ''http://bugs/1''], test_info = [],
         test_fixes = [XITFixGit ''abc'' (Mapping.update ''repo'' ''git://x'' Mapping.empty)]\<rparr>
        (XITTestRegistry ''r'' [] (2013, 1, 1)))"
    by code_simp
  have fx: "reg_fixes_consistent (addTest \<lparr>suite = ''S'', name = ''a'', status = False,
         test_bugs = [XITBug ''bugzilla'' ''http://bugs/1''], test_info = [],
         test_fixes = [XITFixGit ''abc'' (Mapping.update ''repo'' ''git://x'' Mapping.empty)]\<rparr>
        (XITTestRegistry ''r'' [] (2013, 1, 1)))"
    by code_simp
  have dt: "(\<lambda>s. Inr (2013, 1, 1)) ((\<lambda>d. ''2013-01-01'') (reg_date (addTest \<lparr>suite = ''S'', name = ''a'', status = False,
         test_bugs = [XITBug ''bugzilla'' ''http://bugs/1''], test_info = [],
         test_fixes = [XITFixGit ''abc'' (Mapping.update ''repo'' ''git://x'' Mapping.empty)]\<rparr>
        (XITTestRegistry ''r'' [] (2013, 1, 1))))) =
      (Inr (reg_date (addTest \<lparr>suite = ''S'', name = ''a'', status = False,
         test_bugs = [XITBug ''bugzilla'' ''http://bugs/1''], test_info = [],
         test_fixes = [XITFixGit ''abc'' (Mapping.update ''repo'' ''git://x'' Mapping.empty)]\<rparr>
        (XITTestRegistry ''r'' [] (2013, 1, 1)))) :: xit_error + xit_date)"
    by (simp add: XITTestRegistry_def)
  show ?thesis
    using fromXML_toXML[where strftime = "\<lambda>d. ''2013-01-01''" and now = "(2014, 2, 2)", OF wf dt fx]
    by (auto simp: XITTestRegistry_def)
qed

text \<open>C11: every command that changes a registry rewrites the whole file, and this is
  harmless: saving a registry that was just loaded writes back the very document that was
  loaded (for well-formed registries whose suites are non-empty and whose fixes name no
  other type).\<close>

theorem toXML_fromXML_stable:
  assumes wf: "reg_wf r" and dt: "strptime (strftime (reg_date r)) = Inr (reg_date r)"
    and fx: "reg_fixes_consistent r" and ne: "suites_nonempty r"
  shows "\<exists>r'. fromXML strptime now (toXML strftime r) = Inr [r'] \<and> toXML strftime r' = toXML strftime r"
  using fromXML_toXML_Inr[where strptime = strptime and strftime = strftime and now = now, OF wf dt fx]
    toXML_decoded[OF wf fx ne, of strftime now]
  by simp

theorem toXML_fromXML_stable_witness:
  "\<exists>r'. fromXML (\<lambda>s. Inr (2013, 1, 1)) (2014, 2, 2)
      (toXML (\<lambda>d. ''2013-01-01'') (addTest \<lparr>suite = ''S'', name = ''a'', status = True,
         test_bugs = [], test_info = [XITInfoURL ''http://wiki/a''], test_fixes = []\<rparr>
        (XITTestRegistry ''r'' [] (2013, 1, 1)))) = Inr [r'] \<and>
    toXML (\<lambda>d. ''2013-01-01'') r' = toXML (\<lambda>d. ''2013-01-01'') (addTest \<lparr>suite = ''S'', name = ''a'', status = True,
         test_bugs = [], test_info = [XITInfoURL ''http://wiki/a''], test_fixes = []\<rparr>
        (XITTestRegistry ''r'' [] (2013, 1, 1)))"
proof -
  have wf: "reg_wf (addTest \<lparr>suite = ''S'', name = ''a'', status = True,
         test_bugs = [], test_info = [XITInfoURL ''http://wiki/a''], test_fixes = []\<rparr>
        (XITTestRegistry ''r'' [] (2013, 1, 1)))"
    by code_simp
  have fx: "reg_fixes_consistent (addTest \<lparr>suite = ''S'', name = ''a'', status = True,
         test_bugs = [], test_info = [XITInfoURL ''http://wiki/a''], test_fixes = []\<rparr>
        (XITTestRegistry ''r'' [] (2013, 1, 1)))"
    by code_simp
  have ne: "suites_nonempty (addTest \<lparr>suite = ''S'', name = ''a'', status = True,
         test_bugs = [], test_info = [XITInfoURL ''http://wiki/a''], test_fixes = []\<rparr>
        (XITTestRegistry ''r'' [] (2013, 1, 1)))"
    by code_simp
  show ?thesis
    using toXML_fromXML_stable[OF wf _ fx ne, of "\<lambda>s. Inr (2013, 1, 1)" "\<lambda>d. ''2013-01-01''" "(2014, 2, 2)"]
    by (simp add: XITTestRegistry_def)
qed

lemma get_attr_enc_fix_type:
  assumes "finite (Mapping.keys (fix_extra_args f))"
  shows "get_attr (enc_fix f) ''type'' =
    Inr (case Mapping.lookup (fix_extra_args f) ''type'' of None \<Rightarrow> fix_type f | Some ty \<Rightarrow> ty)"
  using lookup_fix_attrib[of f "''type''"] assms
  by (auto simp: get_attr_def fix_attrib_def set_ordered_keys keys_dom_lookup split: option.splits)

text \<open>C39: \<^verbatim>\<open>toXML\<close> writes a fix's extra arguments after its \<^verbatim>\<open>type\<close>
  attribute, so an extra argument named \<^verbatim>\<open>type\<close> replaces it, and \<^verbatim>\<open>fromXML\<close>
  rebuilds the fix from that attribute: a fix without such an argument is read back in
  normal form, one whose \<^verbatim>\<open>type\<close> argument is \<^verbatim>\<open>git\<close> or \<^verbatim>\<open>rpm\<close>
  comes back as a fix of that kind whatever its own kind, and any other value makes the
  load fail with \<^verbatim>\<open>ValueError\<close>.\<close>

theorem fix_type_overwritten:
  assumes "finite (Mapping.keys (fix_extra_args f))"
  shows "dec_fix (enc_fix f) t =
    (case Mapping.lookup (fix_extra_args f) ''type'' of
       None \<Rightarrow> Inr (addFix (norm_fix f) t)
     | Some ty \<Rightarrow>
         if ty = ''git'' then Inr (addFix (XITFixGit (fix_text f) (fix_attrib f)) t)
         else if ty = ''rpm'' then Inr (addFix (XITFixRPM (fix_text f) (fix_attrib f)) t)
         else Inl ValueError)"
  using get_attr_enc_fix_type[OF assms]
  by (cases f) (auto simp: dec_fix_def fix_createFromType_def fix_attrib_def split: option.splits)

theorem fix_type_overwritten_witness:
  "finite (Mapping.keys (fix_extra_args (XITFixGit ''abc'' (Mapping.update ''type'' ''rpm'' Mapping.empty)))) \<and>
   map fix_type (test_fixes (projr (dec_fix (enc_fix (XITFixGit ''abc'' (Mapping.update ''type'' ''rpm'' Mapping.empty)))
     \<lparr>suite = ''S'', name = ''a'', status = False, test_bugs = [], test_info = [], test_fixes = []\<rparr>))) = [''rpm'']"
proof -
  have fin: "finite (Mapping.keys (fix_extra_args (XITFixGit ''abc'' (Mapping.update ''type'' ''rpm'' Mapping.empty))))"
    by simp
  show ?thesis
    using fin fix_type_overwritten[OF fin, of "\<lparr>suite = ''S'', name = ''a'', status = False, test_bugs = [], test_info = [], test_fixes = []\<rparr>"]
    by (simp add: lookup_update addFix_def append_unique_def py_contains_def)
qed

end
