(* ===== verification/Program.thy ===== *)
theory Program
  imports Lifecycle Xml_Roundtrip
begin

text \<open>
  The program of \<^verbatim>\<open>src/registry/xit.py\<close> as a whole: \<^verbatim>\<open>parse_cmdline\<close> builds
  the table of subcommands (the datatype \<open>xit_cmd\<close>, one constructor per subparser with
  its arguments) and \<^verbatim>\<open>run\<close> calls the handler \<^verbatim>\<open>set_defaults(func = ...)\<close>
  names (\<open>run_cmd\<close>). A handler reads files and stdin and writes the registry back
  through \<^verbatim>\<open>open_new_registry\<close>, \<^verbatim>\<open>write_to_registry\<close> and
  \<^verbatim>\<open>sync_registry\<close>; the file system is the explicit state \<open>fs_state\<close> (a map
  from paths to contents, and what was printed to stdout). What the program takes from its
  environment is the record \<open>io_env\<close>: \<^verbatim>\<open>objectify.parse\<close> of a file's text
  (which may raise), \<^verbatim>\<open>lxml.etree.tostring\<close> of a tree, \<^verbatim>\<open>time.strptime\<close>,
  \<^verbatim>\<open>time.strftime\<close>, \<^verbatim>\<open>time.localtime()\<close>, the \<^verbatim>\<open>rpm -q\<close> query, the text
  on stdin and the order \<^verbatim>\<open>sort()\<close> puts registries in. A handler's printed table is
  the \<open>report\<close> it returns; an exception or \<^verbatim>\<open>sys.exit(1)\<close> is its error.
\<close>

section \<open>State and environment\<close>

record fs_state =
  files :: "string \<rightharpoonup> string"
  stdout_text :: "string list"

record io_env =
  env_parse :: "string \<Rightarrow> xit_error + xml_elem"
  env_tostring :: "xml_elem \<Rightarrow> string"
  env_strptime :: "string \<Rightarrow> xit_error + xit_date"
  env_strftime :: "xit_date \<Rightarrow> string"
  env_now :: xit_date
  env_rpm_q :: "string \<Rightarrow> int \<times> string"
  env_stdin :: string
  env_sort :: "xit_registry list \<Rightarrow> xit_registry list"

section \<open>The subcommands of \<^verbatim>\<open>parse_cmdline\<close>\<close>

text \<open>\<^verbatim>\<open>create --name\<close> has \<^verbatim>\<open>nargs=1\<close> and the handler reads
  \<^verbatim>\<open>args.name[0]\<close>: the name is an option of one string. \<^verbatim>\<open>merge --add\<close> is
  \<^verbatim>\<open>store_true\<close> with \<^verbatim>\<open>default=True\<close>, so the flag is always true.\<close>

datatype xit_cmd =
    ListCmd
  | InfoCmd string string
  | VerifyCmd string bool
  | CompareCmd string string
  | CreateCmd string "string option" "string list option"
  | MergeCmd string string bool
  | EditCmd string string edit_cmd
  | SetDateCmd "string option"
  | SetModversionCmd string string "string option"

record xit_args =
  arg_file :: "string option"
  arg_regname :: "string option"
  arg_cmd :: xit_cmd

datatype report =
    NoReport
  | ListReport "(string \<times> string \<times> string) list"
  | InfoReport "string option"
  | VerifyReport "mv_row list" "verify_row list"
  | CompareReport "reg_table list" "string list"

section \<open>Reading and writing files\<close>

text \<open>\<^verbatim>\<open>objectify.parse\<close> of a path (an absent file raises \<^verbatim>\<open>IOError\<close>), or of
  stdin when \<^verbatim>\<open>--file\<close> is absent.\<close>

definition read_doc :: "io_env \<Rightarrow> fs_state \<Rightarrow> string option \<Rightarrow> xit_error + xml_elem" where
  "read_doc env fs path =
     err_bind (case path of
                 None \<Rightarrow> Inr (env_stdin env)
               | Some p \<Rightarrow> (case files fs p of None \<Rightarrow> Inl IOError | Some c \<Rightarrow> Inr c))
       (env_parse env)"

definition load_cli :: "io_env \<Rightarrow> fs_state \<Rightarrow> xit_args \<Rightarrow> xit_error + xit_registry" where
  "load_cli env fs args =
     err_bind (read_doc env fs (arg_file args))
       (\<lambda>doc. load_registry (env_strptime env) (env_now env) doc (arg_regname args))"

definition load_path :: "io_env \<Rightarrow> fs_state \<Rightarrow> string \<Rightarrow> xit_error + xit_registry list" where
  "load_path env fs p = err_bind (read_doc env fs (Some p)) (fromXML (env_strptime env) (env_now env))"

datatype out_handle = Stdout | TmpFile string

definition open_new_registry :: "string option \<Rightarrow> out_handle" where
  "open_new_registry file = (case file of None \<Rightarrow> Stdout | Some p \<Rightarrow> TmpFile '''')"

text \<open>\<^verbatim>\<open>print >> f, msg\<close> writes the message and a newline.\<close>

definition write_to_registry :: "out_handle \<Rightarrow> string \<Rightarrow> fs_state \<Rightarrow> out_handle \<times> fs_state" where
  "write_to_registry h msg fs =
     (case h of
        Stdout \<Rightarrow> (Stdout, fs\<lparr>stdout_text := stdout_text fs @ [msg @ nl]\<rparr>)
      | TmpFile c \<Rightarrow> (TmpFile (c @ msg @ nl), fs))"

text \<open>\<^verbatim>\<open>sync_registry\<close> truncates the target with \<^verbatim>\<open>open(args.file, "w")\<close> and
  copies the temporary file into it; its final state is the target holding the copy.\<close>

definition sync_registry :: "string option \<Rightarrow> out_handle \<Rightarrow> fs_state \<Rightarrow> fs_state" where
  "sync_registry file h fs =
     (case h of
        Stdout \<Rightarrow> fs
      | TmpFile c \<Rightarrow> (case file of None \<Rightarrow> fs | Some p \<Rightarrow> fs\<lparr>files := (files fs)(p \<mapsto> c)\<rparr>))"

definition registry_from_string :: "string option \<Rightarrow> string \<Rightarrow> fs_state \<Rightarrow> fs_state" where
  "registry_from_string file s fs =
     (case write_to_registry (open_new_registry file) s fs of (h, fs') \<Rightarrow> sync_registry file h fs')"

definition write_registry :: "io_env \<Rightarrow> xit_args \<Rightarrow> xit_registry \<Rightarrow> fs_state \<Rightarrow> fs_state" where
  "write_registry env args reg fs =
     registry_from_string (arg_file args) (env_tostring env (toXML (env_strftime env) reg)) fs"

section \<open>Dispatch: \<^verbatim>\<open>run\<close>\<close>

text \<open>A handler that ends in an error leaves the file system as it was; one that changes
  a registry writes it out last.\<close>

definition failed :: "xit_error \<Rightarrow> fs_state \<Rightarrow> report \<times> xit_error option \<times> fs_state" where
  "failed e fs = (NoReport, Some e, fs)"

definition write_result ::
  "io_env \<Rightarrow> xit_args \<Rightarrow> xit_error + xit_registry \<Rightarrow> fs_state \<Rightarrow> report \<times> xit_error option \<times> fs_state" where
  "write_result env args res fs =
     (case res of Inl e \<Rightarrow> failed e fs | Inr reg \<Rightarrow> (NoReport, None, write_registry env args reg fs))"

definition run_cmd :: "io_env \<Rightarrow> xit_args \<Rightarrow> fs_state \<Rightarrow> report \<times> xit_error option \<times> fs_state" where
  "run_cmd env args fs =
     (let strptime = env_strptime env; now = env_now env; loaded = load_cli env fs args in
      case arg_cmd args of
        ListCmd \<Rightarrow>
          (case loaded of Inl e \<Rightarrow> failed e fs | Inr reg \<Rightarrow> (ListReport (list_tests reg), None, fs))
      | InfoCmd s n \<Rightarrow>
          (case err_bind loaded (\<lambda>reg. show_test_info reg s n) of
             Inl e \<Rightarrow> failed e fs | Inr x \<Rightarrow> (InfoReport x, None, fs))
      | VerifyCmd res check_all \<Rightarrow>
          (case err_bind loaded (\<lambda>reg. err_bind (err_bind (read_doc env fs (Some res)) junit_fromXML)
                                       (\<lambda>results. Inr (reg, results))) of
             Inl e \<Rightarrow> failed e fs
           | Inr (reg, results) \<Rightarrow>
               (case verify_results check_all reg results of
                  (meta, rows, err) \<Rightarrow> (VerifyReport meta rows, err, fs)))
      | CompareCmd p1 p2 \<Rightarrow>
          (case compare_registries_cmd (load_path env fs) (env_sort env) p1 p2 (arg_regname args) of
             Inl e \<Rightarrow> failed e fs
           | Inr (ts, failed_regs, err) \<Rightarrow> (CompareReport ts failed_regs, err, fs))
      | CreateCmd res nm auto \<Rightarrow>
          write_result env args
            (err_bind (err_bind (read_doc env fs (Some res)) junit_fromXML)
               (\<lambda>results. create_registry results res nm auto (env_rpm_q env) now)) fs
      | MergeCmd p1 p2 add \<Rightarrow>
          (if add then
             write_result env args
               (err_bind (load_path env fs p1) (\<lambda>regs1.
                  if regs1 = [] then Inl IndexError
                  else err_bind (load_path env fs p2) (\<lambda>regs2. merge_add_registries regs1 regs2))) fs
           else (NoReport, None, fs))
      | EditCmd s n c \<Rightarrow>
          write_result env args (err_bind loaded (\<lambda>reg. edit_command reg s n c)) fs
      | SetDateCmd d \<Rightarrow>
          write_result env args (err_bind loaded (\<lambda>reg. set_date reg d strptime now)) fs
      | SetModversionCmd m v ty \<Rightarrow>
          write_result env args (err_bind loaded (\<lambda>reg. set_modversion reg m v ty)) fs)"

text \<open>The subcommands that may write a registry.\<close>

fun changes_registry :: "xit_cmd \<Rightarrow> bool" where
  "changes_registry ListCmd = False"
| "changes_registry (InfoCmd s n) = False"
| "changes_registry (VerifyCmd res ca) = False"
| "changes_registry (CompareCmd p1 p2) = False"
| "changes_registry c = True"

text \<open>Every test of the registry carries fixes whose extra arguments name no other type.\<close>

definition tests_fix_ok :: "xit_registry \<Rightarrow> bool" where
  "tests_fix_ok r \<longleftrightarrow> (\<forall>s n t. getTest r s n = Some t \<longrightarrow> list_all fix_type_consistent (test_fixes t))"

text \<open>A concrete run: \<^verbatim>\<open>reg.xml\<close> holds the registries \<open>q\<close> and \<open>r\<close>, and
  \<^verbatim>\<open>edit --regname r add-bug\<close> runs on it. The parser of this environment reads the text
  the program prints back as the tree it printed.\<close>

definition example_doc :: xml_elem where
  "example_doc =
     xml_append (enc_registry (\<lambda>d. ''2013-01-01'') (XITTestRegistry ''q'' [] (2013, 1, 1)))
       (toXML (\<lambda>d. ''2013-01-01'')
         (addTest \<lparr>suite = ''S'', name = ''a'', status = True, test_bugs = [], test_info = [], test_fixes = []\<rparr>
           (XITTestRegistry ''r'' [] (2013, 1, 1))))"

definition example_edit :: edit_cmd where
  "example_edit = AddBugCmd ''http://bugs/1''"

definition example_env :: io_env where
  "example_env =
     \<lparr>env_parse = (\<lambda>s. if s = ''in'' then Inr example_doc
                       else err_bind (load_registry (\<lambda>x. Inr (2013, 1, 1)) (2014, 2, 2) example_doc (Some ''r''))
                              (\<lambda>r. err_bind (edit_command r ''S'' ''a'' example_edit)
                                     (\<lambda>r'. Inr (toXML (\<lambda>d. ''2013-01-01'') r')))),
      env_tostring = (\<lambda>t. ''out''), env_strptime = (\<lambda>x. Inr (2013, 1, 1)),
      env_strftime = (\<lambda>d. ''2013-01-01''), env_now = (2014, 2, 2), env_rpm_q = (\<lambda>m. (0, '''')),
      env_stdin = '''', env_sort = id\<rparr>"

definition example_fs :: fs_state where
  "example_fs = \<lparr>files = [''reg.xml'' \<mapsto> ''in'', ''other.xml'' \<mapsto> ''keep''], stdout_text = []\<rparr>"

definition example_args :: xit_args where
  "example_args = \<lparr>arg_file = Some ''reg.xml'', arg_regname = Some ''r'', arg_cmd = EditCmd ''S'' ''a'' example_edit\<rparr>"

section \<open>Properties\<close>

lemma write_registry_files:
  "files (write_registry env args reg fs) =
     (case arg_file args of
        None \<Rightarrow> files fs
      | Some p \<Rightarrow> (files fs)(p \<mapsto> env_tostring env (toXML (env_strftime env) reg) @ nl))"
  by (simp add: write_registry_def registry_from_string_def open_new_registry_def write_to_registry_def
      sync_registry_def split: option.splits)

lemma write_result_cases:
  "write_result env args res fs = (rep, err, fs') \<Longrightarrow>
     (err \<noteq> None \<longrightarrow> fs' = fs) \<and> (\<exists>reg. fs' = fs \<or> fs' = write_registry env args reg fs)"
  by (auto simp: write_result_def failed_def split: sum.splits)

text \<open>C6: the program never writes a file other than the one \<^verbatim>\<open>--file\<close> names; a
  command that ends in an error writes nothing (no file, and no registry on stdout); and
  \<^verbatim>\<open>list\<close>, \<^verbatim>\<open>info\<close>, \<^verbatim>\<open>verify\<close> and \<^verbatim>\<open>compare\<close> write nothing,
  their tables being the report they return.\<close>

theorem run_cmd_fs_safety:
  assumes run: "run_cmd env args fs = (rep, err, fs')"
  shows "(\<forall>q. arg_file args \<noteq> Some q \<longrightarrow> files fs' q = files fs q) \<and>
    (err \<noteq> None \<longrightarrow> fs' = fs) \<and> (\<not> changes_registry (arg_cmd args) \<longrightarrow> fs' = fs)"
proof -
  have w: "\<exists>reg. fs' = fs \<or> fs' = write_registry env args reg fs" and e: "err \<noteq> None \<longrightarrow> fs' = fs"
    using run write_result_cases[of env args _ fs rep err fs']
    by (cases "arg_cmd args"; auto simp: run_cmd_def Let_def failed_def split: sum.splits prod.splits if_splits)+
  have ro: "\<not> changes_registry (arg_cmd args) \<longrightarrow> fs' = fs"
    using run by (cases "arg_cmd args") (simp_all add: run_cmd_def Let_def failed_def split: sum.splits prod.splits)
  have "files fs' q = files fs q" if "arg_file args \<noteq> Some q" for q
    using w that by (auto simp: write_registry_files split: option.splits)
  with e ro show ?thesis by blast
qed

subsection \<open>Fixes written by the program name their own type\<close>

lemma fix_ok_addFix:
  "fix_type_consistent f \<Longrightarrow> list_all fix_type_consistent (test_fixes t) \<Longrightarrow>
     list_all fix_type_consistent (test_fixes (addFix f t))"
  using set_append_unique[of fix_key f "test_fixes t"] by (auto simp: addFix_def list_all_iff)

lemma fix_ok_removeFix:
  "list_all fix_type_consistent (test_fixes t) \<Longrightarrow> list_all fix_type_consistent (test_fixes (removeFix f t))"
  using set_remove_quiet[of fix_key f "test_fixes t"] by (auto simp: removeFix_def list_all_iff)

lemma fix_createFromType_ok:
  "fix_createFromType ty x ea = Inr f \<Longrightarrow> Mapping.lookup ea ''type'' \<in> {None, Some ty} \<Longrightarrow>
     fix_type_consistent f"
  by (auto simp: fix_createFromType_def fix_type_consistent_def split: if_splits)

lemma dec_fix_ok:
  "dec_fix fx t = Inr t' \<Longrightarrow> list_all fix_type_consistent (test_fixes t) \<Longrightarrow>
     list_all fix_type_consistent (test_fixes t')"
  by (auto simp: dec_fix_def err_bind_Inr_iff get_attr_def split: option.splits
      intro!: fix_ok_addFix fix_createFromType_ok)

lemma dec_testcase_fix_ok:
  assumes "dec_testcase sx tx = Inr t" shows "list_all fix_type_consistent (test_fixes t)"
proof -
  let ?P = "\<lambda>t. list_all fix_type_consistent (test_fixes t)"
  from assms obtain a b c t0 t1 t2 where
      t0: "XITTest a b c = Inr t0"
    and s1: "fold_err dec_bug (iterchildren (xmlns_tag ''bug'') tx) t0 = Inr t1"
    and s2: "fold_err dec_info (iterchildren (xmlns_tag ''testinfo'') tx) t1 = Inr t2"
    and s3: "fold_err dec_fix (iterchildren (xmlns_tag ''fix'') tx) t2 = Inr t"
    unfolding dec_testcase_def err_bind_Inr_iff by auto
  have "?P t0" using t0 by (auto simp: XITTest_def split: sum.splits)
  then have "?P t1"
    by (rule fold_err_preserves[OF s1]) (auto simp: dec_bug_def addBug_def)
  then have "?P t2"
    by (rule fold_err_preserves[OF s2]) (auto simp: dec_info_def addInfo_def err_bind_Inr_iff)
  then show ?thesis
    by (rule fold_err_preserves[OF s3]) (rule dec_fix_ok)
qed

lemma tests_fix_ok_addTest:
  "tests_fix_ok r \<Longrightarrow> list_all fix_type_consistent (test_fixes t) \<Longrightarrow> tests_fix_ok (addTest t r)"
  by (simp add: tests_fix_ok_def getTest_addTest)

lemma tests_fix_ok_tests: "reg_tests r' = reg_tests r \<Longrightarrow> tests_fix_ok r' = tests_fix_ok r"
  by (simp add: tests_fix_ok_def getTest_def)

lemma dec_meta_tests: "dec_meta strptime mx r = Inr r' \<Longrightarrow> reg_tests r' = reg_tests r"
  unfolding dec_meta_def
  by (erule err_bind_Inr_iff[THEN iffD1, THEN exE], elim conjE,
      erule fold_err_preserves[where P = "\<lambda>x. reg_tests x = reg_tests r"])
     (auto simp: dec_modversion_def Let_def err_bind_Inr_iff split: option.splits)

lemma dec_registry_fix_ok:
  assumes "dec_registry strptime now rx = Inr r" shows "tests_fix_ok r"
proof -
  from assms obtain n r1 where
      s1: "fold_err (dec_meta strptime) (iterchildren (xmlns_tag ''meta'') rx) (XITTestRegistry n [] now) = Inr r1"
    and s2: "fold_err dec_suite (iterchildren (xmlns_tag ''testsuite'') rx) r1 = Inr r"
    unfolding dec_registry_def err_bind_Inr_iff by blast
  have "tests_fix_ok (XITTestRegistry n [] now)" by (simp add: tests_fix_ok_def getTest_empty)
  then have "tests_fix_ok r1"
    using fold_err_preserves[OF s1, where P = tests_fix_ok] dec_meta_tests tests_fix_ok_tests by metis
  moreover have "tests_fix_ok r2" if "dec_suite sx r0 = Inr r2" "tests_fix_ok r0" for sx r0 r2
    using that unfolding dec_suite_def
    by (erule_tac fold_err_preserves[where P = tests_fix_ok])
       (auto simp: err_bind_Inr_iff intro: tests_fix_ok_addTest dec_testcase_fix_ok)
  ultimately show ?thesis using fold_err_preserves[OF s2, where P = tests_fix_ok] by blast
qed

lemma load_registry_fix_ok: "load_registry strptime now doc regname = Inr r \<Longrightarrow> tests_fix_ok r"
proof -
  assume l: "load_registry strptime now doc regname = Inr r"
  then obtain regs where d: "fromXML strptime now doc = Inr regs" and r: "r \<in> set regs"
    by (auto simp: load_registry_def err_bind_Inr_iff dest: load_registry_from_file_mem)
  have "list_all tests_fix_ok regs"
    using d unfolding fromXML_def
    by (rule fold_err_preserves[where P = "list_all tests_fix_ok"]) (auto simp: err_bind_Inr_iff dec_registry_fix_ok)
  with r show ?thesis by (simp add: list_all_iff)
qed

lemma edit_test_fixes:
  assumes "edit_test reg s n f = Inr reg'"
    and "\<And>t t'. f t = Inr t' \<Longrightarrow> suite t' = suite t \<and> name t' = name t \<and>
           (list_all fix_type_consistent (test_fixes t) \<longrightarrow> list_all fix_type_consistent (test_fixes t'))"
  shows "\<exists>t t'. getTest reg s n = Some t \<and> reg' = put_test s n t' reg \<and> suite t' = suite t \<and> name t' = name t \<and>
       (list_all fix_type_consistent (test_fixes t) \<longrightarrow> list_all fix_type_consistent (test_fixes t'))"
  using assms by (fastforce simp: edit_test_Inr)

lemma edit_command_fixes:
  "edit_command reg s n c = Inr reg' \<Longrightarrow>
     \<exists>t t'. getTest reg s n = Some t \<and> reg' = put_test s n t' reg \<and> suite t' = suite t \<and> name t' = name t \<and>
       (list_all fix_type_consistent (test_fixes t) \<longrightarrow> list_all fix_type_consistent (test_fixes t'))"
  apply (cases c; simp only: edit_command.simps edit_command_defs Let_def)
  apply (erule edit_test_fixes; auto simp: addBug_def removeBug_def lookup_update' lookup_empty
      split: option.splits sum.splits if_splits intro!: fix_ok_addFix fix_ok_removeFix fix_createFromType_ok)+
  done

lemma edit_command_fix_ok:
  assumes wf: "reg_wf reg" and ok: "tests_fix_ok reg" and ed: "edit_command reg s n c = Inr reg'"
  shows "tests_fix_ok reg'"
proof -
  obtain t t' where t: "getTest reg s n = Some t" and r': "reg' = put_test s n t' reg"
    and f: "suite t' = suite t" "name t' = name t"
    and fx: "list_all fix_type_consistent (test_fixes t) \<longrightarrow> list_all fix_type_consistent (test_fixes t')"
    using edit_command_fixes[OF ed] by blast
  have "suite t = s" "name t = n" using reg_wf_getTest[OF wf t] by auto
  then have "reg' = addTest t' reg" using f r' put_test_addTest[OF t] by simp
  moreover have "list_all fix_type_consistent (test_fixes t')"
    using fx ok t by (simp add: tests_fix_ok_def)
  ultimately show ?thesis using ok by (simp add: tests_fix_ok_addTest)
qed

lemma reg_date_put_test [simp]: "reg_date (put_test s n t reg) = reg_date reg"
  by (simp add: put_test_def split: option.splits)

lemma edit_command_date: "edit_command reg s n c = Inr reg' \<Longrightarrow> reg_date reg' = reg_date reg"
  using edit_command_Inr by fastforce

lemma tests_fix_ok_consistent: "reg_wf r \<Longrightarrow> tests_fix_ok r \<Longrightarrow> reg_fixes_consistent r"
  by (auto simp: tests_fix_ok_def reg_fixes_consistent_def list_all_iff mem_reg_test_list)

lemma load_cli_Inr:
  "load_cli env fs args = Inr r \<Longrightarrow> reg_wf r \<and> tests_fix_ok r"
  by (auto simp: load_cli_def err_bind_Inr_iff intro: load_registry_wf load_registry_fix_ok)

text \<open>C7: an \<^verbatim>\<open>edit\<close> run on a file that succeeds writes to that file exactly
  the edited registry; the next command on the file, whatever \<^verbatim>\<open>--regname\<close> it gives,
  loads that registry back in normal form, its tests the edited tests with duplicate
  annotations dropped.\<close>

theorem edit_then_reload:
  assumes run: "run_cmd env args fs = (rep, None, fs')"
    and cmd: "arg_cmd args = EditCmd s n c" and path: "arg_file args = Some p"
    and dt: "\<forall>r. load_cli env fs args = Inr r \<longrightarrow> env_strptime env (env_strftime env (reg_date r)) = Inr (reg_date r)"
    and rd: "\<forall>r r'. load_cli env fs args = Inr r \<longrightarrow> edit_command r s n c = Inr r' \<longrightarrow>
       env_parse env (env_tostring env (toXML (env_strftime env) r') @ nl) = Inr (toXML (env_strftime env) r')"
  shows "\<exists>r r'. load_cli env fs args = Inr r \<and> edit_command r s n c = Inr r' \<and>
     files fs' p = Some (env_tostring env (toXML (env_strftime env) r') @ nl) \<and>
     (\<forall>args'. arg_file args' = Some p \<longrightarrow> load_cli env fs' args' = Inr (decoded (env_now env) r')) \<and>
     (\<forall>s' n'. getTest (decoded (env_now env) r') s' n' = map_option norm_test (getTest r' s' n'))"
proof -
  have "write_result env args (err_bind (load_cli env fs args) (\<lambda>reg. edit_command reg s n c)) fs = (rep, None, fs')"
    using run cmd by (simp add: run_cmd_def Let_def)
  then obtain r r' where l: "load_cli env fs args = Inr r" and ed: "edit_command r s n c = Inr r'"
    and fs': "fs' = write_registry env args r' fs"
    by (auto simp: write_result_def failed_def err_bind_Inr_iff split: sum.splits)
  from load_cli_Inr[OF l] have wf: "reg_wf r" and ok: "tests_fix_ok r" by auto
  have wf': "reg_wf r'" by (rule edit_command_wf[OF wf ed])
  have cons: "reg_fixes_consistent r'"
    using tests_fix_ok_consistent[OF wf' edit_command_fix_ok[OF wf ok ed]] .
  have dt': "env_strptime env (env_strftime env (reg_date r')) = Inr (reg_date r')"
    using dt l edit_command_date[OF ed] by simp
  have f: "files fs' p = Some (env_tostring env (toXML (env_strftime env) r') @ nl)"
    using fs' path by (simp add: write_registry_files)
  have "load_cli env fs' args' = Inr (decoded (env_now env) r')" if "arg_file args' = Some p" for args'
    using that f rd l ed fromXML_toXML_Inr[where strptime = "env_strptime env" and strftime = "env_strftime env" and now = "env_now env", OF wf' dt' cons]
    by (simp add: load_cli_def read_doc_def load_registry_def load_registry_from_file_def)
  then show ?thesis using l ed f getTest_decoded[OF wf'] by blast
qed

lemma example_run:
  "fst (snd (run_cmd example_env example_args example_fs)) = None \<and>
   files (snd (snd (run_cmd example_env example_args example_fs))) ''reg.xml'' = Some (''out'' @ nl)"
  by code_simp

lemma example_load:
  "(case load_cli example_env example_fs example_args of Inr r \<Rightarrow> reg_date r = (2013, 1, 1) | Inl e \<Rightarrow> False)"
  by code_simp

theorem run_cmd_fs_safety_witness:
  "files (snd (snd (run_cmd example_env example_args example_fs))) ''other.xml'' = Some ''keep'' \<and>
   fst (snd (run_cmd example_env example_args example_fs)) = None \<and>
   files (snd (snd (run_cmd example_env example_args example_fs))) ''reg.xml'' = Some (''out'' @ nl)"
proof -
  obtain rep err fs' where r: "run_cmd example_env example_args example_fs = (rep, err, fs')"
    by (cases "run_cmd example_env example_args example_fs") blast
  have "files fs' ''other.xml'' = files example_fs ''other.xml''"
    using run_cmd_fs_safety[OF r] by (simp add: example_args_def)
  then show ?thesis using r example_run by (simp add: example_fs_def)
qed

theorem edit_then_reload_witness:
  "\<exists>rep fs' r'. run_cmd example_env example_args example_fs = (rep, None, fs') \<and>
     load_cli example_env fs' \<lparr>arg_file = Some ''reg.xml'', arg_regname = Some ''q'', arg_cmd = ListCmd\<rparr> =
       Inr (decoded (2014, 2, 2) r')"
proof -
  obtain rep err fs' where r: "run_cmd example_env example_args example_fs = (rep, err, fs')"
    by (cases "run_cmd example_env example_args example_fs") blast
  with example_run have r': "run_cmd example_env example_args example_fs = (rep, None, fs')" by simp
  have cmd: "arg_cmd example_args = EditCmd ''S'' ''a'' example_edit"
    and path: "arg_file example_args = Some ''reg.xml''" by (simp_all add: example_args_def)
  have dt: "\<forall>r. load_cli example_env example_fs example_args = Inr r \<longrightarrow>
      env_strptime example_env (env_strftime example_env (reg_date r)) = Inr (reg_date r)"
    using example_load by (auto simp: example_env_def split: sum.splits)
  have l: "load_cli example_env example_fs example_args =
      load_registry (\<lambda>x. Inr (2013, 1, 1)) (2014, 2, 2) example_doc (Some ''r'')"
    by (simp add: load_cli_def read_doc_def err_bind_def example_env_def example_fs_def example_args_def)
  have rd: "\<forall>r r'. load_cli example_env example_fs example_args = Inr r \<longrightarrow>
      edit_command r ''S'' ''a'' example_edit = Inr r' \<longrightarrow>
      env_parse example_env (env_tostring example_env (toXML (env_strftime example_env) r') @ nl) =
        Inr (toXML (env_strftime example_env) r')"
    unfolding l by (simp add: example_env_def err_bind_def nl_def)
  obtain r'' where rl: "\<forall>args'. arg_file args' = Some ''reg.xml'' \<longrightarrow>
      load_cli example_env fs' args' = Inr (decoded (env_now example_env) r'')"
    using edit_then_reload[OF r' cmd path dt rd] by blast
  have "env_now example_env = (2014, 2, 2)" by (simp add: example_env_def)
  then show ?thesis
    using r' rl[rule_format, of "\<lparr>arg_file = Some ''reg.xml'', arg_regname = Some ''q'', arg_cmd = ListCmd\<rparr>"] by auto
qed

end
