(* ===== verification/Meta_While.thy ===== *)
theory Meta_While
  imports Verify "HOL-Library.While_Combinator"
begin

text \<open>
  The \<^verbatim>\<open>while True\<close> loop of \<^verbatim>\<open>compare_meta\<close> in \<^verbatim>\<open>src/registry/xit.py\<close>
  as the code runs it: one iteration of the body per step of \<open>while_option\<close>, on a
  state that is either running (the two current module versions, what is left in the two
  iterators and the rows printed so far) or stopped by \<^verbatim>\<open>StopIteration\<close> (the rows
  and what is left for the draining loops). \<open>meta_loop\<close> of \<^theory_text>\<open>Verify\<close> is the
  same loop written as a terminating recursive function; here the loop is shown to stop
  for every input, with the result of \<open>meta_loop\<close>.
\<close>

type_synonym meta_running =
  "xit_module_version \<times> xit_module_version \<times> xit_module_version list \<times> xit_module_version list \<times> mv_row list"

type_synonym meta_stopped = "mv_row list \<times> xit_module_version list \<times> xit_module_version list"

definition meta_step :: "meta_running + meta_stopped \<Rightarrow> meta_running + meta_stopped" where
  "meta_step st =
     (case st of
        Inr fin \<Rightarrow> Inr fin
      | Inl (r1, r2, it1, it2, rows) \<Rightarrow>
          (let rc = mv_cmp r1 r2 in
           if rc = 0 then
             (let row = print_modversions (mv_module r1) (mv_version r1) (mv_version r2) True in
              case it1 of
                [] \<Rightarrow> Inr (rows @ [row], [], it2)
              | r1' # it1' \<Rightarrow>
                  (case it2 of
                     [] \<Rightarrow> Inr (rows @ [row], it1', [])
                   | r2' # it2' \<Rightarrow> Inl (r1', r2', it1', it2', rows @ [row])))
           else if 0 < rc then
             (let row = print_modversions (mv_module r2) ''???'' (mv_version r2) True in
              case it2 of
                [] \<Rightarrow> Inr (rows @ [row], it1, [])
              | r2' # it2' \<Rightarrow> Inl (r1, r2', it1, it2', rows @ [row]))
           else
             (let row = print_modversions (mv_module r1) (mv_version r1) ''???'' True in
              case it1 of
                [] \<Rightarrow> Inr (rows @ [row], [], it2)
              | r1' # it1' \<Rightarrow> Inl (r1', r2, it1', it2, rows @ [row]))))"

definition meta_while ::
  "xit_module_version \<Rightarrow> xit_module_version \<Rightarrow> xit_module_version list \<Rightarrow> xit_module_version list \<Rightarrow>
     (meta_running + meta_stopped) option" where
  "meta_while r1 r2 it1 it2 = while_option isl meta_step (Inl (r1, r2, it1, it2, []))"

section \<open>Properties\<close>

lemma meta_step_simps:
  "meta_step (Inr fin) = Inr fin"
  "meta_step (Inl (r1, r2, it1, it2, rows)) =
     (let rc = mv_cmp r1 r2 in
      if rc = 0 then
        (let row = print_modversions (mv_module r1) (mv_version r1) (mv_version r2) True in
         case it1 of
           [] \<Rightarrow> Inr (rows @ [row], [], it2)
         | r1' # it1' \<Rightarrow>
             (case it2 of
                [] \<Rightarrow> Inr (rows @ [row], it1', [])
              | r2' # it2' \<Rightarrow> Inl (r1', r2', it1', it2', rows @ [row])))
      else if 0 < rc then
        (let row = print_modversions (mv_module r2) ''???'' (mv_version r2) True in
         case it2 of
           [] \<Rightarrow> Inr (rows @ [row], it1, [])
         | r2' # it2' \<Rightarrow> Inl (r1, r2', it1, it2', rows @ [row]))
      else
        (let row = print_modversions (mv_module r1) (mv_version r1) ''???'' True in
         case it1 of
           [] \<Rightarrow> Inr (rows @ [row], [], it2)
         | r1' # it1' \<Rightarrow> Inl (r1', r2, it1', it2, rows @ [row])))"
  by (simp_all add: meta_step_def)

lemma meta_while_acc:
  "while_option isl meta_step (Inl (r1, r2, it1, it2, acc)) =
     Some (Inr (case meta_loop r1 r2 it1 it2 of (rows, rest1, rest2) \<Rightarrow> (acc @ rows, rest1, rest2)))"
proof (induction r1 r2 it1 it2 arbitrary: acc rule: meta_loop.induct)
  case (1 r1 r2 it1 it2)
  have unf: "while_option isl meta_step (Inl (r1, r2, it1, it2, acc)) =
      while_option isl meta_step (meta_step (Inl (r1, r2, it1, it2, acc)))"
    by (subst while_option_unfold) simp
  have fin: "while_option isl meta_step (Inr x) = Some (Inr x)" for x
    by (subst while_option_unfold) simp
  consider (eq) "mv_cmp r1 r2 = 0" | (gt) "0 < mv_cmp r1 r2" | (lt) "mv_cmp r1 r2 \<noteq> 0" "\<not> 0 < mv_cmp r1 r2"
    by blast
  then show ?case
  proof cases
    case eq
    then show ?thesis
      using "1.IH"(1)[OF refl eq refl]
      by (subst meta_loop.simps) (auto simp: unf fin meta_step_simps Let_def cons_row_def split: list.splits prod.splits)
  next
    case gt
    then show ?thesis
      using "1.IH"(2)[OF refl _ gt refl]
      by (subst meta_loop.simps) (auto simp: unf fin meta_step_simps Let_def cons_row_def split: list.splits prod.splits)
  next
    case lt
    then show ?thesis
      using "1.IH"(3)[OF refl lt refl]
      by (subst meta_loop.simps) (auto simp: unf fin meta_step_simps Let_def cons_row_def split: list.splits prod.splits)
  qed
qed

text \<open>C17: the \<^verbatim>\<open>while True\<close> loop of \<^verbatim>\<open>compare_meta\<close> stops for all module
  version lists: run one body at a time, it reaches \<^verbatim>\<open>StopIteration\<close> with the rows and
  remaining iterators that \<open>meta_loop\<close> computes.\<close>

theorem meta_while_terminates:
  "meta_while r1 r2 it1 it2 = Some (Inr (meta_loop r1 r2 it1 it2))"
  using meta_while_acc[of r1 r2 it1 it2 "[]"]
  by (simp add: meta_while_def split: prod.splits)

end
