(* ===== verification/Spec2Isabelle.thy ===== *)
theory Spec2Isabelle
  imports Program Meta_While
begin

text \<open>
  Verification development for \<^verbatim>\<open>src/registry/xit.py\<close>, the XIT bug registry: a
  registry records, per test suite and test case, the expected outcome with the bugs, fixes
  and notes attached to it, plus the module versions it was taken with; the command-line
  tool creates a registry from a JUnit run, verifies a run against a registry, compares
  registries, merges them, edits their entries, and reads and writes the registry XML file.

  \<^bold>\<open>Theories and what they model.\<close>
  \<^item> \<open>Xit_Prelude\<close>: Python errors as the datatype \<open>xit_error\<close> (every
    \<^verbatim>\<open>raise\<close>, \<^verbatim>\<open>sys.exit(1)\<close> and lookup failure is an \<open>Inl\<close>), Python 2
    \<^verbatim>\<open>cmp\<close>, list membership and removal under a user equality
    (\<open>append_unique\<close>, \<open>remove_quiet\<close>), \<^verbatim>\<open>sorted(d.iteritems())\<close>
    (\<open>sorted_items\<close>), the print-until-exception loop \<open>print_rows\<close> and the error
    monad \<open>err_bind\<close>/\<open>fold_err\<close> used by the decoders, with their shared lemmas.
  \<^item> \<open>Annotations\<close>: \<^verbatim>\<open>XITBug\<close>, \<^verbatim>\<open>XITFix\<close> (git and rpm constructors),
    \<^verbatim>\<open>XITInfo\<close> (text and URL), their \<^verbatim>\<open>__cmp__\<close> keys, factories and
    \<^verbatim>\<open>__str__\<close>.
  \<^item> \<open>TestCase\<close>: \<^verbatim>\<open>XITTestCase\<close>, \<^verbatim>\<open>XITTest\<close> (records with extension),
    \<^verbatim>\<open>str2bool\<close>, the annotation add/remove operations, the sorted getters,
    \<^verbatim>\<open>XITTest.__str__\<close>, and \<^verbatim>\<open>JUnitTestResult\<close> with \<^verbatim>\<open>addFailure\<close>.
  \<^item> \<open>Registry\<close>: \<^verbatim>\<open>XITModuleVersion\<close> (with the rpm query a parameter) and
    \<^verbatim>\<open>XITTestRegistry\<close> (\<^verbatim>\<open>_from_list\<close>, \<^verbatim>\<open>listTestNames\<close>,
    \<^verbatim>\<open>getTest\<close>, \<^verbatim>\<open>addTest\<close>) over nested mappings, with the invariant
    \<open>reg_wf\<close> and the ordered test list \<open>reg_test_list\<close>.
  \<^item> \<open>Comparison\<close>: the specification's merge-join of two key-sorted sequences,
    the abstract contract of the three comparisons.
  \<^item> \<open>Verify\<close>: \<^verbatim>\<open>verify_one_result\<close>, \<^verbatim>\<open>verify_results\<close>,
    \<^verbatim>\<open>compare_registry\<close> and \<^verbatim>\<open>compare_meta\<close> (its \<^verbatim>\<open>while True\<close>
    loop as the terminating \<open>function\<close> \<open>meta_loop\<close>, measure: the elements left in the two
    iterators), each printed line a row value.
  \<^item> \<open>Commands\<close>: \<^verbatim>\<open>load_registry_from_file\<close>, the \<^verbatim>\<open>edit\<close>
    subcommands (datatype \<open>edit_cmd\<close>, dispatcher \<open>edit_command\<close>), \<^verbatim>\<open>meta
    set-date\<close>/\<^verbatim>\<open>set-module-version\<close>, \<^verbatim>\<open>merge --add\<close> and \<^verbatim>\<open>create\<close>,
    each a function from the loaded registry and the arguments to
    \<open>xit_error + xit_registry\<close>.
  \<^item> \<open>Registry_Xml\<close>: the lxml element tree (\<open>xml_elem\<close>: tag, attribute mapping, text,
    children), \<^verbatim>\<open>xmlns_tag\<close>, \<^verbatim>\<open>XITTestRegistry.toXML\<close> (the \<open>enc_*\<close>
    functions) and \<^verbatim>\<open>XITTestRegistry.fromXML\<close> (the \<open>dec_*\<close> functions, in the
    order Python evaluates them).
  \<^item> \<open>Xml_Roundtrip\<close>: the normal form a saved registry is loaded back in
    (\<open>norm_test\<close>, \<open>norm_fix\<close>) and the load-after-save theorems.
  \<^item> \<open>Junit_Xml\<close>: \<^verbatim>\<open>JUnitTestResult.fromXML\<close> and \<^verbatim>\<open>__str__\<close>, with
    the reference reading \<open>junit_spec\<close> of a results file.
  \<^item> \<open>Cli\<close>: \<^verbatim>\<open>load_registry\<close>, \<^verbatim>\<open>list_tests\<close>,
    \<^verbatim>\<open>show_test_info\<close>, \<^verbatim>\<open>find_reg\<close> and \<^verbatim>\<open>compare_registries\<close>.
  \<^item> \<open>Lifecycle\<close>: the registries the program holds, as the inductive predicate
    \<open>registry_state\<close> over creation, loading, the one-command step relation
    \<open>cmd_step\<close> (edit and meta commands) and merging.
  \<^item> \<open>Meta_While\<close>: the \<^verbatim>\<open>while True\<close> loop of \<^verbatim>\<open>compare_meta\<close> as
    it is written, one loop body \<open>meta_step\<close> iterated by the library's
    \<open>while_option\<close> until \<^verbatim>\<open>StopIteration\<close>, and its agreement with
    \<open>meta_loop\<close>.
  \<^item> \<open>Program\<close>: the program as a whole. The subcommands of \<^verbatim>\<open>parse_cmdline\<close>
    are the datatype \<open>xit_cmd\<close> and its arguments the record \<open>xit_args\<close>;
    \<^verbatim>\<open>run\<close> is \<open>run_cmd\<close>, which loads the registry (\<open>read_doc\<close>,
    \<open>load_cli\<close>), calls the handler and writes the result back through
    \<^verbatim>\<open>open_new_registry\<close>, \<^verbatim>\<open>write_to_registry\<close>,
    \<^verbatim>\<open>sync_registry\<close> and \<^verbatim>\<open>registry_from_string\<close>. The file system is the
    explicit state \<open>fs_state\<close> (path to contents, and the lines printed to stdout),
    threaded through each handler.

  \<^bold>\<open>What the lemmas show.\<close> Each operation is proved on every branch, errors
  included. The annotation operations keep lists duplicate-free and adding is idempotent
  (\<open>TestCase\<close>); \<open>reg_wf\<close> is preserved by every registry operation and command and
  is an invariant of \<open>registry_state\<close> by rule induction (\<open>Lifecycle\<close>); the three
  comparisons refine the merge-join contract, with the code's deviations stated exactly,
  among them the exact condition (\<open>meta_loses\<close>) under which the iterator loop of
  \<^verbatim>\<open>compare_meta\<close> drops one row (\<open>Verify\<close>); the commands are characterized by frame lemmas, error conditions and
  progress (\<open>Commands\<close>); loading what \<^verbatim>\<open>toXML\<close> wrote gives the registry back in
  normal form and saving it again writes the same tree, a fix comes back as the kind its
  extra \<^verbatim>\<open>type\<close> argument names, every loaded registry is
  well-formed, and a malformed document is rejected as a whole (\<open>Registry_Xml\<close>,
  \<open>Xml_Roundtrip\<close>); reading a JUnit file equals the reference reading
  (\<open>Junit_Xml\<close>); \<^verbatim>\<open>compare_registries\<close> reports exactly the unmatched names and
  does not depend on the unspecified sort order (\<open>Cli\<close>); the \<^verbatim>\<open>while True\<close>
  loop of \<^verbatim>\<open>compare_meta\<close> always stops (\<open>Meta_While\<close>). At the level of the
  whole program, no command writes a file other than the one \<^verbatim>\<open>--file\<close> names, a
  failed command changes nothing, and the read-only commands never write; a successful
  \<^verbatim>\<open>edit\<close> leaves in the file exactly the edited registry, which the next command
  loads back whatever \<^verbatim>\<open>--regname\<close> it asks for (\<open>Program\<close>). This theory
  composes the components: a run turned into a registry, written, loaded and verified
  against itself reports every result as matching.

  \<^bold>\<open>Parameters.\<close> What the code takes from its environment is a parameter of the
  model: \<^verbatim>\<open>time.localtime()\<close> (\<open>now\<close>), \<^verbatim>\<open>time.strftime\<close> and
  \<^verbatim>\<open>time.strptime\<close> with \<^verbatim>\<open>"%Y-%m-%d"\<close> (\<open>strftime\<close>, \<open>strptime\<close>;
  the roundtrip assumes only that \<open>strptime\<close> reads back what \<open>strftime\<close> writes for
  the registry's date), the \<^verbatim>\<open>rpm -q\<close> subprocess (\<open>rpm_q\<close>: exit code and
  output), and the order in which \<^verbatim>\<open>list.sort()\<close> puts registries that have no
  \<^verbatim>\<open>__cmp__\<close> (\<open>sort_ids\<close>, any permutation). In \<open>Program\<close> these are
  collected in the record \<open>io_env\<close>, together with \<^verbatim>\<open>objectify.parse\<close> of a
  file's text (\<open>env_parse\<close>, which may fail), \<^verbatim>\<open>lxml.etree.tostring\<close>
  (\<open>env_tostring\<close>) and the text on stdin; the reload theorem assumes only that the parser
  reads back the tree the program printed. No fuel is used: every loop of the code runs
  over a finite list or, for \<^verbatim>\<open>compare_meta\<close>, is a \<open>function\<close> with a
  termination proof, and its \<open>while_option\<close> form is proved to return \<open>Some\<close>.

  \<^bold>\<open>Not modelled.\<close> The byte level of the XML file (\<^verbatim>\<open>lxml.etree.tostring\<close>
  and \<^verbatim>\<open>objectify.parse\<close> are taken to be inverse on trees; an empty element text,
  which lxml reads back as \<^verbatim>\<open>None\<close>, is not represented); argparse's parsing of
  the command line itself (the model starts from the parsed \<open>xit_args\<close>, and usage
  errors are argparse's); the intermediate states of \<^verbatim>\<open>sync_registry\<close> (the target
  is truncated and then copied into, which the model records as its final state only);
  the \<^verbatim>\<open>logging\<close> messages' text, \<^verbatim>\<open>termcolors.disable\<close> and the
  \<^verbatim>\<open>isatty\<close> test that calls it (they change only colour codes); column widths of the
  printed tables, which a handler returns as rows (\<open>report\<close>) rather than text.
\<close>

section \<open>Properties across components\<close>

text \<open>C5: a registry created from a JUnit run (without \<^verbatim>\<open>--auto-modversion rpm\<close>)
  whose results have distinct (suite, name) keys is well-formed, and verifying the same run
  against it prints one row per result, in key order, each marked \<^verbatim>\<open>++\<close> or
  \<^verbatim>\<open>--\<close> by the result's own status: a fresh registry never reports a mismatch.\<close>

theorem create_then_verify:
  assumes dk: "distinct (map tc_key results)" and ne: "results \<noteq> []" and auto: "auto \<noteq> Some [''rpm'']"
  shows "\<exists>reg. create_registry results path name_arg auto rpm_q now = Inr reg \<and> reg_wf reg \<and>
    verify_results False reg results =
      ([], map (\<lambda>r. \<lparr>row_code = (if status r then ''++'' else ''--''), row_color = DEFAULT,
                     row_suite = suite r, row_name = name r,
                     row_result = bool_lower (status r), row_expected = bool_lower (status r)\<rparr>)
               (sort_key tc_key results), None)"
proof -
  obtain reg where c: "create_registry results path name_arg auto rpm_q now = Inr reg" and wf: "reg_wf reg"
    and look: "\<forall>r\<in>set results. getTest reg (suite r) (name r) = Some (result_test r)"
    using create_registry_lookup[OF dk auto] by blast
  have "verify_results False reg results =
      ([], map (\<lambda>r. \<lparr>row_code = (if status r then ''++'' else ''--''), row_color = DEFAULT,
                     row_suite = suite r, row_name = name r,
                     row_result = bool_lower (status r), row_expected = bool_lower (status r)\<rparr>)
               (sort_key tc_key results), None)"
    using look by (intro verify_results_matching[OF ne]) auto
  with c wf show ?thesis by blast
qed

theorem create_then_verify_witness:
  "\<exists>reg. create_registry [junit_case ''S'' ''b'' [''boom''], JUnitTestResult ''S'' ''a'']
      ''out/results.xml'' None None (\<lambda>m. (0, [])) (2013, 1, 1) = Inr reg \<and> reg_wf reg \<and>
    map row_code (fst (snd (verify_results False reg
      [junit_case ''S'' ''b'' [''boom''], JUnitTestResult ''S'' ''a'']))) = [''++'', ''--'']"
proof -
  have dk: "distinct (map tc_key [junit_case ''S'' ''b'' [''boom''], JUnitTestResult ''S'' ''a''])"
    by (simp add: tc_key_def junit_case_def JUnitTestResult_def addFailure_def)
  have ne: "[junit_case ''S'' ''b'' [''boom''], JUnitTestResult ''S'' ''a''] \<noteq> []" by simp
  have au: "(None :: string list option) \<noteq> Some [''rpm'']" by simp
  have srt: "sort_key tc_key [junit_case ''S'' ''b'' [''boom''], JUnitTestResult ''S'' ''a''] =
      [JUnitTestResult ''S'' ''a'', junit_case ''S'' ''b'' [''boom'']]"
    by code_simp
  show ?thesis
    using create_then_verify[OF dk ne au, of "''out/results.xml''" None "\<lambda>m. (0, [])" "(2013, 1, 1)"] srt
    by (auto simp: junit_case_def JUnitTestResult_def addFailure_def)
qed


text \<open>C12: the life of a registry across the commands: reading a JUnit results file
  whose attributes are all present and whose test cases have distinct keys, creating a
  registry from it (without \<^verbatim>\<open>--auto-modversion rpm\<close>, on a date that
  \<^verbatim>\<open>strptime\<close> reads back from \<^verbatim>\<open>strftime\<close>), writing that registry out and
  loading the file again (with any \<^verbatim>\<open>--regname\<close>) gives a registry against which
  \<^verbatim>\<open>verify\<close> of the same results reports every result as matching.\<close>

theorem junit_create_save_load_verify:
  assumes ok: "junit_attrs_ok doc" and dk: "distinct (map tc_key (junit_spec doc))"
    and ne: "junit_spec doc \<noteq> []" and auto: "auto \<noteq> Some [''rpm'']"
    and dt: "strptime (strftime now) = Inr now"
  shows "\<exists>reg reg'.
    err_bind (junit_fromXML doc) (\<lambda>results. create_registry results path name_arg auto rpm_q now) = Inr reg \<and>
    load_registry strptime now' (toXML strftime reg) regname = Inr reg' \<and>
    verify_results False reg' (junit_spec doc) =
      ([], map (\<lambda>r. \<lparr>row_code = (if status r then ''++'' else ''--''), row_color = DEFAULT,
                     row_suite = suite r, row_name = name r,
                     row_result = bool_lower (status r), row_expected = bool_lower (status r)\<rparr>)
               (sort_key tc_key (junit_spec doc)), None)"
proof -
  have rd: "junit_fromXML doc = Inr (junit_spec doc)"
    using ok by (simp add: junit_fromXML_def junit_attrs_ok_def junit_spec_def fold_err_suites)
  obtain reg where c: "create_registry (junit_spec doc) path name_arg auto rpm_q now = Inr reg"
    and wf: "reg_wf reg" and date: "reg_date reg = now"
    and look: "\<forall>r\<in>set (junit_spec doc). getTest reg (suite r) (name r) = Some (result_test r)"
    and nofix: "\<forall>s n t. getTest reg s n = Some t \<longrightarrow> test_fixes t = []"
    using create_registry_lookup[OF dk auto] by blast
  have fx: "reg_fixes_consistent reg"
    using nofix mem_reg_test_list[OF wf] by (auto simp: reg_fixes_consistent_def list_all_iff)
  have dt': "strptime (strftime (reg_date reg)) = Inr (reg_date reg)"
    using dt date by simp
  have ld: "load_registry strptime now' (toXML strftime reg) regname = Inr (decoded now' reg)"
    by (simp add: load_registry_def fromXML_toXML_Inr[where strptime = strptime and strftime = strftime and now = now', OF wf dt' fx] load_registry_from_file_def)
  have "verify_results False (decoded now' reg) (junit_spec doc) =
      ([], map (\<lambda>r. \<lparr>row_code = (if status r then ''++'' else ''--''), row_color = DEFAULT,
                     row_suite = suite r, row_name = name r,
                     row_result = bool_lower (status r), row_expected = bool_lower (status r)\<rparr>)
               (sort_key tc_key (junit_spec doc)), None)"
    using look by (intro verify_results_matching[OF ne]) (auto simp: getTest_decoded[OF wf] norm_test_def)
  with rd c ld show ?thesis by auto
qed


theorem junit_create_save_load_verify_witness:
  "\<exists>reg reg'.
    err_bind (junit_fromXML (XElem ''testsuites'' Mapping.empty '''' [XElem ''testsuite'' (Mapping.update ''name'' ''S'' Mapping.empty) '''' [XElem ''testcase'' (Mapping.update ''name'' ''a'' Mapping.empty) '''' [], XElem ''testcase'' (Mapping.update ''name'' ''b'' Mapping.empty) '''' [XElem ''failure'' (Mapping.update ''message'' ''boom'' Mapping.empty) '''' []]]])) (\<lambda>results. create_registry results ''out/results.xml'' None None (\<lambda>m. (0, [])) (2013, 1, 1)) = Inr reg \<and>
    load_registry (\<lambda>s. Inr (2013, 1, 1)) (2014, 2, 2) (toXML (\<lambda>d. ''2013-01-01'') reg) None = Inr reg' \<and>
    verify_results False reg' (junit_spec (XElem ''testsuites'' Mapping.empty '''' [XElem ''testsuite'' (Mapping.update ''name'' ''S'' Mapping.empty) '''' [XElem ''testcase'' (Mapping.update ''name'' ''a'' Mapping.empty) '''' [], XElem ''testcase'' (Mapping.update ''name'' ''b'' Mapping.empty) '''' [XElem ''failure'' (Mapping.update ''message'' ''boom'' Mapping.empty) '''' []]]])) =
      ([], map (\<lambda>r. \<lparr>row_code = (if status r then ''++'' else ''--''), row_color = DEFAULT,
                     row_suite = suite r, row_name = name r,
                     row_result = bool_lower (status r), row_expected = bool_lower (status r)\<rparr>)
               (sort_key tc_key (junit_spec (XElem ''testsuites'' Mapping.empty '''' [XElem ''testsuite'' (Mapping.update ''name'' ''S'' Mapping.empty) '''' [XElem ''testcase'' (Mapping.update ''name'' ''a'' Mapping.empty) '''' [], XElem ''testcase'' (Mapping.update ''name'' ''b'' Mapping.empty) '''' [XElem ''failure'' (Mapping.update ''message'' ''boom'' Mapping.empty) '''' []]]]))), None)"
proof -
  have ok: "junit_attrs_ok (XElem ''testsuites'' Mapping.empty '''' [XElem ''testsuite'' (Mapping.update ''name'' ''S'' Mapping.empty) '''' [XElem ''testcase'' (Mapping.update ''name'' ''a'' Mapping.empty) '''' [], XElem ''testcase'' (Mapping.update ''name'' ''b'' Mapping.empty) '''' [XElem ''failure'' (Mapping.update ''message'' ''boom'' Mapping.empty) '''' []]]])" by code_simp
  have dk: "distinct (map tc_key (junit_spec (XElem ''testsuites'' Mapping.empty '''' [XElem ''testsuite'' (Mapping.update ''name'' ''S'' Mapping.empty) '''' [XElem ''testcase'' (Mapping.update ''name'' ''a'' Mapping.empty) '''' [], XElem ''testcase'' (Mapping.update ''name'' ''b'' Mapping.empty) '''' [XElem ''failure'' (Mapping.update ''message'' ''boom'' Mapping.empty) '''' []]]])))" by code_simp
  have ne: "junit_spec (XElem ''testsuites'' Mapping.empty '''' [XElem ''testsuite'' (Mapping.update ''name'' ''S'' Mapping.empty) '''' [XElem ''testcase'' (Mapping.update ''name'' ''a'' Mapping.empty) '''' [], XElem ''testcase'' (Mapping.update ''name'' ''b'' Mapping.empty) '''' [XElem ''failure'' (Mapping.update ''message'' ''boom'' Mapping.empty) '''' []]]]) \<noteq> []" by code_simp
  have au: "(None :: string list option) \<noteq> Some [''rpm'']" by simp
  have dt: "(\<lambda>s. Inr (2013, 1, 1)) ((\<lambda>d. ''2013-01-01'') (2013, 1, 1)) = (Inr (2013, 1, 1) :: xit_error + xit_date)"
    by simp
  show ?thesis
    using junit_create_save_load_verify[OF ok dk ne au dt] .
qed

end
